(* ===== verification/Prelude.thy ===== *)
theory Prelude
  imports Main "HOL-Library.Word" "HOL-Library.List_Lexorder" "HOL-Library.Char_ord"
    "HOL-Library.Sublist"
begin

text \<open>
  What the components share. Rust strings are HOL strings holding the UTF-8 bytes (one \<open>char\<close> is one
  byte), so Rust's \<open>len\<close> is \<open>length\<close> and \<open>chars().count()\<close> is \<^term>\<open>utf8_chars\<close> below. Fixed-width
  integers that the code shifts or masks are words; database ids, byte sizes and time stamps are
  only compared and are integers (time stamps count microseconds, the resolution of Postgres'
  \<open>timestamptz\<close>). The list functions are the ones of the Rust standard library the code calls:
  \<open>str::join\<close>, \<open>str::split(char)\<close>, \<open>str::trim\<close>, \<open>str::to_lowercase\<close> and \<open>str::split_whitespace\<close>.
\<close>

unbundle bit_operations_syntax

type_synonym u8 = "8 word"
type_synonym u16 = "16 word"
type_synonym u64 = "64 word"
type_synonym bytes = "8 word list"
type_synonym timestamp = int
type_synonym account_id = int

section \<open>A theorem collection\<close>

named_theorems op_defs \<open>definitions of the statements sent to the database\<close>

section \<open>Strings\<close>

definition utf8_continuation :: "char \<Rightarrow> bool" where
  "utf8_continuation c \<longleftrightarrow> 128 \<le> (of_char c :: nat) \<and> (of_char c :: nat) < 192"

text \<open>\<open>s.chars().count()\<close>: the bytes of a UTF-8 string that start a code point.\<close>

definition utf8_chars :: "string \<Rightarrow> nat" where
  "utf8_chars s = length (filter (\<lambda>c. \<not> utf8_continuation c) s)"

lemma utf8_chars_le_length: "utf8_chars s \<le> length s"
  by (simp add: utf8_chars_def)

text \<open>\<open>words.join(sep)\<close> for a one-character separator.\<close>

fun join_with :: "char \<Rightarrow> string list \<Rightarrow> string" where
  "join_with c [] = []"
| "join_with c [w] = w"
| "join_with c (w # ws) = w @ c # join_with c ws"

text \<open>\<open>s.split(c)\<close>: always at least one piece, empty pieces kept.\<close>

fun split_on :: "char \<Rightarrow> string \<Rightarrow> string list" where
  "split_on c [] = [[]]"
| "split_on c (x # xs) =
     (if x = c then [] # split_on c xs
      else (case split_on c xs of [] \<Rightarrow> [[x]] | p # ps \<Rightarrow> (x # p) # ps))"

lemma split_on_nonempty [simp]: "split_on c s \<noteq> []"
  by (induction s) (auto split: list.splits)

lemma split_on_prefix:
  "c \<notin> set w \<Longrightarrow> split_on c (w @ c # s) = w # split_on c s"
  by (induction w) auto

lemma split_on_no_sep: "c \<notin> set w \<Longrightarrow> split_on c w = [w]"
  by (induction w) auto

lemma split_on_join:
  assumes "ws \<noteq> []" and "\<forall>w \<in> set ws. c \<notin> set w"
  shows "split_on c (join_with c ws) = ws"
  using assms
proof (induction c ws rule: join_with.induct)
  case (3 c w v vs)
  then show ?case by (simp add: split_on_prefix)
qed (simp_all add: split_on_no_sep)

lemma join_split_on: "join_with c (split_on c s) = s"
proof (induction s)
  case (Cons x s)
  then show ?case
    by (cases "split_on c s"; cases "tl (split_on c s)") (auto split: list.splits)
qed simp

lemma set_join_with: "set (join_with c ws) \<subseteq> insert c (\<Union> (set ` set ws))"
  by (induction c ws rule: join_with.induct) auto

text \<open>
  Trimming, lowercasing and splitting on white space look at Unicode properties. Their effect on
  ASCII is written out; what they do to other text comes from the tables of the Rust standard
  library, which are a parameter of the definitions that use them (\<open>unicode\<close>).
\<close>

definition is_ascii :: "string \<Rightarrow> bool" where
  "is_ascii s \<longleftrightarrow> list_all (\<lambda>c. (of_char c :: nat) < 128) s"

definition ascii_space :: "char \<Rightarrow> bool" where
  "ascii_space c \<longleftrightarrow> (of_char c :: nat) \<in> {9, 10, 11, 12, 13, 32}"

definition ascii_lower :: "char \<Rightarrow> char" where
  "ascii_lower c = (let n = (of_char c :: nat) in if 65 \<le> n \<and> n \<le> 90 then char_of (n + 32) else c)"

definition trim_ascii :: "string \<Rightarrow> string" where
  "trim_ascii s = rev (dropWhile ascii_space (rev (dropWhile ascii_space s)))"

definition to_ascii_lowercase :: "string \<Rightarrow> string" where
  "to_ascii_lowercase s = map ascii_lower s"

fun split_ascii_space :: "string \<Rightarrow> string \<Rightarrow> string list" where
  "split_ascii_space acc [] = (if acc = [] then [] else [acc])"
| "split_ascii_space acc (x # xs) =
     (if ascii_space x then (if acc = [] then [] else [acc]) @ split_ascii_space [] xs
      else split_ascii_space (acc @ [x]) xs)"

record unicode =
  str_trim :: "string \<Rightarrow> string"
  str_lowercase :: "string \<Rightarrow> string"
  str_split_whitespace :: "string \<Rightarrow> string list"

definition unicode_ascii :: "unicode \<Rightarrow> bool" where
  "unicode_ascii U \<longleftrightarrow> (\<forall>s. is_ascii s \<longrightarrow>
     str_trim U s = trim_ascii s \<and>
     str_lowercase U s = to_ascii_lowercase s \<and>
     str_split_whitespace U s = split_ascii_space [] s)"

definition ascii_only :: unicode where
  "ascii_only = \<lparr>str_trim = trim_ascii, str_lowercase = to_ascii_lowercase,
     str_split_whitespace = split_ascii_space []\<rparr>"

lemma unicode_ascii_ascii_only [simp]: "unicode_ascii ascii_only"
  by (simp add: unicode_ascii_def ascii_only_def)

lemma dropWhile_no_space: "\<forall>c \<in> set s. \<not> ascii_space c \<Longrightarrow> dropWhile ascii_space s = s"
  by (cases s) auto

lemma trim_ascii_id: "\<forall>c \<in> set s. \<not> ascii_space c \<Longrightarrow> trim_ascii s = s"
  by (simp add: trim_ascii_def dropWhile_no_space)

lemma split_ascii_space_word:
  "\<forall>c \<in> set w. \<not> ascii_space c \<Longrightarrow>
     split_ascii_space acc (w @ s) = split_ascii_space (acc @ w) s"
  by (induction w arbitrary: acc) auto

lemma split_ascii_space_join:
  assumes "\<forall>w \<in> set ws. w \<noteq> [] \<and> (\<forall>c \<in> set w. \<not> ascii_space c)"
  shows "split_ascii_space [] (join_with CHR '' '' ws) = ws"
  using assms
proof (induction "CHR '' ''" ws rule: join_with.induct)
  case (2 w)
  then show ?case using split_ascii_space_word [of w "[]" "[]"] by simp
next
  case (3 w v vs)
  then show ?case
    using split_ascii_space_word [of w "[]" "CHR '' '' # join_with CHR '' '' (v # vs)"]
    by (simp add: ascii_space_def)
qed simp

section \<open>Bytes and characters\<close>

definition byte_char :: "u8 \<Rightarrow> char" where
  "byte_char b = char_of (unat b)"

definition char_byte :: "char \<Rightarrow> u8" where
  "char_byte c = of_nat (of_char c)"

text \<open>A byte-string literal \<open>b"..."\<close>, and \<open>s.as_bytes()\<close>.\<close>

definition byte_string :: "string \<Rightarrow> bytes" where
  "byte_string s = map char_byte s"

lemma byte_char_inverse [simp]: "char_byte (byte_char b) = b"
proof -
  have "unat b < 256" using unsigned_less [of b, where 'a = nat] by simp
  then show ?thesis by (simp add: byte_char_def char_byte_def of_char_of)
qed

lemma char_byte_inverse [simp]: "byte_char (char_byte c) = c"
  by (simp add: byte_char_def char_byte_def unat_of_nat)

lemma map_char_byte_inverse [simp]: "map (char_byte \<circ> byte_char) bs = bs"
  "map (byte_char \<circ> char_byte) s = s"
  by (simp_all add: map_idI)

lemma length_byte_string [simp]: "length (byte_string s) = length s"
  by (simp add: byte_string_def)

section \<open>Lists and tables\<close>

text \<open>\<open>UPDATE t SET ... WHERE p\<close> on a table kept as the list of its rows.\<close>

definition update_where :: "('a \<Rightarrow> bool) \<Rightarrow> ('a \<Rightarrow> 'a) \<Rightarrow> 'a list \<Rightarrow> 'a list" where
  "update_where p f xs = map (\<lambda>x. if p x then f x else x) xs"

text \<open>\<open>fetch_optional\<close> of a query: its first row, if any.\<close>

definition find_first :: "('a \<Rightarrow> bool) \<Rightarrow> 'a list \<Rightarrow> 'a option" where
  "find_first p xs = List.find p xs"

lemma length_update_where [simp]: "length (update_where p f xs) = length xs"
  by (simp add: update_where_def)

lemma update_where_Nil [simp]: "update_where p f [] = []"
  by (simp add: update_where_def)

lemma update_where_Cons [simp]:
  "update_where p f (x # xs) = (if p x then f x else x) # update_where p f xs"
  by (simp add: update_where_def)

lemma update_where_append [simp]:
  "update_where p f (xs @ ys) = update_where p f xs @ update_where p f ys"
  by (simp add: update_where_def)

lemma map_update_where:
  "(\<And>x. g (f x) = g x) \<Longrightarrow> map g (update_where p f xs) = map g xs"
  by (simp add: update_where_def)

lemma set_update_where:
  "set (update_where p f xs) = f ` {x \<in> set xs. p x} \<union> {x \<in> set xs. \<not> p x}"
  by (auto simp: update_where_def)

lemma in_update_whereD:
  "y \<in> set (update_where p f xs) \<Longrightarrow> (\<exists>x \<in> set xs. p x \<and> y = f x) \<or> (y \<in> set xs \<and> \<not> p y)"
  by (auto simp: set_update_where)

lemma update_where_id: "(\<And>x. x \<in> set xs \<Longrightarrow> \<not> p x) \<Longrightarrow> update_where p f xs = xs"
  by (induction xs) auto

lemma find_first_Nil [simp]: "find_first p [] = None"
  by (simp add: find_first_def)

lemma find_first_Cons [simp]: "find_first p (x # xs) = (if p x then Some x else find_first p xs)"
  by (simp add: find_first_def)

lemma find_first_None_iff: "find_first p xs = None \<longleftrightarrow> (\<forall>x \<in> set xs. \<not> p x)"
  by (auto simp: find_first_def find_None_iff)

lemma find_first_SomeD: "find_first p xs = Some x \<Longrightarrow> x \<in> set xs \<and> p x"
  by (auto simp: find_first_def find_Some_iff)

lemma find_first_append:
  "find_first p (xs @ ys) = (case find_first p xs of Some x \<Rightarrow> Some x | None \<Rightarrow> find_first p ys)"
  by (induction xs) auto

lemma find_first_unique:
  assumes "distinct (map f xs)" and "x \<in> set xs"
  shows "find_first (\<lambda>y. f y = f x) xs = Some x"
  using assms by (induction xs) (auto simp: rev_image_eqI)

lemma find_first_update_where:
  assumes "\<And>x. q (f x) = q x"
  shows "find_first q (update_where p f xs) =
    map_option (\<lambda>x. if p x then f x else x) (find_first q xs)"
  using assms by (induction xs) auto

lemma distinct_map_filter: "distinct (map f xs) \<Longrightarrow> distinct (map f (filter p xs))"
  by (induction xs) auto

lemma distinct_map_inj_eq:
  "distinct (map f xs) \<Longrightarrow> x \<in> set xs \<Longrightarrow> y \<in> set xs \<Longrightarrow> f x = f y \<Longrightarrow> x = y"
  by (induction xs) (auto simp: rev_image_eqI)

lemma in_map_filter: "y \<in> set (List.map_filter f xs) \<longleftrightarrow> (\<exists>x \<in> set xs. f x = Some y)"
  by (induction xs) (auto simp: List.map_filter_simps split: option.splits)

section \<open>Keyed tables\<close>

text \<open>
  The contract of an \<open>INSERT ... ON CONFLICT (key) DO UPDATE\<close> statement, as its callers use it: a lookup
  after a store finds the stored value under its key and the old values elsewhere. A store is only
  allowed where the references of the row exist (\<open>valid\<close>).
\<close>

locale keyed_table =
  fixes put :: "'k \<Rightarrow> 'v \<Rightarrow> 's \<Rightarrow> 's"
    and get :: "'s \<Rightarrow> 'k \<Rightarrow> 'v option"
    and ok :: "'s \<Rightarrow> bool"
    and valid :: "'s \<Rightarrow> 'k \<Rightarrow> 'v \<Rightarrow> bool"
  assumes put_get: "ok s \<Longrightarrow> valid s k v \<Longrightarrow> get (put k v s) k' = (if k' = k then Some v else get s k')"
    and put_ok: "ok s \<Longrightarrow> ok (put k v s)"
    and put_valid: "valid (put k v s) k' v' = valid s k' v'"
begin

lemma put_twice: "ok s \<Longrightarrow> valid s k v \<Longrightarrow> valid s k w \<Longrightarrow> get (put k v (put k w s)) = get (put k v s)"
  by (rule ext) (simp add: put_get put_ok put_valid)

lemma put_other: "ok s \<Longrightarrow> valid s k v \<Longrightarrow> k' \<noteq> k \<Longrightarrow> get (put k v s) k' = get s k'"
  by (simp add: put_get)

lemma fold_put_ok: "ok s \<Longrightarrow> ok (fold (\<lambda>(k, v). put k v) kvs s)"
proof (induction kvs arbitrary: s)
  case (Cons kv kvs)
  then show ?case using put_ok by (cases kv) simp
qed simp

lemma fold_put_valid: "valid (fold (\<lambda>(k, v). put k v) kvs s) k' v' = valid s k' v'"
proof (induction kvs arbitrary: s)
  case (Cons kv kvs)
  then show ?case by (cases kv) (simp add: put_valid)
qed simp

text \<open>After any sequence of stores a key holds the last value stored under it.\<close>

lemma last_put_wins:
  "ok s \<Longrightarrow> list_all (\<lambda>(k, v). valid s k v) kvs \<Longrightarrow>
   get (fold (\<lambda>(k, v). put k v) kvs s) k =
     (case map_of (rev kvs) k of Some v \<Rightarrow> Some v | None \<Rightarrow> get s k)"
proof (induction kvs rule: rev_induct)
  case (snoc kv kvs)
  obtain k0 v0 where "kv = (k0, v0)" by fastforce
  then show ?case
    using snoc by (simp add: put_get fold_put_ok fold_put_valid)
qed simp

end

section \<open>Decimal digits\<close>

fun digits_value :: "nat \<Rightarrow> string \<Rightarrow> nat option" where
  "digits_value n [] = Some n"
| "digits_value n (c # cs) =
    (if 48 \<le> (of_char c :: nat) \<and> (of_char c :: nat) \<le> 57 then digits_value (10 * n + (of_char c - 48)) cs else None)"

end
