(* ===== verification/Wordlist.thy ===== *)
theory Wordlist
  imports Prelude
begin

text \<open>
  The BIP39 English word list of \<open>crypto/src/wordlist.rs\<close>, \<open>BIP39_EN\<close>, in sixteen pieces of 128
  words, and what the encoders rely on: there are 2048 words, they are in strictly ascending
  order (so no word occurs twice and a word has one index), and every word is a short string of lower
  case ASCII letters (so no word holds a separator). The two lookup tables the code builds from
  the list (\<open>word_index_lookup\<close> in \<open>invite.rs\<close> and the local table of \<open>phrase_to_seed\<close>) are
  \<^term>\<open>word_index\<close>.
\<close>

definition bip39_00 :: "string list" where
  "bip39_00 = [
    ''abandon'', ''ability'', ''able'', ''about'', ''above'', ''absent'', ''absorb'',
    ''abstract'', ''absurd'', ''abuse'', ''access'', ''accident'', ''account'', ''accuse'',
    ''achieve'', ''acid'', ''acoustic'', ''acquire'', ''across'', ''act'', ''action'',
    ''actor'', ''actress'', ''actual'', ''adapt'', ''add'', ''addict'', ''address'',
    ''adjust'', ''admit'', ''adult'', ''advance'', ''advice'', ''aerobic'', ''affair'',
    ''afford'', ''afraid'', ''again'', ''age'', ''agent'', ''agree'', ''ahead'', ''aim'',
    ''air'', ''airport'', ''aisle'', ''alarm'', ''album'', ''alcohol'', ''alert'', ''alien'',
    ''all'', ''alley'', ''allow'', ''almost'', ''alone'', ''alpha'', ''already'', ''also'',
    ''alter'', ''always'', ''amateur'', ''amazing'', ''among'', ''amount'', ''amused'',
    ''analyst'', ''anchor'', ''ancient'', ''anger'', ''angle'', ''angry'', ''animal'',
    ''ankle'', ''announce'', ''annual'', ''another'', ''answer'', ''antenna'', ''antique'',
    ''anxiety'', ''any'', ''apart'', ''apology'', ''appear'', ''apple'', ''approve'',
    ''april'', ''arch'', ''arctic'', ''area'', ''arena'', ''argue'', ''arm'', ''armed'',
    ''armor'', ''army'', ''around'', ''arrange'', ''arrest'', ''arrive'', ''arrow'', ''art'',
    ''artefact'', ''artist'', ''artwork'', ''ask'', ''aspect'', ''assault'', ''asset'',
    ''assist'', ''assume'', ''asthma'', ''athlete'', ''atom'', ''attack'', ''attend'',
    ''attitude'', ''attract'', ''auction'', ''audit'', ''august'', ''aunt'', ''author'',
    ''auto'', ''autumn'', ''average'', ''avocado'']"

definition bip39_01 :: "string list" where
  "bip39_01 = [
    ''avoid'', ''awake'', ''aware'', ''away'', ''awesome'', ''awful'', ''awkward'', ''axis'',
    ''baby'', ''bachelor'', ''bacon'', ''badge'', ''bag'', ''balance'', ''balcony'', ''ball'',
    ''bamboo'', ''banana'', ''banner'', ''bar'', ''barely'', ''bargain'', ''barrel'', ''base'',
    ''basic'', ''basket'', ''battle'', ''beach'', ''bean'', ''beauty'', ''because'',
    ''become'', ''beef'', ''before'', ''begin'', ''behave'', ''behind'', ''believe'',
    ''below'', ''belt'', ''bench'', ''benefit'', ''best'', ''betray'', ''better'', ''between'',
    ''beyond'', ''bicycle'', ''bid'', ''bike'', ''bind'', ''biology'', ''bird'', ''birth'',
    ''bitter'', ''black'', ''blade'', ''blame'', ''blanket'', ''blast'', ''bleak'', ''bless'',
    ''blind'', ''blood'', ''blossom'', ''blouse'', ''blue'', ''blur'', ''blush'', ''board'',
    ''boat'', ''body'', ''boil'', ''bomb'', ''bone'', ''bonus'', ''book'', ''boost'',
    ''border'', ''boring'', ''borrow'', ''boss'', ''bottom'', ''bounce'', ''box'', ''boy'',
    ''bracket'', ''brain'', ''brand'', ''brass'', ''brave'', ''bread'', ''breeze'', ''brick'',
    ''bridge'', ''brief'', ''bright'', ''bring'', ''brisk'', ''broccoli'', ''broken'',
    ''bronze'', ''broom'', ''brother'', ''brown'', ''brush'', ''bubble'', ''buddy'',
    ''budget'', ''buffalo'', ''build'', ''bulb'', ''bulk'', ''bullet'', ''bundle'', ''bunker'',
    ''burden'', ''burger'', ''burst'', ''bus'', ''business'', ''busy'', ''butter'', ''buyer'',
    ''buzz'', ''cabbage'', ''cabin'', ''cable'']"

definition bip39_02 :: "string list" where
  "bip39_02 = [
    ''cactus'', ''cage'', ''cake'', ''call'', ''calm'', ''camera'', ''camp'', ''can'',
    ''canal'', ''cancel'', ''candy'', ''cannon'', ''canoe'', ''canvas'', ''canyon'',
    ''capable'', ''capital'', ''captain'', ''car'', ''carbon'', ''card'', ''cargo'',
    ''carpet'', ''carry'', ''cart'', ''case'', ''cash'', ''casino'', ''castle'', ''casual'',
    ''cat'', ''catalog'', ''catch'', ''category'', ''cattle'', ''caught'', ''cause'',
    ''caution'', ''cave'', ''ceiling'', ''celery'', ''cement'', ''census'', ''century'',
    ''cereal'', ''certain'', ''chair'', ''chalk'', ''champion'', ''change'', ''chaos'',
    ''chapter'', ''charge'', ''chase'', ''chat'', ''cheap'', ''check'', ''cheese'', ''chef'',
    ''cherry'', ''chest'', ''chicken'', ''chief'', ''child'', ''chimney'', ''choice'',
    ''choose'', ''chronic'', ''chuckle'', ''chunk'', ''churn'', ''cigar'', ''cinnamon'',
    ''circle'', ''citizen'', ''city'', ''civil'', ''claim'', ''clap'', ''clarify'', ''claw'',
    ''clay'', ''clean'', ''clerk'', ''clever'', ''click'', ''client'', ''cliff'', ''climb'',
    ''clinic'', ''clip'', ''clock'', ''clog'', ''close'', ''cloth'', ''cloud'', ''clown'',
    ''club'', ''clump'', ''cluster'', ''clutch'', ''coach'', ''coast'', ''coconut'', ''code'',
    ''coffee'', ''coil'', ''coin'', ''collect'', ''color'', ''column'', ''combine'', ''come'',
    ''comfort'', ''comic'', ''common'', ''company'', ''concert'', ''conduct'', ''confirm'',
    ''congress'', ''connect'', ''consider'', ''control'', ''convince'', ''cook'', ''cool'',
    ''copper'']"

definition bip39_03 :: "string list" where
  "bip39_03 = [
    ''copy'', ''coral'', ''core'', ''corn'', ''correct'', ''cost'', ''cotton'', ''couch'',
    ''country'', ''couple'', ''course'', ''cousin'', ''cover'', ''coyote'', ''crack'',
    ''cradle'', ''craft'', ''cram'', ''crane'', ''crash'', ''crater'', ''crawl'', ''crazy'',
    ''cream'', ''credit'', ''creek'', ''crew'', ''cricket'', ''crime'', ''crisp'', ''critic'',
    ''crop'', ''cross'', ''crouch'', ''crowd'', ''crucial'', ''cruel'', ''cruise'',
    ''crumble'', ''crunch'', ''crush'', ''cry'', ''crystal'', ''cube'', ''culture'', ''cup'',
    ''cupboard'', ''curious'', ''current'', ''curtain'', ''curve'', ''cushion'', ''custom'',
    ''cute'', ''cycle'', ''dad'', ''damage'', ''damp'', ''dance'', ''danger'', ''daring'',
    ''dash'', ''daughter'', ''dawn'', ''day'', ''deal'', ''debate'', ''debris'', ''decade'',
    ''december'', ''decide'', ''decline'', ''decorate'', ''decrease'', ''deer'', ''defense'',
    ''define'', ''defy'', ''degree'', ''delay'', ''deliver'', ''demand'', ''demise'',
    ''denial'', ''dentist'', ''deny'', ''depart'', ''depend'', ''deposit'', ''depth'',
    ''deputy'', ''derive'', ''describe'', ''desert'', ''design'', ''desk'', ''despair'',
    ''destroy'', ''detail'', ''detect'', ''develop'', ''device'', ''devote'', ''diagram'',
    ''dial'', ''diamond'', ''diary'', ''dice'', ''diesel'', ''diet'', ''differ'', ''digital'',
    ''dignity'', ''dilemma'', ''dinner'', ''dinosaur'', ''direct'', ''dirt'', ''disagree'',
    ''discover'', ''disease'', ''dish'', ''dismiss'', ''disorder'', ''display'', ''distance'',
    ''divert'', ''divide'']"

definition bip39_04 :: "string list" where
  "bip39_04 = [
    ''divorce'', ''dizzy'', ''doctor'', ''document'', ''dog'', ''doll'', ''dolphin'',
    ''domain'', ''donate'', ''donkey'', ''donor'', ''door'', ''dose'', ''double'', ''dove'',
    ''draft'', ''dragon'', ''drama'', ''drastic'', ''draw'', ''dream'', ''dress'', ''drift'',
    ''drill'', ''drink'', ''drip'', ''drive'', ''drop'', ''drum'', ''dry'', ''duck'', ''dumb'',
    ''dune'', ''during'', ''dust'', ''dutch'', ''duty'', ''dwarf'', ''dynamic'', ''eager'',
    ''eagle'', ''early'', ''earn'', ''earth'', ''easily'', ''east'', ''easy'', ''echo'',
    ''ecology'', ''economy'', ''edge'', ''edit'', ''educate'', ''effort'', ''egg'', ''eight'',
    ''either'', ''elbow'', ''elder'', ''electric'', ''elegant'', ''element'', ''elephant'',
    ''elevator'', ''elite'', ''else'', ''embark'', ''embody'', ''embrace'', ''emerge'',
    ''emotion'', ''employ'', ''empower'', ''empty'', ''enable'', ''enact'', ''end'',
    ''endless'', ''endorse'', ''enemy'', ''energy'', ''enforce'', ''engage'', ''engine'',
    ''enhance'', ''enjoy'', ''enlist'', ''enough'', ''enrich'', ''enroll'', ''ensure'',
    ''enter'', ''entire'', ''entry'', ''envelope'', ''episode'', ''equal'', ''equip'', ''era'',
    ''erase'', ''erode'', ''erosion'', ''error'', ''erupt'', ''escape'', ''essay'',
    ''essence'', ''estate'', ''eternal'', ''ethics'', ''evidence'', ''evil'', ''evoke'',
    ''evolve'', ''exact'', ''example'', ''excess'', ''exchange'', ''excite'', ''exclude'',
    ''excuse'', ''execute'', ''exercise'', ''exhaust'', ''exhibit'', ''exile'', ''exist'',
    ''exit'']"

definition bip39_05 :: "string list" where
  "bip39_05 = [
    ''exotic'', ''expand'', ''expect'', ''expire'', ''explain'', ''expose'', ''express'',
    ''extend'', ''extra'', ''eye'', ''eyebrow'', ''fabric'', ''face'', ''faculty'', ''fade'',
    ''faint'', ''faith'', ''fall'', ''false'', ''fame'', ''family'', ''famous'', ''fan'',
    ''fancy'', ''fantasy'', ''farm'', ''fashion'', ''fat'', ''fatal'', ''father'', ''fatigue'',
    ''fault'', ''favorite'', ''feature'', ''february'', ''federal'', ''fee'', ''feed'',
    ''feel'', ''female'', ''fence'', ''festival'', ''fetch'', ''fever'', ''few'', ''fiber'',
    ''fiction'', ''field'', ''figure'', ''file'', ''film'', ''filter'', ''final'', ''find'',
    ''fine'', ''finger'', ''finish'', ''fire'', ''firm'', ''first'', ''fiscal'', ''fish'',
    ''fit'', ''fitness'', ''fix'', ''flag'', ''flame'', ''flash'', ''flat'', ''flavor'',
    ''flee'', ''flight'', ''flip'', ''float'', ''flock'', ''floor'', ''flower'', ''fluid'',
    ''flush'', ''fly'', ''foam'', ''focus'', ''fog'', ''foil'', ''fold'', ''follow'', ''food'',
    ''foot'', ''force'', ''forest'', ''forget'', ''fork'', ''fortune'', ''forum'', ''forward'',
    ''fossil'', ''foster'', ''found'', ''fox'', ''fragile'', ''frame'', ''frequent'',
    ''fresh'', ''friend'', ''fringe'', ''frog'', ''front'', ''frost'', ''frown'', ''frozen'',
    ''fruit'', ''fuel'', ''fun'', ''funny'', ''furnace'', ''fury'', ''future'', ''gadget'',
    ''gain'', ''galaxy'', ''gallery'', ''game'', ''gap'', ''garage'', ''garbage'', ''garden'',
    ''garlic'', ''garment'']"

definition bip39_06 :: "string list" where
  "bip39_06 = [
    ''gas'', ''gasp'', ''gate'', ''gather'', ''gauge'', ''gaze'', ''general'', ''genius'',
    ''genre'', ''gentle'', ''genuine'', ''gesture'', ''ghost'', ''giant'', ''gift'',
    ''giggle'', ''ginger'', ''giraffe'', ''girl'', ''give'', ''glad'', ''glance'', ''glare'',
    ''glass'', ''glide'', ''glimpse'', ''globe'', ''gloom'', ''glory'', ''glove'', ''glow'',
    ''glue'', ''goat'', ''goddess'', ''gold'', ''good'', ''goose'', ''gorilla'', ''gospel'',
    ''gossip'', ''govern'', ''gown'', ''grab'', ''grace'', ''grain'', ''grant'', ''grape'',
    ''grass'', ''gravity'', ''great'', ''green'', ''grid'', ''grief'', ''grit'', ''grocery'',
    ''group'', ''grow'', ''grunt'', ''guard'', ''guess'', ''guide'', ''guilt'', ''guitar'',
    ''gun'', ''gym'', ''habit'', ''hair'', ''half'', ''hammer'', ''hamster'', ''hand'',
    ''happy'', ''harbor'', ''hard'', ''harsh'', ''harvest'', ''hat'', ''have'', ''hawk'',
    ''hazard'', ''head'', ''health'', ''heart'', ''heavy'', ''hedgehog'', ''height'',
    ''hello'', ''helmet'', ''help'', ''hen'', ''hero'', ''hidden'', ''high'', ''hill'',
    ''hint'', ''hip'', ''hire'', ''history'', ''hobby'', ''hockey'', ''hold'', ''hole'',
    ''holiday'', ''hollow'', ''home'', ''honey'', ''hood'', ''hope'', ''horn'', ''horror'',
    ''horse'', ''hospital'', ''host'', ''hotel'', ''hour'', ''hover'', ''hub'', ''huge'',
    ''human'', ''humble'', ''humor'', ''hundred'', ''hungry'', ''hunt'', ''hurdle'', ''hurry'',
    ''hurt'', ''husband'']"

definition bip39_07 :: "string list" where
  "bip39_07 = [
    ''hybrid'', ''ice'', ''icon'', ''idea'', ''identify'', ''idle'', ''ignore'', ''ill'',
    ''illegal'', ''illness'', ''image'', ''imitate'', ''immense'', ''immune'', ''impact'',
    ''impose'', ''improve'', ''impulse'', ''inch'', ''include'', ''income'', ''increase'',
    ''index'', ''indicate'', ''indoor'', ''industry'', ''infant'', ''inflict'', ''inform'',
    ''inhale'', ''inherit'', ''initial'', ''inject'', ''injury'', ''inmate'', ''inner'',
    ''innocent'', ''input'', ''inquiry'', ''insane'', ''insect'', ''inside'', ''inspire'',
    ''install'', ''intact'', ''interest'', ''into'', ''invest'', ''invite'', ''involve'',
    ''iron'', ''island'', ''isolate'', ''issue'', ''item'', ''ivory'', ''jacket'', ''jaguar'',
    ''jar'', ''jazz'', ''jealous'', ''jeans'', ''jelly'', ''jewel'', ''job'', ''join'',
    ''joke'', ''journey'', ''joy'', ''judge'', ''juice'', ''jump'', ''jungle'', ''junior'',
    ''junk'', ''just'', ''kangaroo'', ''keen'', ''keep'', ''ketchup'', ''key'', ''kick'',
    ''kid'', ''kidney'', ''kind'', ''kingdom'', ''kiss'', ''kit'', ''kitchen'', ''kite'',
    ''kitten'', ''kiwi'', ''knee'', ''knife'', ''knock'', ''know'', ''lab'', ''label'',
    ''labor'', ''ladder'', ''lady'', ''lake'', ''lamp'', ''language'', ''laptop'', ''large'',
    ''later'', ''latin'', ''laugh'', ''laundry'', ''lava'', ''law'', ''lawn'', ''lawsuit'',
    ''layer'', ''lazy'', ''leader'', ''leaf'', ''learn'', ''leave'', ''lecture'', ''left'',
    ''leg'', ''legal'', ''legend'', ''leisure'', ''lemon'', ''lend'']"

definition bip39_08 :: "string list" where
  "bip39_08 = [
    ''length'', ''lens'', ''leopard'', ''lesson'', ''letter'', ''level'', ''liar'',
    ''liberty'', ''library'', ''license'', ''life'', ''lift'', ''light'', ''like'', ''limb'',
    ''limit'', ''link'', ''lion'', ''liquid'', ''list'', ''little'', ''live'', ''lizard'',
    ''load'', ''loan'', ''lobster'', ''local'', ''lock'', ''logic'', ''lonely'', ''long'',
    ''loop'', ''lottery'', ''loud'', ''lounge'', ''love'', ''loyal'', ''lucky'', ''luggage'',
    ''lumber'', ''lunar'', ''lunch'', ''luxury'', ''lyrics'', ''machine'', ''mad'', ''magic'',
    ''magnet'', ''maid'', ''mail'', ''main'', ''major'', ''make'', ''mammal'', ''man'',
    ''manage'', ''mandate'', ''mango'', ''mansion'', ''manual'', ''maple'', ''marble'',
    ''march'', ''margin'', ''marine'', ''market'', ''marriage'', ''mask'', ''mass'',
    ''master'', ''match'', ''material'', ''math'', ''matrix'', ''matter'', ''maximum'',
    ''maze'', ''meadow'', ''mean'', ''measure'', ''meat'', ''mechanic'', ''medal'', ''media'',
    ''melody'', ''melt'', ''member'', ''memory'', ''mention'', ''menu'', ''mercy'', ''merge'',
    ''merit'', ''merry'', ''mesh'', ''message'', ''metal'', ''method'', ''middle'',
    ''midnight'', ''milk'', ''million'', ''mimic'', ''mind'', ''minimum'', ''minor'',
    ''minute'', ''miracle'', ''mirror'', ''misery'', ''miss'', ''mistake'', ''mix'', ''mixed'',
    ''mixture'', ''mobile'', ''model'', ''modify'', ''mom'', ''moment'', ''monitor'',
    ''monkey'', ''monster'', ''month'', ''moon'', ''moral'', ''more'', ''morning'']"

definition bip39_09 :: "string list" where
  "bip39_09 = [
    ''mosquito'', ''mother'', ''motion'', ''motor'', ''mountain'', ''mouse'', ''move'',
    ''movie'', ''much'', ''muffin'', ''mule'', ''multiply'', ''muscle'', ''museum'',
    ''mushroom'', ''music'', ''must'', ''mutual'', ''myself'', ''mystery'', ''myth'',
    ''naive'', ''name'', ''napkin'', ''narrow'', ''nasty'', ''nation'', ''nature'', ''near'',
    ''neck'', ''need'', ''negative'', ''neglect'', ''neither'', ''nephew'', ''nerve'',
    ''nest'', ''net'', ''network'', ''neutral'', ''never'', ''news'', ''next'', ''nice'',
    ''night'', ''noble'', ''noise'', ''nominee'', ''noodle'', ''normal'', ''north'', ''nose'',
    ''notable'', ''note'', ''nothing'', ''notice'', ''novel'', ''now'', ''nuclear'',
    ''number'', ''nurse'', ''nut'', ''oak'', ''obey'', ''object'', ''oblige'', ''obscure'',
    ''observe'', ''obtain'', ''obvious'', ''occur'', ''ocean'', ''october'', ''odor'', ''off'',
    ''offer'', ''office'', ''often'', ''oil'', ''okay'', ''old'', ''olive'', ''olympic'',
    ''omit'', ''once'', ''one'', ''onion'', ''online'', ''only'', ''open'', ''opera'',
    ''opinion'', ''oppose'', ''option'', ''orange'', ''orbit'', ''orchard'', ''order'',
    ''ordinary'', ''organ'', ''orient'', ''original'', ''orphan'', ''ostrich'', ''other'',
    ''outdoor'', ''outer'', ''output'', ''outside'', ''oval'', ''oven'', ''over'', ''own'',
    ''owner'', ''oxygen'', ''oyster'', ''ozone'', ''pact'', ''paddle'', ''page'', ''pair'',
    ''palace'', ''palm'', ''panda'', ''panel'', ''panic'', ''panther'', ''paper'']"

definition bip39_10 :: "string list" where
  "bip39_10 = [
    ''parade'', ''parent'', ''park'', ''parrot'', ''party'', ''pass'', ''patch'', ''path'',
    ''patient'', ''patrol'', ''pattern'', ''pause'', ''pave'', ''payment'', ''peace'',
    ''peanut'', ''pear'', ''peasant'', ''pelican'', ''pen'', ''penalty'', ''pencil'',
    ''people'', ''pepper'', ''perfect'', ''permit'', ''person'', ''pet'', ''phone'', ''photo'',
    ''phrase'', ''physical'', ''piano'', ''picnic'', ''picture'', ''piece'', ''pig'',
    ''pigeon'', ''pill'', ''pilot'', ''pink'', ''pioneer'', ''pipe'', ''pistol'', ''pitch'',
    ''pizza'', ''place'', ''planet'', ''plastic'', ''plate'', ''play'', ''please'', ''pledge'',
    ''pluck'', ''plug'', ''plunge'', ''poem'', ''poet'', ''point'', ''polar'', ''pole'',
    ''police'', ''pond'', ''pony'', ''pool'', ''popular'', ''portion'', ''position'',
    ''possible'', ''post'', ''potato'', ''pottery'', ''poverty'', ''powder'', ''power'',
    ''practice'', ''praise'', ''predict'', ''prefer'', ''prepare'', ''present'', ''pretty'',
    ''prevent'', ''price'', ''pride'', ''primary'', ''print'', ''priority'', ''prison'',
    ''private'', ''prize'', ''problem'', ''process'', ''produce'', ''profit'', ''program'',
    ''project'', ''promote'', ''proof'', ''property'', ''prosper'', ''protect'', ''proud'',
    ''provide'', ''public'', ''pudding'', ''pull'', ''pulp'', ''pulse'', ''pumpkin'',
    ''punch'', ''pupil'', ''puppy'', ''purchase'', ''purity'', ''purpose'', ''purse'',
    ''push'', ''put'', ''puzzle'', ''pyramid'', ''quality'', ''quantum'', ''quarter'',
    ''question'', ''quick'', ''quit'', ''quiz'']"

definition bip39_11 :: "string list" where
  "bip39_11 = [
    ''quote'', ''rabbit'', ''raccoon'', ''race'', ''rack'', ''radar'', ''radio'', ''rail'',
    ''rain'', ''raise'', ''rally'', ''ramp'', ''ranch'', ''random'', ''range'', ''rapid'',
    ''rare'', ''rate'', ''rather'', ''raven'', ''raw'', ''razor'', ''ready'', ''real'',
    ''reason'', ''rebel'', ''rebuild'', ''recall'', ''receive'', ''recipe'', ''record'',
    ''recycle'', ''reduce'', ''reflect'', ''reform'', ''refuse'', ''region'', ''regret'',
    ''regular'', ''reject'', ''relax'', ''release'', ''relief'', ''rely'', ''remain'',
    ''remember'', ''remind'', ''remove'', ''render'', ''renew'', ''rent'', ''reopen'',
    ''repair'', ''repeat'', ''replace'', ''report'', ''require'', ''rescue'', ''resemble'',
    ''resist'', ''resource'', ''response'', ''result'', ''retire'', ''retreat'', ''return'',
    ''reunion'', ''reveal'', ''review'', ''reward'', ''rhythm'', ''rib'', ''ribbon'', ''rice'',
    ''rich'', ''ride'', ''ridge'', ''rifle'', ''right'', ''rigid'', ''ring'', ''riot'',
    ''ripple'', ''risk'', ''ritual'', ''rival'', ''river'', ''road'', ''roast'', ''robot'',
    ''robust'', ''rocket'', ''romance'', ''roof'', ''rookie'', ''room'', ''rose'', ''rotate'',
    ''rough'', ''round'', ''route'', ''royal'', ''rubber'', ''rude'', ''rug'', ''rule'',
    ''run'', ''runway'', ''rural'', ''sad'', ''saddle'', ''sadness'', ''safe'', ''sail'',
    ''salad'', ''salmon'', ''salon'', ''salt'', ''salute'', ''same'', ''sample'', ''sand'',
    ''satisfy'', ''satoshi'', ''sauce'', ''sausage'', ''save'', ''say'']"

definition bip39_12 :: "string list" where
  "bip39_12 = [
    ''scale'', ''scan'', ''scare'', ''scatter'', ''scene'', ''scheme'', ''school'',
    ''science'', ''scissors'', ''scorpion'', ''scout'', ''scrap'', ''screen'', ''script'',
    ''scrub'', ''sea'', ''search'', ''season'', ''seat'', ''second'', ''secret'', ''section'',
    ''security'', ''seed'', ''seek'', ''segment'', ''select'', ''sell'', ''seminar'',
    ''senior'', ''sense'', ''sentence'', ''series'', ''service'', ''session'', ''settle'',
    ''setup'', ''seven'', ''shadow'', ''shaft'', ''shallow'', ''share'', ''shed'', ''shell'',
    ''sheriff'', ''shield'', ''shift'', ''shine'', ''ship'', ''shiver'', ''shock'', ''shoe'',
    ''shoot'', ''shop'', ''short'', ''shoulder'', ''shove'', ''shrimp'', ''shrug'',
    ''shuffle'', ''shy'', ''sibling'', ''sick'', ''side'', ''siege'', ''sight'', ''sign'',
    ''silent'', ''silk'', ''silly'', ''silver'', ''similar'', ''simple'', ''since'', ''sing'',
    ''siren'', ''sister'', ''situate'', ''six'', ''size'', ''skate'', ''sketch'', ''ski'',
    ''skill'', ''skin'', ''skirt'', ''skull'', ''slab'', ''slam'', ''sleep'', ''slender'',
    ''slice'', ''slide'', ''slight'', ''slim'', ''slogan'', ''slot'', ''slow'', ''slush'',
    ''small'', ''smart'', ''smile'', ''smoke'', ''smooth'', ''snack'', ''snake'', ''snap'',
    ''sniff'', ''snow'', ''soap'', ''soccer'', ''social'', ''sock'', ''soda'', ''soft'',
    ''solar'', ''soldier'', ''solid'', ''solution'', ''solve'', ''someone'', ''song'',
    ''soon'', ''sorry'', ''sort'', ''soul'', ''sound'', ''soup'']"

definition bip39_13 :: "string list" where
  "bip39_13 = [
    ''source'', ''south'', ''space'', ''spare'', ''spatial'', ''spawn'', ''speak'',
    ''special'', ''speed'', ''spell'', ''spend'', ''sphere'', ''spice'', ''spider'', ''spike'',
    ''spin'', ''spirit'', ''split'', ''spoil'', ''sponsor'', ''spoon'', ''sport'', ''spot'',
    ''spray'', ''spread'', ''spring'', ''spy'', ''square'', ''squeeze'', ''squirrel'',
    ''stable'', ''stadium'', ''staff'', ''stage'', ''stairs'', ''stamp'', ''stand'', ''start'',
    ''state'', ''stay'', ''steak'', ''steel'', ''stem'', ''step'', ''stereo'', ''stick'',
    ''still'', ''sting'', ''stock'', ''stomach'', ''stone'', ''stool'', ''story'', ''stove'',
    ''strategy'', ''street'', ''strike'', ''strong'', ''struggle'', ''student'', ''stuff'',
    ''stumble'', ''style'', ''subject'', ''submit'', ''subway'', ''success'', ''such'',
    ''sudden'', ''suffer'', ''sugar'', ''suggest'', ''suit'', ''summer'', ''sun'', ''sunny'',
    ''sunset'', ''super'', ''supply'', ''supreme'', ''sure'', ''surface'', ''surge'',
    ''surprise'', ''surround'', ''survey'', ''suspect'', ''sustain'', ''swallow'', ''swamp'',
    ''swap'', ''swarm'', ''swear'', ''sweet'', ''swift'', ''swim'', ''swing'', ''switch'',
    ''sword'', ''symbol'', ''symptom'', ''syrup'', ''system'', ''table'', ''tackle'', ''tag'',
    ''tail'', ''talent'', ''talk'', ''tank'', ''tape'', ''target'', ''task'', ''taste'',
    ''tattoo'', ''taxi'', ''teach'', ''team'', ''tell'', ''ten'', ''tenant'', ''tennis'',
    ''tent'', ''term'', ''test'', ''text'', ''thank'', ''that'']"

definition bip39_14 :: "string list" where
  "bip39_14 = [
    ''theme'', ''then'', ''theory'', ''there'', ''they'', ''thing'', ''this'', ''thought'',
    ''three'', ''thrive'', ''throw'', ''thumb'', ''thunder'', ''ticket'', ''tide'', ''tiger'',
    ''tilt'', ''timber'', ''time'', ''tiny'', ''tip'', ''tired'', ''tissue'', ''title'',
    ''toast'', ''tobacco'', ''today'', ''toddler'', ''toe'', ''together'', ''toilet'',
    ''token'', ''tomato'', ''tomorrow'', ''tone'', ''tongue'', ''tonight'', ''tool'',
    ''tooth'', ''top'', ''topic'', ''topple'', ''torch'', ''tornado'', ''tortoise'', ''toss'',
    ''total'', ''tourist'', ''toward'', ''tower'', ''town'', ''toy'', ''track'', ''trade'',
    ''traffic'', ''tragic'', ''train'', ''transfer'', ''trap'', ''trash'', ''travel'',
    ''tray'', ''treat'', ''tree'', ''trend'', ''trial'', ''tribe'', ''trick'', ''trigger'',
    ''trim'', ''trip'', ''trophy'', ''trouble'', ''truck'', ''true'', ''truly'', ''trumpet'',
    ''trust'', ''truth'', ''try'', ''tube'', ''tuition'', ''tumble'', ''tuna'', ''tunnel'',
    ''turkey'', ''turn'', ''turtle'', ''twelve'', ''twenty'', ''twice'', ''twin'', ''twist'',
    ''two'', ''type'', ''typical'', ''ugly'', ''umbrella'', ''unable'', ''unaware'', ''uncle'',
    ''uncover'', ''under'', ''undo'', ''unfair'', ''unfold'', ''unhappy'', ''uniform'',
    ''unique'', ''unit'', ''universe'', ''unknown'', ''unlock'', ''until'', ''unusual'',
    ''unveil'', ''update'', ''upgrade'', ''uphold'', ''upon'', ''upper'', ''upset'', ''urban'',
    ''urge'', ''usage'', ''use'', ''used'', ''useful'']"

definition bip39_15 :: "string list" where
  "bip39_15 = [
    ''useless'', ''usual'', ''utility'', ''vacant'', ''vacuum'', ''vague'', ''valid'',
    ''valley'', ''valve'', ''van'', ''vanish'', ''vapor'', ''various'', ''vast'', ''vault'',
    ''vehicle'', ''velvet'', ''vendor'', ''venture'', ''venue'', ''verb'', ''verify'',
    ''version'', ''very'', ''vessel'', ''veteran'', ''viable'', ''vibrant'', ''vicious'',
    ''victory'', ''video'', ''view'', ''village'', ''vintage'', ''violin'', ''virtual'',
    ''virus'', ''visa'', ''visit'', ''visual'', ''vital'', ''vivid'', ''vocal'', ''voice'',
    ''void'', ''volcano'', ''volume'', ''vote'', ''voyage'', ''wage'', ''wagon'', ''wait'',
    ''walk'', ''wall'', ''walnut'', ''want'', ''warfare'', ''warm'', ''warrior'', ''wash'',
    ''wasp'', ''waste'', ''water'', ''wave'', ''way'', ''wealth'', ''weapon'', ''wear'',
    ''weasel'', ''weather'', ''web'', ''wedding'', ''weekend'', ''weird'', ''welcome'',
    ''west'', ''wet'', ''whale'', ''what'', ''wheat'', ''wheel'', ''when'', ''where'',
    ''whip'', ''whisper'', ''wide'', ''width'', ''wife'', ''wild'', ''will'', ''win'',
    ''window'', ''wine'', ''wing'', ''wink'', ''winner'', ''winter'', ''wire'', ''wisdom'',
    ''wise'', ''wish'', ''witness'', ''wolf'', ''woman'', ''wonder'', ''wood'', ''wool'',
    ''word'', ''work'', ''world'', ''worry'', ''worth'', ''wrap'', ''wreck'', ''wrestle'',
    ''wrist'', ''write'', ''wrong'', ''yard'', ''year'', ''yellow'', ''you'', ''young'',
    ''youth'', ''zebra'', ''zero'', ''zone'', ''zoo'']"

definition BIP39_EN :: "string list" where
  "BIP39_EN =
    bip39_00 @ bip39_01 @ bip39_02 @ bip39_03 @ bip39_04 @ bip39_05 @ bip39_06 @ bip39_07 @
    bip39_08 @ bip39_09 @ bip39_10 @ bip39_11 @ bip39_12 @ bip39_13 @ bip39_14 @ bip39_15"

section \<open>Shape of the list\<close>

fun ascending :: "string list \<Rightarrow> bool" where
  "ascending (x # y # r) \<longleftrightarrow> x < y \<and> ascending (y # r)"
| "ascending _ \<longleftrightarrow> True"

definition word_shape :: "string \<Rightarrow> bool" where
  "word_shape w \<longleftrightarrow> w \<noteq> [] \<and> length w \<le> 8 \<and>
     list_all (\<lambda>c. CHR ''a'' \<le> c \<and> c \<le> CHR ''z'') w"

lemma shape_00: "ascending (bip39_00 @ [''avoid''])" "list_all word_shape bip39_00"
    "length bip39_00 = 128" "bip39_00 \<noteq> []" "hd bip39_00 = ''abandon''"
  by (simp_all add: bip39_00_def word_shape_def)

lemma shape_01: "ascending (bip39_01 @ [''cactus''])" "list_all word_shape bip39_01"
    "length bip39_01 = 128" "bip39_01 \<noteq> []" "hd bip39_01 = ''avoid''"
  by (simp_all add: bip39_01_def word_shape_def)

lemma shape_02: "ascending (bip39_02 @ [''copy''])" "list_all word_shape bip39_02"
    "length bip39_02 = 128" "bip39_02 \<noteq> []" "hd bip39_02 = ''cactus''"
  by (simp_all add: bip39_02_def word_shape_def)

lemma shape_03: "ascending (bip39_03 @ [''divorce''])" "list_all word_shape bip39_03"
    "length bip39_03 = 128" "bip39_03 \<noteq> []" "hd bip39_03 = ''copy''"
  by (simp_all add: bip39_03_def word_shape_def)

lemma shape_04: "ascending (bip39_04 @ [''exotic''])" "list_all word_shape bip39_04"
    "length bip39_04 = 128" "bip39_04 \<noteq> []" "hd bip39_04 = ''divorce''"
  by (simp_all add: bip39_04_def word_shape_def)

lemma shape_05: "ascending (bip39_05 @ [''gas''])" "list_all word_shape bip39_05"
    "length bip39_05 = 128" "bip39_05 \<noteq> []" "hd bip39_05 = ''exotic''"
  by (simp_all add: bip39_05_def word_shape_def)

lemma shape_06: "ascending (bip39_06 @ [''hybrid''])" "list_all word_shape bip39_06"
    "length bip39_06 = 128" "bip39_06 \<noteq> []" "hd bip39_06 = ''gas''"
  by (simp_all add: bip39_06_def word_shape_def)

lemma shape_07: "ascending (bip39_07 @ [''length''])" "list_all word_shape bip39_07"
    "length bip39_07 = 128" "bip39_07 \<noteq> []" "hd bip39_07 = ''hybrid''"
  by (simp_all add: bip39_07_def word_shape_def)

lemma shape_08: "ascending (bip39_08 @ [''mosquito''])" "list_all word_shape bip39_08"
    "length bip39_08 = 128" "bip39_08 \<noteq> []" "hd bip39_08 = ''length''"
  by (simp_all add: bip39_08_def word_shape_def)

lemma shape_09: "ascending (bip39_09 @ [''parade''])" "list_all word_shape bip39_09"
    "length bip39_09 = 128" "bip39_09 \<noteq> []" "hd bip39_09 = ''mosquito''"
  by (simp_all add: bip39_09_def word_shape_def)

lemma shape_10: "ascending (bip39_10 @ [''quote''])" "list_all word_shape bip39_10"
    "length bip39_10 = 128" "bip39_10 \<noteq> []" "hd bip39_10 = ''parade''"
  by (simp_all add: bip39_10_def word_shape_def)

lemma shape_11: "ascending (bip39_11 @ [''scale''])" "list_all word_shape bip39_11"
    "length bip39_11 = 128" "bip39_11 \<noteq> []" "hd bip39_11 = ''quote''"
  by (simp_all add: bip39_11_def word_shape_def)

lemma shape_12: "ascending (bip39_12 @ [''source''])" "list_all word_shape bip39_12"
    "length bip39_12 = 128" "bip39_12 \<noteq> []" "hd bip39_12 = ''scale''"
  by (simp_all add: bip39_12_def word_shape_def)

lemma shape_13: "ascending (bip39_13 @ [''theme''])" "list_all word_shape bip39_13"
    "length bip39_13 = 128" "bip39_13 \<noteq> []" "hd bip39_13 = ''source''"
  by (simp_all add: bip39_13_def word_shape_def)

lemma shape_14: "ascending (bip39_14 @ [''useless''])" "list_all word_shape bip39_14"
    "length bip39_14 = 128" "bip39_14 \<noteq> []" "hd bip39_14 = ''theme''"
  by (simp_all add: bip39_14_def word_shape_def)

lemma shape_15: "ascending (bip39_15)" "list_all word_shape bip39_15"
    "length bip39_15 = 128" "bip39_15 \<noteq> []" "hd bip39_15 = ''useless''"
  by (simp_all add: bip39_15_def word_shape_def)

lemmas bip39_shapes = shape_00 shape_01 shape_02 shape_03 shape_04 shape_05 shape_06 shape_07
  shape_08 shape_09 shape_10 shape_11 shape_12 shape_13 shape_14 shape_15

lemmas bip39_ascending = shape_00(1) shape_01(1) shape_02(1) shape_03(1) shape_04(1) shape_05(1)
  shape_06(1) shape_07(1) shape_08(1) shape_09(1) shape_10(1) shape_11(1) shape_12(1) shape_13(1)
  shape_14(1) shape_15(1)

lemmas bip39_heads = shape_00(4-5) shape_01(4-5) shape_02(4-5) shape_03(4-5) shape_04(4-5)
  shape_05(4-5) shape_06(4-5) shape_07(4-5) shape_08(4-5) shape_09(4-5) shape_10(4-5) shape_11(4-5)
  shape_12(4-5) shape_13(4-5) shape_14(4-5) shape_15(4-5)

lemma ascending_join:
  "ascending (xs @ [y]) \<Longrightarrow> ascending ys \<Longrightarrow> ys \<noteq> [] \<Longrightarrow> hd ys = y \<Longrightarrow> ascending (xs @ ys)"
  by (induction xs rule: induct_list012) (cases ys; simp)+

lemma ascending_less: "ascending (x # xs) \<Longrightarrow> y \<in> set xs \<Longrightarrow> x < y"
  by (induction xs arbitrary: x) (auto dest: less_trans)

lemma ascending_distinct: "ascending xs \<Longrightarrow> distinct xs"
proof (induction xs)
  case (Cons x xs)
  then have "ascending xs" by (cases xs) auto
  with Cons show ?case by (auto dest: ascending_less)
qed simp

lemma BIP39_EN_length: "length BIP39_EN = 2048"
  by (simp add: BIP39_EN_def bip39_shapes)

lemma BIP39_EN_shape: "list_all word_shape BIP39_EN"
  by (simp add: BIP39_EN_def bip39_shapes)

lemma BIP39_EN_ascending: "ascending BIP39_EN"
  unfolding BIP39_EN_def
  by (rule bip39_ascending | rule ascending_join | simp add: bip39_heads)+

section \<open>From words to indices\<close>

text \<open>
  \<open>m.insert(*w, i as u16)\<close> for every word in order: a later insertion of the same word would win,
  which the order of the list excludes.
\<close>

definition word_index_map :: "string list \<Rightarrow> string \<rightharpoonup> u16" where
  "word_index_map ws = foldl (\<lambda>m (i, w). m(w \<mapsto> of_nat i)) Map.empty (enumerate 0 ws)"

definition word_index :: "string \<rightharpoonup> u16" where
  "word_index = word_index_map BIP39_EN"

lemma word_index_map_snoc:
  "word_index_map (ws @ [w]) = (word_index_map ws)(w \<mapsto> of_nat (length ws))"
  by (simp add: word_index_map_def enumerate_append_eq)

lemma word_index_map_dom: "dom (word_index_map ws) = set ws"
proof (induction ws rule: rev_induct)
  case Nil
  show ?case by (simp add: word_index_map_def)
next
  case (snoc w ws)
  then show ?case unfolding word_index_map_snoc dom_fun_upd by simp
qed

lemma word_index_map_nth:
  "distinct ws \<Longrightarrow> i < length ws \<Longrightarrow> word_index_map ws (ws ! i) = Some (of_nat i)"
proof (induction ws rule: rev_induct)
  case (snoc w ws)
  then show ?case
    by (cases "i = length ws") (auto simp: word_index_map_snoc nth_append)
qed simp

text \<open>
  The contract the encoders use: a list of 2048 different words, none of which holds a character that
  is not a lower case letter, and its lookup table.
\<close>

locale eleven_bit_words =
  fixes ws :: "string list"
    and index :: "string \<rightharpoonup> u16"
  assumes words_2048: "length ws = 2048"
    and words_shape: "w \<in> set ws \<Longrightarrow> word_shape w"
    and index_nth: "i < 2048 \<Longrightarrow> index (ws ! i) = Some (of_nat i)"
    and index_dom: "dom index = set ws"
begin

lemma nth_in: "i < 2048 \<Longrightarrow> ws ! i \<in> set ws"
  using words_2048 by simp

lemma index_None_iff: "index w = None \<longleftrightarrow> w \<notin> set ws"
  using index_dom by (auto simp: domIff)

lemma index_SomeD:
  assumes "index w = Some v"
  shows "unat v < 2048 \<and> ws ! unat v = w"
proof -
  from assms have "w \<in> set ws" using index_dom by (metis domI)
  then obtain i where i: "i < 2048" "w = ws ! i"
    using words_2048 by (metis in_set_conv_nth)
  with assms index_nth have "v = of_nat i" by simp
  with i show ?thesis by (simp add: unat_of_nat)
qed

lemma words_inj: "i < 2048 \<Longrightarrow> j < 2048 \<Longrightarrow> ws ! i = ws ! j \<Longrightarrow> i = j"
  using index_nth [of i] index_nth [of j]
  by (auto dest!: arg_cong [where f = unat] simp: unat_of_nat)

lemma letters: "i < 2048 \<Longrightarrow> c \<in> set (ws ! i) \<Longrightarrow> CHR ''a'' \<le> c \<and> c \<le> CHR ''z''"
  using words_shape [OF nth_in] by (auto simp: word_shape_def list_all_iff)

lemma nonempty: "i < 2048 \<Longrightarrow> ws ! i \<noteq> []"
  using words_shape [OF nth_in] by (auto simp: word_shape_def)

end

interpretation bip39: eleven_bit_words BIP39_EN word_index
proof
  fix w assume "w \<in> set BIP39_EN"
  then show "word_shape w" using BIP39_EN_shape by (simp add: list_all_iff)
next
  fix i :: nat assume "i < 2048"
  then show "word_index (BIP39_EN ! i) = Some (of_nat i)"
    unfolding word_index_def
    by (simp add: word_index_map_nth ascending_distinct BIP39_EN_ascending BIP39_EN_length)
qed (simp_all add: BIP39_EN_length word_index_def word_index_map_dom)

end
