(* ===== verification/Crates.thy ===== *)
theory Crates
  imports Prelude
begin

text \<open>
  The third-party crates. Their code is not in the repository, so every definition that calls one takes
  a value of type \<open>crates\<close>, whose fields are the calls the repository makes, and a property that
  relies on a crate names the documented behaviour it needs (the \<open>..._law\<close> predicates). The record
  \<^term>\<open>sample_crates\<close> is a concrete instance on which the laws hold; the witnesses use it.
\<close>

text \<open>\<open>struct Envelope\<close> of \<open>crypto/src/aead.rs\<close>, which serde turns to and from JSON.\<close>

record envelope =
  env_ciphertext :: string
  env_nonce :: string

record crates =
  b64_encode :: "bytes \<Rightarrow> string"
  b64_decode :: "string \<Rightarrow> bytes option"
  sha256_digest :: "bytes \<Rightarrow> bytes"
  ed_from_bytes_ok :: "bytes \<Rightarrow> bool"
  ed_verify_strict :: "bytes \<Rightarrow> bytes \<Rightarrow> bytes \<Rightarrow> bool"
  ed_verifying_key :: "bytes \<Rightarrow> bytes"
  x_public_key :: "bytes \<Rightarrow> bytes"
  x_diffie_hellman :: "bytes \<Rightarrow> bytes \<Rightarrow> bytes"
  hkdf_sha256_32 :: "bytes \<Rightarrow> bytes \<Rightarrow> bytes \<Rightarrow> bytes option"
  xchacha_encrypt :: "bytes \<Rightarrow> bytes \<Rightarrow> bytes \<Rightarrow> bytes option"
  xchacha_decrypt :: "bytes \<Rightarrow> bytes \<Rightarrow> bytes \<Rightarrow> bytes option"
  envelope_to_json :: "envelope \<Rightarrow> bytes option"
  envelope_from_json :: "bytes \<Rightarrow> envelope option"
  qr_encode :: "string \<Rightarrow> bytes option"
  png_render :: "bytes \<Rightarrow> bytes option"

section \<open>Documented behaviour\<close>

definition b64_law :: "crates \<Rightarrow> bool" where
  "b64_law C \<longleftrightarrow> (\<forall>bs. b64_decode C (b64_encode C bs) = Some bs)"

definition json_law :: "crates \<Rightarrow> bool" where
  "json_law C \<longleftrightarrow> (\<forall>e. \<exists>j. envelope_to_json C e = Some j \<and> envelope_from_json C j = Some e)"

text \<open>An authenticated cipher opens what it sealed under the same key and nonce.\<close>

definition aead_law :: "crates \<Rightarrow> bool" where
  "aead_law C \<longleftrightarrow> (\<forall>k n m c. xchacha_encrypt C k n m = Some c \<longrightarrow> xchacha_decrypt C k n c = Some m)"

text \<open>
  Sealing is deterministic, and the tag is over the whole ciphertext: what opens is what sealing its content under
  the same key and nonce makes.
\<close>

definition seal_law :: "crates \<Rightarrow> bool" where
  "seal_law C \<longleftrightarrow> (\<forall>k n m c. xchacha_decrypt C k n c = Some m \<longrightarrow> xchacha_encrypt C k n m = Some c)"

text \<open>Both ends of an X25519 exchange compute the same shared secret.\<close>

definition dh_law :: "crates \<Rightarrow> bool" where
  "dh_law C \<longleftrightarrow> (\<forall>a b. x_diffie_hellman C a (x_public_key C b) = x_diffie_hellman C b (x_public_key C a))"

lemma b64_encode_inj: "b64_law C \<Longrightarrow> b64_encode C x = b64_encode C y \<longleftrightarrow> x = y"
  by (metis b64_law_def option.inject)

section \<open>A concrete instance\<close>

definition sample_b64 :: "bytes \<Rightarrow> string" where
  "sample_b64 bs = map byte_char bs"

definition sample_b64_inv :: "string \<Rightarrow> bytes option" where
  "sample_b64_inv s = Some (map char_byte s)"

definition sample_json :: "envelope \<Rightarrow> bytes option" where
  "sample_json e = Some (concat (map (\<lambda>c. [0, char_byte c]) (env_ciphertext e)) @ [1] @
     map char_byte (env_nonce e))"

fun sample_unjson :: "string \<Rightarrow> bytes \<Rightarrow> envelope option" where
  "sample_unjson acc [] = None"
| "sample_unjson acc (t # bs) =
     (if t = 1 then Some \<lparr>env_ciphertext = acc, env_nonce = map byte_char bs\<rparr>
      else (case bs of [] \<Rightarrow> None | b # bs' \<Rightarrow> sample_unjson (acc @ [byte_char b]) bs'))"

definition sample_crates :: crates where
  "sample_crates = \<lparr>b64_encode = sample_b64, b64_decode = sample_b64_inv,
     sha256_digest = (\<lambda>bs. bs), ed_from_bytes_ok = (\<lambda>k. True),
     ed_verify_strict = (\<lambda>k m s. take 1 s = take 1 k \<and> drop 1 s = replicate 63 (of_nat (length m))),
     ed_verifying_key = (\<lambda>s. s), x_public_key = (\<lambda>s. s),
     x_diffie_hellman = (\<lambda>a b. map2 (+) a b), hkdf_sha256_32 = (\<lambda>s k i. Some (take 32 (k @ i))),
     xchacha_encrypt = (\<lambda>k n m. Some (m @ n)),
     xchacha_decrypt = (\<lambda>k n c. if drop (length c - length n) c = n
        then Some (take (length c - length n) c) else None),
     envelope_to_json = sample_json, envelope_from_json = sample_unjson [],
     qr_encode = (\<lambda>s. Some [0]), png_render = (\<lambda>b. Some [0])\<rparr>"

lemma sample_b64_ok [simp]: "b64_law sample_crates"
  by (simp add: b64_law_def sample_crates_def sample_b64_def sample_b64_inv_def)

lemma sample_unjson_json:
  "sample_unjson acc (concat (map (\<lambda>c. [0, char_byte c]) s) @ 1 # map char_byte ns) =
    Some \<lparr>env_ciphertext = acc @ s, env_nonce = ns\<rparr>"
  by (induction s arbitrary: acc) auto

lemma sample_json_ok [simp]: "json_law sample_crates"
  by (simp add: json_law_def sample_crates_def sample_json_def sample_unjson_json)

lemma sample_aead_ok [simp]: "aead_law sample_crates"
  by (simp add: aead_law_def sample_crates_def)

lemma sample_seal_ok [simp]: "seal_law sample_crates"
  by (auto simp: seal_law_def sample_crates_def split: if_splits) (metis append_take_drop_id)

lemma map2_add_commute: "map2 (+) a b = map2 (+) b (a :: bytes)"
  by (induction a b rule: list_induct2') (simp_all add: add.commute)

lemma sample_dh_ok [simp]: "dh_law sample_crates"
  by (simp add: dh_law_def sample_crates_def map2_add_commute)

end
