(* ===== verification/Identity.thy ===== *)
theory Identity
  imports Wordlist Crates
begin

text \<open>
  \<open>crypto/src/identity.rs\<close>: 32-byte seeds as 24-word recovery phrases, and the key pairs derived from a
  seed. The seed's 256 bits and eight zero bits are read as 24 numbers of eleven bits, most
  significant bit first. The loops over bit positions are the ones of the source; their meaning is
  stated with \<^term>\<open>bit_at\<close>, the bit at a position of a byte array.
\<close>

definition SEED_LEN :: nat where
  "SEED_LEN = 32"

definition SALT_MASTER :: bytes where
  "SALT_MASTER = byte_string ''littlelove.v0.2.master''"

definition SALT_SIGNING :: bytes where
  "SALT_SIGNING = byte_string ''littlelove.v0.2.signing''"

definition SALT_ENCRYPTION :: bytes where
  "SALT_ENCRYPTION = byte_string ''littlelove.v0.2.encryption''"

datatype identity_error = WrongWordCount_id nat | UnknownWord_id string | Hkdf

record identity =
  master :: bytes
  ed25519_signing :: bytes
  x25519_secret :: bytes

definition ed25519_pub :: "crates \<Rightarrow> identity \<Rightarrow> bytes" where
  "ed25519_pub C i = ed_verifying_key C (ed25519_signing i)"

definition x25519_pub :: "crates \<Rightarrow> identity \<Rightarrow> bytes" where
  "x25519_pub C i = x_public_key C (x25519_secret i)"

section \<open>Seed to phrase\<close>

definition source_bit :: "bytes \<Rightarrow> nat \<Rightarrow> u8" where
  "source_bit bits b = drop_bit (7 - b mod 8) (bits ! (b div 8)) AND 1"

definition phrase_index :: "bytes \<Rightarrow> nat \<Rightarrow> u16" where
  "phrase_index bits i =
    foldl (\<lambda>v b. push_bit 1 v OR ucast (source_bit bits b)) 0 [i * 11 ..< i * 11 + 11]"

definition seed_to_phrase :: "bytes \<Rightarrow> string" where
  "seed_to_phrase seed =
    (let bits = seed @ [0] in
     join_with CHR '' '' (map (\<lambda>i. BIP39_EN ! unat (phrase_index bits i)) [0 ..< 24]))"

section \<open>Phrase to seed\<close>

definition set_index_bit :: "nat \<Rightarrow> u16 \<Rightarrow> bytes \<Rightarrow> nat \<Rightarrow> bytes" where
  "set_index_bit i idx bits j =
    (let global = i * 11 + j; b = drop_bit (10 - j) idx AND 1 in
     bits[global div 8 := bits ! (global div 8) OR push_bit (7 - global mod 8) (ucast b)])"

definition set_index_bits :: "nat \<Rightarrow> u16 \<Rightarrow> bytes \<Rightarrow> bytes" where
  "set_index_bits i idx bits = foldl (set_index_bit i idx) bits [0 ..< 11]"

fun set_word_bits :: "nat \<Rightarrow> string list \<Rightarrow> bytes \<Rightarrow> identity_error + bytes" where
  "set_word_bits i [] bits = Inr bits"
| "set_word_bits i (w # ws) bits =
    (case word_index w of
       None \<Rightarrow> Inl (UnknownWord_id w)
     | Some idx \<Rightarrow> set_word_bits (Suc i) ws (set_index_bits i idx bits))"

definition phrase_to_seed :: "unicode \<Rightarrow> string \<Rightarrow> identity_error + bytes" where
  "phrase_to_seed U phrase =
    (let words = str_split_whitespace U phrase in
     if length words \<noteq> 24 then Inl (WrongWordCount_id (length words))
     else (case set_word_bits 0 words (replicate 33 0) of
             Inl e \<Rightarrow> Inl e
           | Inr bits \<Rightarrow> Inr (take 32 bits)))"

section \<open>Keys\<close>

definition hkdf_extract_expand :: "crates \<Rightarrow> bytes \<Rightarrow> bytes \<Rightarrow> bytes \<Rightarrow> identity_error + bytes" where
  "hkdf_extract_expand C salt ikm info =
    (case hkdf_sha256_32 C salt ikm info of None \<Rightarrow> Inl Hkdf | Some out \<Rightarrow> Inr out)"

definition derive_identity :: "crates \<Rightarrow> bytes \<Rightarrow> identity_error + identity" where
  "derive_identity C seed =
    (case hkdf_extract_expand C SALT_MASTER seed [] of
       Inl e \<Rightarrow> Inl e
     | Inr m \<Rightarrow>
         (case hkdf_extract_expand C SALT_SIGNING m [] of
            Inl e \<Rightarrow> Inl e
          | Inr signing_seed \<Rightarrow>
              (case hkdf_extract_expand C SALT_ENCRYPTION m [] of
                 Inl e \<Rightarrow> Inl e
               | Inr enc_seed \<Rightarrow>
                   Inr \<lparr>master = m, ed25519_signing = signing_seed, x25519_secret = enc_seed\<rparr>)))"

section \<open>Bits of byte arrays\<close>

definition bit_at :: "bytes \<Rightarrow> nat \<Rightarrow> bool" where
  "bit_at bits g = bit (bits ! (g div 8)) (7 - g mod 8)"

lemma drop_bit_and_1: "drop_bit n (w :: 'a::len word) AND 1 = of_bool (bit w n)"
  by (simp add: and_one_eq mod_2_eq_odd bit_iff_odd_drop_bit)

lemma source_bit_eq: "source_bit bits b = of_bool (bit_at bits b)"
  unfolding source_bit_def bit_at_def by (rule drop_bit_and_1)

lemma ucast_of_bool [simp]: "(ucast (of_bool b :: u8) :: u16) = of_bool b"
    "(ucast (of_bool b :: u16) :: u8) = of_bool b"
  by (cases b; simp)+

lemma bit_push1_or:
  "bit (push_bit 1 v OR of_bool c :: u16) k \<longleftrightarrow> k < 16 \<and> (case k of 0 \<Rightarrow> c | Suc m \<Rightarrow> bit v m)"
  by (cases k) (auto simp only: bit_or_iff bit_push_bit_iff bit_of_bool_iff nat.case
      possible_bit_word len_num0 len_num1 len_bit0 len_bit1 diff_Suc_Suc diff_zero One_nat_def
      dest: bit_imp_le_length)

lemma bit_shift_in:
  "bit (foldl (\<lambda>v b. push_bit 1 v OR of_bool (f b)) (0 :: u16) xs) k \<longleftrightarrow>
    k < 16 \<and> k < length xs \<and> f (rev xs ! k)"
proof (induction xs arbitrary: k rule: rev_induct)
  case (snoc x xs)
  show ?case
    unfolding foldl_append foldl.simps bit_push1_or snoc.IH by (cases k) auto
qed simp

lemma bit_phrase_index:
  "bit (phrase_index bits i) k \<longleftrightarrow> k < 11 \<and> bit_at bits (i * 11 + (10 - k))"
  unfolding phrase_index_def source_bit_eq ucast_of_bool bit_shift_in
  by (auto simp: rev_nth)

lemma phrase_index_bound: "unat (phrase_index bits i) < 2048"
proof -
  have "take_bit 11 (phrase_index bits i) = phrase_index bits i"
    by (rule bit_word_eqI) (auto simp: bit_simps bit_phrase_index)
  then have "take_bit 11 (unat (phrase_index bits i)) = unat (phrase_index bits i)"
    by (metis unsigned_take_bit_eq)
  then show ?thesis by (simp add: take_bit_nat_eq_self_iff)
qed

lemma bit_at_set:
  assumes "g < 8 * length bits" "h < 8 * length bits"
  shows "bit_at (bits[g div 8 := bits ! (g div 8) OR push_bit (7 - g mod 8) (of_bool b)]) h \<longleftrightarrow>
    bit_at bits h \<or> h = g \<and> b"
proof -
  have "h div 8 = g div 8 \<and> h mod 8 = g mod 8 \<longleftrightarrow> h = g"
    by (metis div_mult_mod_eq)
  moreover have "g div 8 < length bits" "g mod 8 < 8" "h mod 8 < 8" using assms by auto
  ultimately show ?thesis
    by (auto simp: bit_at_def nth_list_update bit_simps; arith)
qed

text \<open>After the loop over one word, exactly that word's bits have been added at its place.\<close>

lemma set_index_bit_length [simp]: "length (set_index_bit i idx bits j) = length bits"
  by (simp add: set_index_bit_def Let_def)

lemma set_index_bits_upto:
  assumes "n \<le> 11" "i * 11 + 11 \<le> 8 * length bits"
  shows "length (foldl (set_index_bit i idx) bits [0 ..< n]) = length bits \<and>
    (\<forall>h < 8 * length bits. bit_at (foldl (set_index_bit i idx) bits [0 ..< n]) h \<longleftrightarrow>
       bit_at bits h \<or> (\<exists>j < n. h = i * 11 + j \<and> bit idx (10 - j)))"
  using assms(1)
proof (induction n)
  case (Suc n)
  let ?r = "foldl (set_index_bit i idx) bits [0 ..< n]"
  from Suc have IH: "length ?r = length bits"
    "\<forall>h < 8 * length bits. bit_at ?r h \<longleftrightarrow>
       bit_at bits h \<or> (\<exists>j < n. h = i * 11 + j \<and> bit idx (10 - j))" by simp_all
  have "i * 11 + n < 8 * length ?r" using assms(2) Suc.prems IH(1) by simp
  then have "bit_at (set_index_bit i idx ?r n) h \<longleftrightarrow> bit_at ?r h \<or> h = i * 11 + n \<and> bit idx (10 - n)"
    if "h < 8 * length bits" for h
    using that IH(1) by (simp add: set_index_bit_def Let_def drop_bit_and_1 bit_at_set)
  then show ?case
    using IH by (auto simp: less_Suc_eq)
qed simp

lemma set_index_bits_length [simp]: "length (set_index_bits i idx bits) = length bits"
proof -
  have "length (foldl (set_index_bit i idx) bits xs) = length bits" for xs
    by (induction xs arbitrary: bits) simp_all
  then show ?thesis by (simp only: set_index_bits_def)
qed

lemma bit_at_set_index_bits:
  assumes "i * 11 + 11 \<le> 8 * length bits" "h < 8 * length bits"
  shows "bit_at (set_index_bits i idx bits) h \<longleftrightarrow>
    bit_at bits h \<or> h div 11 = i \<and> bit idx (10 - h mod 11)"
proof -
  have "(\<exists>j < 11. h = i * 11 + j \<and> bit idx (10 - j)) \<longleftrightarrow> h div 11 = i \<and> bit idx (10 - h mod 11)"
    by (auto intro!: exI [of _ "h mod 11"])
  with set_index_bits_upto [of 11 i bits idx] assms show ?thesis
    by (simp add: set_index_bits_def)
qed

lemma set_word_bits_Inr:
  assumes "i * 11 + length ws * 11 \<le> 8 * length bits"
    and "set_word_bits i ws bits = Inr r"
  shows "length r = length bits \<and> set ws \<subseteq> set BIP39_EN \<and>
    (\<forall>h < 8 * length bits. bit_at r h \<longleftrightarrow> bit_at bits h \<or>
       i \<le> h div 11 \<and> h div 11 < i + length ws \<and>
       bit (the (word_index (ws ! (h div 11 - i)))) (10 - h mod 11))"
  using assms
proof (induction i ws bits rule: set_word_bits.induct)
  case (2 i w ws bits)
  from "2.prems"(2) obtain idx where idx: "word_index w = Some idx"
    and rest: "set_word_bits (Suc i) ws (set_index_bits i idx bits) = Inr r"
    by (auto split: option.splits)
  have IH: "length r = length bits" "set ws \<subseteq> set BIP39_EN"
    "\<forall>h < 8 * length bits. bit_at r h \<longleftrightarrow> bit_at (set_index_bits i idx bits) h \<or>
       Suc i \<le> h div 11 \<and> h div 11 < Suc i + length ws \<and>
       bit (the (word_index (ws ! (h div 11 - Suc i)))) (10 - h mod 11)"
    using "2.IH" [OF idx _ rest] "2.prems"(1) by simp_all
  have "w \<in> set BIP39_EN" using idx bip39.index_None_iff [of w] by auto
  moreover have "bit_at r h \<longleftrightarrow> bit_at bits h \<or>
       i \<le> h div 11 \<and> h div 11 < i + length (w # ws) \<and>
       bit (the (word_index ((w # ws) ! (h div 11 - i)))) (10 - h mod 11)"
    if "h < 8 * length bits" for h
    using IH(3) that "2.prems"(1) idx
    by (cases "h div 11 = i") (auto simp: bit_at_set_index_bits nth_Cons' Suc_le_eq)
  ultimately show ?case using IH by simp
qed auto

lemma set_word_bits_eq:
  "set_word_bits i ws bits = (case find_first (\<lambda>w. w \<notin> set BIP39_EN) ws of
     Some w \<Rightarrow> Inl (UnknownWord_id w)
   | None \<Rightarrow> Inr (snd (foldl (\<lambda>(i, bs) w. (Suc i, set_index_bits i (the (word_index w)) bs)) (i, bits) ws)))"
  by (induction i ws bits rule: set_word_bits.induct)
     (auto simp: bip39.index_None_iff [symmetric] split: option.splits)

lemma bytes_eqI:
  assumes "length x = length (y :: bytes)" "\<And>g. g < 8 * length x \<Longrightarrow> bit_at x g = bit_at y g"
  shows "x = y"
proof (rule nth_equalityI [OF assms(1)])
  fix k assume k: "k < length x"
  show "x ! k = y ! k"
  proof (rule bit_word_eqI)
    fix n assume "n < LENGTH(8)"
    with k assms(2) [of "8 * k + (7 - n)"] show "bit (x ! k) n = bit (y ! k) n"
      by (simp add: bit_at_def)
  qed
qed

lemma bit_at_take: "g < 8 * n \<Longrightarrow> bit_at (take n bits) g = bit_at bits g"
  by (simp add: bit_at_def less_mult_imp_div_less mult.commute)

lemma bit_at_zeros: "g < 8 * n \<Longrightarrow> \<not> bit_at (replicate n 0) g"
  by (simp add: bit_at_def less_mult_imp_div_less mult.commute)

lemma phrase_words:
  assumes "unicode_ascii U" "\<forall>i \<in> set is. i < 2048"
  shows "str_split_whitespace U (join_with CHR '' '' (map (\<lambda>i. BIP39_EN ! i) is)) =
    map (\<lambda>i. BIP39_EN ! i) is"
proof -
  have clean: "\<not> ascii_space c \<and> (of_char c :: nat) < 128" if "i < 2048" "c \<in> set (BIP39_EN ! i)" for i c
    using bip39.letters [OF that] by (auto simp: less_eq_char_def ascii_space_def)
  have "(of_char c :: nat) < 128" if "c \<in> set (join_with CHR '' '' (map (\<lambda>i. BIP39_EN ! i) is))" for c
  proof -
    from that consider "c = CHR '' ''" | i where "i \<in> set is" "c \<in> set (BIP39_EN ! i)"
      using set_join_with [of "CHR '' ''" "map (\<lambda>i. BIP39_EN ! i) is"] by auto
    then show ?thesis using clean assms(2) by cases auto
  qed
  then have "is_ascii (join_with CHR '' '' (map (\<lambda>i. BIP39_EN ! i) is))"
    by (simp add: is_ascii_def list_all_iff)
  with assms(1) have "str_split_whitespace U (join_with CHR '' '' (map (\<lambda>i. BIP39_EN ! i) is)) =
      split_ascii_space [] (join_with CHR '' '' (map (\<lambda>i. BIP39_EN ! i) is))"
    by (simp add: unicode_ascii_def)
  also have "\<dots> = map (\<lambda>i. BIP39_EN ! i) is"
    using assms(2) clean bip39.nonempty by (intro split_ascii_space_join) auto
  finally show ?thesis .
qed

lemma unknown_word_None: "\<forall>i \<in> set is. i < 2048 \<Longrightarrow>
    find_first (\<lambda>w. w \<notin> set BIP39_EN) (map (\<lambda>i. BIP39_EN ! i) is) = None"
  by (auto simp: find_first_None_iff intro: bip39.nth_in)

text \<open>Bit \<open>g\<close> of the seed is bit \<open>10 - g mod 11\<close> of word number \<open>g div 11\<close>.\<close>

lemma phrase_to_seed_bits:
  assumes "unicode_ascii U" "length is = 24" "\<forall>i \<in> set is. i < 2048"
  shows "\<exists>seed. phrase_to_seed U (join_with CHR '' '' (map (\<lambda>i. BIP39_EN ! i) is)) = Inr seed \<and>
    length seed = 32 \<and> (\<forall>g < 256. bit_at seed g \<longleftrightarrow> bit (is ! (g div 11)) (10 - g mod 11))"
proof -
  let ?ws = "map (\<lambda>i. BIP39_EN ! i) is"
  obtain r where r: "set_word_bits 0 ?ws (replicate 33 0) = Inr r"
    by (simp add: set_word_bits_eq unknown_word_None [OF assms(3)])
  have len: "length r = 33" and bits: "\<forall>h < 264. bit_at r h \<longleftrightarrow>
      h div 11 < 24 \<and> bit (the (word_index (?ws ! (h div 11)))) (10 - h mod 11)"
    using set_word_bits_Inr [OF _ r] assms(2) bit_at_zeros [of _ 33] by auto
  have "bit_at (take 32 r) g \<longleftrightarrow> bit (is ! (g div 11)) (10 - g mod 11)" if "g < 256" for g
  proof -
    have "g div 11 < 24" using that by auto
    with assms(2,3) have i: "is ! (g div 11) < 2048" "?ws ! (g div 11) = BIP39_EN ! (is ! (g div 11))"
      by simp_all
    moreover have "10 - g mod 11 < 16" by simp
    ultimately show ?thesis
      using bits that \<open>g div 11 < 24\<close> by (simp add: bit_at_take bip39.index_nth bit_of_nat_iff)
  qed
  with r len assms phrase_words [OF assms(1,3)] show ?thesis
    by (simp add: phrase_to_seed_def)
qed

section \<open>Properties\<close>

text \<open>
  C34. Recovery phrases lose nothing: for every 32-byte seed, the 24 words it is written as are read back
  as the same seed.
\<close>

theorem seed_phrase_roundtrip:
  assumes "unicode_ascii U" and "length seed = SEED_LEN"
  shows "phrase_to_seed U (seed_to_phrase seed) = Inr seed"
proof -
  let ?is = "map (\<lambda>i. unat (phrase_index (seed @ [0]) i)) [0 ..< 24]"
  have eq: "seed_to_phrase seed = join_with CHR '' '' (map (\<lambda>i. BIP39_EN ! i) ?is)"
    by (simp add: seed_to_phrase_def comp_def)
  obtain r where r: "phrase_to_seed U (seed_to_phrase seed) = Inr r" and len: "length r = 32"
    and bits: "\<forall>g < 256. bit_at r g \<longleftrightarrow> bit (?is ! (g div 11)) (10 - g mod 11)"
    unfolding eq using phrase_to_seed_bits [OF assms(1), of ?is] by (auto simp: phrase_index_bound)
  have "bit_at r g = bit_at seed g" if "g < 256" for g
  proof -
    have "g div 11 < 24" "10 - (10 - g mod 11) = g mod 11" "10 - g mod 11 < 11"
      using that by auto
    with bits that have "bit_at r g = bit_at (seed @ [0]) (g div 11 * 11 + g mod 11)"
      by (simp add: bit_unsigned_iff bit_phrase_index del: div_mult_mod_eq)
    also have "\<dots> = bit_at seed g"
      using that assms(2) less_mult_imp_div_less [of g 32 8]
      by (simp add: bit_at_def nth_append SEED_LEN_def)
    finally show ?thesis .
  qed
  with len assms(2) have "r = seed" by (intro bytes_eqI) (simp_all add: SEED_LEN_def)
  with r show ?thesis by simp
qed

theorem seed_phrase_roundtrip_witness:
  "phrase_to_seed ascii_only (seed_to_phrase (replicate 32 0)) = Inr (replicate 32 0)"
proof (rule seed_phrase_roundtrip)
  show "length (replicate 32 (0 :: u8)) = SEED_LEN"
    unfolding SEED_LEN_def by (rule length_replicate)
qed simp

text \<open>
  A phrase is rejected exactly when it does not have 24 words, or else for its first word outside the
  list; every other phrase gives a 32-byte seed.
\<close>

theorem phrase_to_seed_errors:
  "case phrase_to_seed U phrase of
     Inl (WrongWordCount_id n) \<Rightarrow> n = length (str_split_whitespace U phrase) \<and> n \<noteq> 24
   | Inl (UnknownWord_id w) \<Rightarrow> length (str_split_whitespace U phrase) = 24 \<and>
       find_first (\<lambda>w. w \<notin> set BIP39_EN) (str_split_whitespace U phrase) = Some w
   | Inl Hkdf \<Rightarrow> False
   | Inr seed \<Rightarrow> length (str_split_whitespace U phrase) = 24 \<and>
       set (str_split_whitespace U phrase) \<subseteq> set BIP39_EN \<and> length seed = 32"
proof (cases "phrase_to_seed U phrase")
  case (Inl e)
  then show ?thesis
    by (auto simp: phrase_to_seed_def set_word_bits_eq Let_def split: if_splits option.splits)
next
  case (Inr seed)
  then obtain r where "length (str_split_whitespace U phrase) = 24" "seed = take 32 r"
    "set_word_bits 0 (str_split_whitespace U phrase) (replicate 33 0) = Inr r"
    by (auto simp: phrase_to_seed_def Let_def split: if_splits sum.splits)
  with set_word_bits_Inr [OF _ this(3)] Inr show ?thesis by simp
qed

text \<open>
  The eight padding bits are not checked: two phrases of known words that differ only in the low eight
  bits of the last word give the same seed, so a mistyped last word can be accepted silently.
\<close>

theorem phrase_padding_ignored:
  assumes "unicode_ascii U" "length is = 24" "\<forall>i \<in> set is. i < 2048"
    and "j < 2048" "j div 256 = is ! 23 div 256"
  shows "phrase_to_seed U (join_with CHR '' '' (map (\<lambda>i. BIP39_EN ! i) (is[23 := j]))) =
    phrase_to_seed U (join_with CHR '' '' (map (\<lambda>i. BIP39_EN ! i) is))"
proof -
  have high: "bit j k = bit (is ! 23) k" if "8 \<le> k" for k
  proof -
    from assms(5) have "drop_bit 8 j = drop_bit 8 (is ! 23)" by (simp add: drop_bit_eq_div)
    then have "bit (drop_bit 8 j) (k - 8) = bit (drop_bit 8 (is ! 23)) (k - 8)" by simp
    with that show ?thesis by (simp add: bit_drop_bit_eq)
  qed
  obtain r where r: "phrase_to_seed U (join_with CHR '' '' (map (\<lambda>i. BIP39_EN ! i) is)) = Inr r"
    "length r = 32" "\<forall>g < 256. bit_at r g \<longleftrightarrow> bit (is ! (g div 11)) (10 - g mod 11)"
    using phrase_to_seed_bits [OF assms(1-3)] by blast
  have "\<forall>i \<in> set (is[23 := j]). i < 2048"
    using assms(3,4) set_update_subset_insert [of "is" 23 j] by auto
  then obtain s where s: "phrase_to_seed U (join_with CHR '' '' (map (\<lambda>i. BIP39_EN ! i) (is[23 := j]))) = Inr s"
    "length s = 32" "\<forall>g < 256. bit_at s g \<longleftrightarrow> bit (is[23 := j] ! (g div 11)) (10 - g mod 11)"
    using phrase_to_seed_bits [OF assms(1), of "is[23 := j]"] assms(2) by auto
  have "bit_at s g = bit_at r g" if "g < 256" for g
  proof (cases "g div 11 = 23")
    case True
    have "8 \<le> 10 - g mod 11" using True that by presburger
    then have "bit j (10 - g mod 11) = bit (is ! 23) (10 - g mod 11)" by (rule high)
    with True that r(3) s(3) assms(2) show ?thesis by simp
  next
    case False
    with that r(3) s(3) show ?thesis by simp
  qed
  with r(2) s(2) have "s = r" by (intro bytes_eqI) simp_all
  with r(1) s(1) show ?thesis by simp
qed

theorem phrase_padding_ignored_witness:
  "phrase_to_seed ascii_only (join_with CHR '' '' (map (\<lambda>i. BIP39_EN ! i) ((replicate 24 0)[23 := 1]))) =
   phrase_to_seed ascii_only (join_with CHR '' '' (map (\<lambda>i. BIP39_EN ! i) (replicate 24 0)))"
proof (rule phrase_padding_ignored [OF unicode_ascii_ascii_only])
  show "length (replicate 24 (0 :: nat)) = 24" by (rule length_replicate)
qed simp_all

text \<open>
  Identities are a function of the seed: a successful derivation has the master, signing and encryption
  keys of three separately salted HKDF calls, the last two over the master, and it fails only when
  HKDF does.
\<close>

theorem derive_identity_exact:
  "derive_identity C seed = Inr i \<longleftrightarrow>
     hkdf_sha256_32 C SALT_MASTER seed [] = Some (master i) \<and>
     hkdf_sha256_32 C SALT_SIGNING (master i) [] = Some (ed25519_signing i) \<and>
     hkdf_sha256_32 C SALT_ENCRYPTION (master i) [] = Some (x25519_secret i) \<and>
     distinct [SALT_MASTER, SALT_SIGNING, SALT_ENCRYPTION]"
proof -
  have "distinct [SALT_MASTER, SALT_SIGNING, SALT_ENCRYPTION]"
    by (simp add: SALT_MASTER_def SALT_SIGNING_def SALT_ENCRYPTION_def byte_string_def char_byte_def)
  then show ?thesis
    by (cases i) (auto simp: derive_identity_def hkdf_extract_expand_def split: option.splits)
qed

end
