(* ===== verification/Wire.thy ===== *)
theory Wire
  imports Prelude
begin

text \<open>
  \<open>server/src/wire.rs\<close>: the frames of the WebSocket protocol. A struct-like variant has its fields as the
  arguments of its constructor, in the order of the source; client variants whose name is also that of
  a server variant carry the suffix \<open>_req\<close>. A \<open>HashMap\<close> of the wire is an association list with one
  entry per key (\<open>bodies_ok\<close>). \<open>serde_json::Value\<close> is the type \<open>json\<close>, a number kept as its text.
\<close>

type_synonym uuid = "128 word"
type_synonym bodies = "(string \<times> string) list"

definition bodies_ok :: "bodies \<Rightarrow> bool" where
  "bodies_ok bs \<longleftrightarrow> distinct (map fst bs)"

datatype json =
    JNull
  | JBool bool
  | JNumber string
  | JString string
  | JArray "json list"
  | JObject "(string \<times> json) list"

record wire_member =
  wm_account_id :: account_id
  wm_username :: string
  wm_ed25519_pub :: string
  wm_x25519_pub :: string

record wire_room_detail =
  wr_room_id :: string
  wr_name :: string
  wr_members :: "wire_member list"
  wr_created_at :: timestamp

record pending_invite =
  pi_code :: string
  pi_qr_png_base64 :: string
  pi_expires_at :: timestamp

record identify_payload =
  id_username :: string
  id_signature :: string

datatype auth_client_frame = Identify identify_payload

datatype auth_server_frame =
    Challenge string
  | Authenticated
  | AuthError string string

datatype room_client_frame =
    CreateInvite
  | ConsumeInvite string string
  | Subscribe string "string option"
  | Send string bodies uuid
  | RequestUpload uuid string int
  | RequestDownload string
  | CreateRoom "string option" bool
  | RenameRoom string string
  | LeaveRoom string
  | MarkRead string string
  | RegisterPush string string string string
  | UnregisterPush string
  | Typing_req string bool
  | CallTurnRequest string
  | CallInvite_req string string string bool
  | CallAnswer_req string string string
  | CallIce_req string string string
  | CallHangup_req string string string
  | PublishProfile string "string option"

datatype room_server_frame =
    Rooms "wire_room_detail list"
  | InviteCreated string string timestamp
  | InviteConsumed string string "wire_member list"
  | RoomCreated string string "wire_member list" "pending_invite option"
  | RoomRenamed string string
  | MemberLeft string string
  | Message string string string timestamp string bool bool "uuid option"
  | Read string "string list" string
  | ReadMarker string timestamp
  | Typing string string bool
  | Presence string bool "timestamp option"
  | Profile string string "string option"
  | UploadGranted uuid string string timestamp
  | DownloadGranted string string timestamp
  | CallTurnGrant string json
  | CallInvite string string string string bool
  | CallAnswer string string string
  | CallIce string string string
  | CallHangup string string string
  | Error string string

section \<open>\<open>error_codes\<close>\<close>

definition ALREADY_PAIRED :: string where "ALREADY_PAIRED = ''AlreadyPaired''"
definition INVITE_NOT_FOUND :: string where "INVITE_NOT_FOUND = ''InviteNotFound''"
definition INVITE_EXPIRED :: string where "INVITE_EXPIRED = ''InviteExpired''"
definition INVITE_CONSUMED :: string where "INVITE_CONSUMED = ''InviteConsumed''"
definition INVALID_SIGNATURE :: string where "INVALID_SIGNATURE = ''InvalidSignature''"
definition UNKNOWN_ROOM :: string where "UNKNOWN_ROOM = ''UnknownRoom''"
definition BAD_CODE :: string where "BAD_CODE = ''BadCode''"
definition FAN_OUT_MISMATCH :: string where "FAN_OUT_MISMATCH = ''FanOutMismatch''"
definition MONOGAMY_VIOLATION :: string where "MONOGAMY_VIOLATION = ''MonogamyViolation''"
definition BODY_TOO_LARGE :: string where "BODY_TOO_LARGE = ''BodyTooLarge''"
definition BLOB_TOO_LARGE :: string where "BLOB_TOO_LARGE = ''BlobTooLarge''"
definition UNKNOWN_BLOB :: string where "UNKNOWN_BLOB = ''UnknownBlob''"
definition R2_UNAVAILABLE :: string where "R2_UNAVAILABLE = ''R2Unavailable''"
definition RATE_LIMITED :: string where "RATE_LIMITED = ''RateLimited''"

lemmas error_codes = ALREADY_PAIRED_def INVITE_NOT_FOUND_def INVITE_EXPIRED_def INVITE_CONSUMED_def
  INVALID_SIGNATURE_def UNKNOWN_ROOM_def BAD_CODE_def FAN_OUT_MISMATCH_def MONOGAMY_VIOLATION_def
  BODY_TOO_LARGE_def BLOB_TOO_LARGE_def UNKNOWN_BLOB_def R2_UNAVAILABLE_def RATE_LIMITED_def

lemma map_of_bodies: "bodies_ok bs \<Longrightarrow> map_of bs k = Some v \<longleftrightarrow> (k, v) \<in> set bs"
  by (simp add: bodies_ok_def)

end
