(* ===== verification/Frames.thy ===== *)
theory Frames
  imports Wire "HOL-Library.Monad_Syntax"
begin

text \<open>
  How the frames of \<open>wire.rs\<close> are written as JSON and read back: the attributes of the source
  (\<open>tag = "kind"\<close>, \<open>default\<close>, \<open>skip_serializing_if\<close>) spelled out as \<open>serde\<close> documents them. A value is a tree
  of JSON, an object the list of its entries as they stand in the text. The text of a time and of a UUID
  is a parameter (\<open>chrono\<close>, \<open>uuid\<close>).
\<close>

record codecs =
  show_time :: "timestamp \<Rightarrow> string"
  read_time :: "string \<Rightarrow> timestamp option"
  show_uuid :: "uuid \<Rightarrow> string"
  read_uuid :: "string \<Rightarrow> uuid option"

text \<open>What is written can be read.\<close>

definition codec_law :: "codecs \<Rightarrow> bool" where
  "codec_law K \<longleftrightarrow> (\<forall>t. read_time K (show_time K t) = Some t) \<and> (\<forall>u. read_uuid K (show_uuid K u) = Some u)"

section \<open>Numbers\<close>

definition digit_char :: "nat \<Rightarrow> char" where
  "digit_char n = char_of (48 + n)"

fun show_nat :: "nat \<Rightarrow> string" where
  "show_nat n = (if n < 10 then [digit_char n] else show_nat (n div 10) @ [digit_char (n mod 10)])"

declare show_nat.simps [simp del]

definition show_int :: "int \<Rightarrow> string" where
  "show_int z = (if z < 0 then CHR ''-'' # show_nat (nat (- z)) else show_nat (nat z))"

text \<open>
  An integer of JSON as an \<open>i64\<close>. A number with a fraction or an exponent is not an integer, nor is \<open>-0\<close>, which
  \<open>serde_json\<close> takes for a float.
\<close>

definition read_i64 :: "string \<Rightarrow> int option" where
  "read_i64 s = (case s of
       [] \<Rightarrow> None
     | c # cs \<Rightarrow>
        (if c = CHR ''-''
         then (case digits_value 0 cs of None \<Rightarrow> None
           | Some n \<Rightarrow> if cs = [] \<or> n = 0 \<or> n > 2 ^ 63 then None else Some (- int n))
         else (case digits_value 0 s of None \<Rightarrow> None
           | Some n \<Rightarrow> if n \<ge> 2 ^ 63 then None else Some (int n))))"

definition is_i64 :: "int \<Rightarrow> bool" where
  "is_i64 z \<longleftrightarrow> - (2 ^ 63) \<le> z \<and> z < 2 ^ 63"

lemma of_char_digit: "n < 10 \<Longrightarrow> (of_char (digit_char n) :: nat) = 48 + n"
  by (simp add: digit_char_def)

lemma digits_value_append:
  "digits_value k (xs @ ys) = Option.bind (digits_value k xs) (\<lambda>m. digits_value m ys)"
  by (induction xs arbitrary: k) simp_all

lemma digits_value_show_nat: "digits_value 0 (show_nat n) = Some n"
proof (induction n rule: show_nat.induct)
  case (1 n)
  show ?case
  proof (cases "n < 10")
    case True
    then show ?thesis by (simp add: show_nat.simps [of n] of_char_digit)
  next
    case False
    then show ?thesis
      using 1 by (simp add: show_nat.simps [of n] digits_value_append of_char_digit)
  qed
qed

lemma show_nat_head: "\<exists>c cs. show_nat n = c # cs \<and> 48 \<le> (of_char c :: nat)"
proof (induction n rule: show_nat.induct)
  case (1 n)
  show ?case
    using 1 by (cases "n < 10") (auto simp: show_nat.simps [of n] of_char_digit)
qed

lemma read_i64_show_int: "is_i64 z \<Longrightarrow> read_i64 (show_int z) = Some z"
proof -
  assume z: "is_i64 z"
  obtain c cs where neg: "show_nat (nat (- z)) = c # cs" using show_nat_head by blast
  obtain d ds where pos: "show_nat (nat z) = d # ds" "48 \<le> (of_char d :: nat)" using show_nat_head by blast
  have "d \<noteq> CHR ''-''" using pos(2) by auto
  moreover have "digits_value 0 (d # ds) = Some (nat z)" "digits_value 0 (c # cs) = Some (nat (- z))"
    using digits_value_show_nat by (simp_all only: flip: pos neg)
  ultimately show ?thesis
    using z neg pos by (auto simp: read_i64_def show_int_def is_i64_def simp del: digits_value.simps)
qed

section \<open>Fields\<close>

type_synonym fields = "(string \<times> json) list"

text \<open>The values under a key; the derived readers refuse a known field that comes twice and ignore unknown ones.\<close>

definition values_at :: "string \<Rightarrow> fields \<Rightarrow> json list" where
  "values_at k kvs = map snd (filter (\<lambda>kv. fst kv = k) kvs)"

definition required :: "(json \<Rightarrow> 'a option) \<Rightarrow> string \<Rightarrow> fields \<Rightarrow> 'a option" where
  "required rd k kvs = (case values_at k kvs of [v] \<Rightarrow> rd v | _ \<Rightarrow> None)"

text \<open>An \<open>Option\<close> may be absent or null; a field with \<open>serde(default)\<close> may be absent.\<close>

definition optional :: "(json \<Rightarrow> 'a option) \<Rightarrow> string \<Rightarrow> fields \<Rightarrow> 'a option option" where
  "optional rd k kvs = (case values_at k kvs of
       [] \<Rightarrow> Some None
     | [JNull] \<Rightarrow> Some None
     | [v] \<Rightarrow> map_option Some (rd v)
     | _ \<Rightarrow> None)"

definition defaulted :: "'a \<Rightarrow> (json \<Rightarrow> 'a option) \<Rightarrow> string \<Rightarrow> fields \<Rightarrow> 'a option" where
  "defaulted dflt rd k kvs = (case values_at k kvs of [] \<Rightarrow> Some dflt | [v] \<Rightarrow> rd v | _ \<Rightarrow> None)"

definition rd_str :: "json \<Rightarrow> string option" where
  "rd_str v = (case v of JString s \<Rightarrow> Some s | _ \<Rightarrow> None)"

definition rd_bool :: "json \<Rightarrow> bool option" where
  "rd_bool v = (case v of JBool b \<Rightarrow> Some b | _ \<Rightarrow> None)"

definition rd_i64 :: "json \<Rightarrow> int option" where
  "rd_i64 v = (case v of JNumber s \<Rightarrow> read_i64 s | _ \<Rightarrow> None)"

definition rd_time :: "codecs \<Rightarrow> json \<Rightarrow> timestamp option" where
  "rd_time K v = Option.bind (rd_str v) (read_time K)"

definition rd_uuid :: "codecs \<Rightarrow> json \<Rightarrow> uuid option" where
  "rd_uuid K v = Option.bind (rd_str v) (read_uuid K)"

fun rd_list :: "(json \<Rightarrow> 'a option) \<Rightarrow> json list \<Rightarrow> 'a list option" where
  "rd_list rd [] = Some []"
| "rd_list rd (v # vs) = do { x \<leftarrow> rd v; xs \<leftarrow> rd_list rd vs; Some (x # xs) }"

definition rd_vec :: "(json \<Rightarrow> 'a option) \<Rightarrow> json \<Rightarrow> 'a list option" where
  "rd_vec rd v = (case v of JArray vs \<Rightarrow> rd_list rd vs | _ \<Rightarrow> None)"

text \<open>A struct is read from an object. \<open>serde\<close> would take the positional array as well, which nobody writes.\<close>

definition rd_struct :: "(fields \<Rightarrow> 'a option) \<Rightarrow> json \<Rightarrow> 'a option" where
  "rd_struct rd v = (case v of JObject kvs \<Rightarrow> rd kvs | _ \<Rightarrow> None)"

text \<open>A \<open>HashMap<String, String>\<close>: of two entries with the same key the later one stays.\<close>

fun put_entry :: "string \<Rightarrow> string \<Rightarrow> bodies \<Rightarrow> bodies" where
  "put_entry k v [] = [(k, v)]"
| "put_entry k v (kv # kvs) = (if fst kv = k then (k, v) # kvs else kv # put_entry k v kvs)"

fun rd_entries :: "fields \<Rightarrow> bodies \<Rightarrow> bodies option" where
  "rd_entries [] m = Some m"
| "rd_entries (kv # kvs) m = do { v \<leftarrow> rd_str (snd kv); rd_entries kvs (put_entry (fst kv) v m) }"

definition rd_bodies :: "json \<Rightarrow> bodies option" where
  "rd_bodies v = (case v of JObject kvs \<Rightarrow> rd_entries kvs [] | _ \<Rightarrow> None)"

text \<open>The tag of an enum: exactly one \<open>kind\<close>, which is a string; the other entries are the fields of the variant.\<close>

definition tagged :: "fields \<Rightarrow> (string \<times> fields) option" where
  "tagged kvs = do { kind \<leftarrow> required rd_str ''kind'' kvs; Some (kind, filter (\<lambda>kv. fst kv \<noteq> ''kind'') kvs) }"

definition variant :: "string \<Rightarrow> fields \<Rightarrow> json" where
  "variant kind kvs = JObject ((''kind'', JString kind) # kvs)"

text \<open>What a field is written as; \<open>skip_serializing_if\<close> leaves it out.\<close>

definition or_null :: "('a \<Rightarrow> json) \<Rightarrow> 'a option \<Rightarrow> json" where
  "or_null wr o' = (case o' of None \<Rightarrow> JNull | Some x \<Rightarrow> wr x)"

definition unless_none :: "string \<Rightarrow> ('a \<Rightarrow> json) \<Rightarrow> 'a option \<Rightarrow> fields" where
  "unless_none k wr o' = (case o' of None \<Rightarrow> [] | Some x \<Rightarrow> [(k, wr x)])"

definition unless_false :: "string \<Rightarrow> bool \<Rightarrow> fields" where
  "unless_false k b = (if b then [(k, JBool b)] else [])"

definition unless_empty :: "string \<Rightarrow> string \<Rightarrow> fields" where
  "unless_empty k s = (if s = [] then [] else [(k, JString s)])"

definition wr_time :: "codecs \<Rightarrow> timestamp \<Rightarrow> json" where
  "wr_time K t = JString (show_time K t)"

definition wr_uuid :: "codecs \<Rightarrow> uuid \<Rightarrow> json" where
  "wr_uuid K u = JString (show_uuid K u)"

definition wr_bodies :: "bodies \<Rightarrow> json" where
  "wr_bodies bs = JObject (map (\<lambda>(k, v). (k, JString v)) bs)"

section \<open>Frames of the handshake\<close>

definition identify_of :: "fields \<Rightarrow> identify_payload option" where
  "identify_of kvs = do {
     u \<leftarrow> required rd_str ''username'' kvs; sig \<leftarrow> required rd_str ''signature'' kvs;
     Some \<lparr>id_username = u, id_signature = sig\<rparr> }"

definition auth_client_of :: "fields \<Rightarrow> auth_client_frame option" where
  "auth_client_of kvs = do {
     (kind, rest) \<leftarrow> tagged kvs;
     if kind = ''Identify'' then map_option Identify (identify_of rest) else None }"

definition auth_server_json :: "auth_server_frame \<Rightarrow> json" where
  "auth_server_json f = (case f of
       Challenge nonce \<Rightarrow> variant ''Challenge'' [(''nonce'', JString nonce)]
     | Authenticated \<Rightarrow> variant ''Authenticated'' []
     | AuthError code message \<Rightarrow> variant ''Error'' [(''code'', JString code), (''message'', JString message)])"

section \<open>Frames of the client\<close>

definition room_client_variant :: "codecs \<Rightarrow> string \<Rightarrow> fields \<Rightarrow> room_client_frame option" where
  "room_client_variant K kind kvs =
    (let str = (\<lambda>k. required rd_str k kvs) in
     if kind = ''CreateInvite'' then Some CreateInvite
     else if kind = ''ConsumeInvite'' then do {
       code \<leftarrow> str ''code''; sig \<leftarrow> str ''signature_over_token''; Some (ConsumeInvite code sig) }
     else if kind = ''Subscribe'' then do {
       rid \<leftarrow> str ''room_id''; since \<leftarrow> optional rd_str ''since_message_id'' kvs; Some (Subscribe rid since) }
     else if kind = ''Send'' then do {
       rid \<leftarrow> str ''room_id''; bodies \<leftarrow> required rd_bodies ''bodies'' kvs;
       c \<leftarrow> required (rd_uuid K) ''client_msg_id'' kvs; Some (Send rid bodies c) }
     else if kind = ''RequestUpload'' then do {
       request \<leftarrow> required (rd_uuid K) ''request_id'' kvs; rid \<leftarrow> str ''room_id'';
       n \<leftarrow> required rd_i64 ''byte_size'' kvs; Some (RequestUpload request rid n) }
     else if kind = ''RequestDownload'' then do { key \<leftarrow> str ''blob_key''; Some (RequestDownload key) }
     else if kind = ''CreateRoom'' then do {
       nm \<leftarrow> optional rd_str ''name'' kvs; b \<leftarrow> defaulted False rd_bool ''invite_human_partner'' kvs;
       Some (CreateRoom nm b) }
     else if kind = ''RenameRoom'' then do { rid \<leftarrow> str ''room_id''; nm \<leftarrow> str ''name''; Some (RenameRoom rid nm) }
     else if kind = ''LeaveRoom'' then do { rid \<leftarrow> str ''room_id''; Some (LeaveRoom rid) }
     else if kind = ''MarkRead'' then do {
       rid \<leftarrow> str ''room_id''; mid \<leftarrow> str ''up_to_message_id''; Some (MarkRead rid mid) }
     else if kind = ''RegisterPush'' then do {
       device \<leftarrow> str ''device_id''; token \<leftarrow> str ''apns_token''; environment \<leftarrow> str ''environment'';
       token_kind \<leftarrow> defaulted ''alert'' rd_str ''token_kind'' kvs;
       Some (RegisterPush device token environment token_kind) }
     else if kind = ''UnregisterPush'' then do { device \<leftarrow> str ''device_id''; Some (UnregisterPush device) }
     else if kind = ''Typing'' then do {
       rid \<leftarrow> str ''room_id''; b \<leftarrow> required rd_bool ''typing'' kvs; Some (Typing_req rid b) }
     else if kind = ''CallTurnRequest'' then do { call \<leftarrow> str ''call_id''; Some (CallTurnRequest call) }
     else if kind = ''CallInvite'' then do {
       rid \<leftarrow> str ''room_id''; call \<leftarrow> str ''call_id''; offer \<leftarrow> str ''offer'';
       video \<leftarrow> defaulted False rd_bool ''video'' kvs; Some (CallInvite_req rid call offer video) }
     else if kind = ''CallAnswer'' then do {
       rid \<leftarrow> str ''room_id''; call \<leftarrow> str ''call_id''; answer \<leftarrow> str ''answer''; Some (CallAnswer_req rid call answer) }
     else if kind = ''CallIce'' then do {
       rid \<leftarrow> str ''room_id''; call \<leftarrow> str ''call_id''; candidate \<leftarrow> str ''candidate''; Some (CallIce_req rid call candidate) }
     else if kind = ''CallHangup'' then do {
       rid \<leftarrow> str ''room_id''; call \<leftarrow> str ''call_id''; reason \<leftarrow> str ''reason''; Some (CallHangup_req rid call reason) }
     else if kind = ''PublishProfile'' then do {
       envelope \<leftarrow> str ''envelope''; avatar \<leftarrow> optional rd_str ''avatar_key'' kvs; Some (PublishProfile envelope avatar) }
     else None)"

definition room_client_of :: "codecs \<Rightarrow> fields \<Rightarrow> room_client_frame option" where
  "room_client_of K kvs = do { (kind, rest) \<leftarrow> tagged kvs; room_client_variant K kind rest }"

text \<open>The derived writer of the same type.\<close>

definition room_client_json :: "codecs \<Rightarrow> room_client_frame \<Rightarrow> json" where
  "room_client_json K f =
    (let str = (\<lambda>k s. (k, JString s)) in case f of
       CreateInvite \<Rightarrow> variant ''CreateInvite'' []
     | ConsumeInvite code sig \<Rightarrow> variant ''ConsumeInvite'' [str ''code'' code, str ''signature_over_token'' sig]
     | Subscribe rid since \<Rightarrow> variant ''Subscribe'' [str ''room_id'' rid, (''since_message_id'', or_null JString since)]
     | Send rid bodies c \<Rightarrow> variant ''Send'' [str ''room_id'' rid, (''bodies'', wr_bodies bodies), (''client_msg_id'', wr_uuid K c)]
     | RequestUpload request rid n \<Rightarrow> variant ''RequestUpload''
         [(''request_id'', wr_uuid K request), str ''room_id'' rid, (''byte_size'', JNumber (show_int n))]
     | RequestDownload key \<Rightarrow> variant ''RequestDownload'' [str ''blob_key'' key]
     | CreateRoom nm b \<Rightarrow> variant ''CreateRoom'' [(''name'', or_null JString nm), (''invite_human_partner'', JBool b)]
     | RenameRoom rid nm \<Rightarrow> variant ''RenameRoom'' [str ''room_id'' rid, str ''name'' nm]
     | LeaveRoom rid \<Rightarrow> variant ''LeaveRoom'' [str ''room_id'' rid]
     | MarkRead rid mid \<Rightarrow> variant ''MarkRead'' [str ''room_id'' rid, str ''up_to_message_id'' mid]
     | RegisterPush device token environment token_kind \<Rightarrow> variant ''RegisterPush''
         [str ''device_id'' device, str ''apns_token'' token, str ''environment'' environment, str ''token_kind'' token_kind]
     | UnregisterPush device \<Rightarrow> variant ''UnregisterPush'' [str ''device_id'' device]
     | Typing_req rid b \<Rightarrow> variant ''Typing'' [str ''room_id'' rid, (''typing'', JBool b)]
     | CallTurnRequest call \<Rightarrow> variant ''CallTurnRequest'' [str ''call_id'' call]
     | CallInvite_req rid call offer video \<Rightarrow> variant ''CallInvite''
         [str ''room_id'' rid, str ''call_id'' call, str ''offer'' offer, (''video'', JBool video)]
     | CallAnswer_req rid call answer \<Rightarrow> variant ''CallAnswer'' [str ''room_id'' rid, str ''call_id'' call, str ''answer'' answer]
     | CallIce_req rid call candidate \<Rightarrow> variant ''CallIce'' [str ''room_id'' rid, str ''call_id'' call, str ''candidate'' candidate]
     | CallHangup_req rid call reason \<Rightarrow> variant ''CallHangup'' [str ''room_id'' rid, str ''call_id'' call, str ''reason'' reason]
     | PublishProfile envelope avatar \<Rightarrow> variant ''PublishProfile'' [str ''envelope'' envelope, (''avatar_key'', or_null JString avatar)])"

section \<open>Frames of the server\<close>

definition member_json :: "wire_member \<Rightarrow> json" where
  "member_json m = JObject [(''account_id'', JNumber (show_int (wm_account_id m))), (''username'', JString (wm_username m)),
     (''ed25519_pub'', JString (wm_ed25519_pub m)), (''x25519_pub'', JString (wm_x25519_pub m))]"

definition member_of :: "fields \<Rightarrow> wire_member option" where
  "member_of kvs = do {
     i \<leftarrow> defaulted 0 rd_i64 ''account_id'' kvs; u \<leftarrow> required rd_str ''username'' kvs;
     ed \<leftarrow> required rd_str ''ed25519_pub'' kvs; x \<leftarrow> required rd_str ''x25519_pub'' kvs;
     Some \<lparr>wm_account_id = i, wm_username = u, wm_ed25519_pub = ed, wm_x25519_pub = x\<rparr> }"

definition room_json :: "codecs \<Rightarrow> wire_room_detail \<Rightarrow> json" where
  "room_json K r = JObject [(''room_id'', JString (wr_room_id r)), (''name'', JString (wr_name r)),
     (''members'', JArray (map member_json (wr_members r))), (''created_at'', wr_time K (wr_created_at r))]"

definition room_of :: "codecs \<Rightarrow> fields \<Rightarrow> wire_room_detail option" where
  "room_of K kvs = do {
     rid \<leftarrow> required rd_str ''room_id'' kvs; nm \<leftarrow> required rd_str ''name'' kvs;
     ms \<leftarrow> required (rd_vec (rd_struct member_of)) ''members'' kvs; t \<leftarrow> required (rd_time K) ''created_at'' kvs;
     Some \<lparr>wr_room_id = rid, wr_name = nm, wr_members = ms, wr_created_at = t\<rparr> }"

definition pending_invite_json :: "codecs \<Rightarrow> pending_invite \<Rightarrow> json" where
  "pending_invite_json K p = JObject [(''code'', JString (pi_code p)), (''qr_png_base64'', JString (pi_qr_png_base64 p)),
     (''expires_at'', wr_time K (pi_expires_at p))]"

definition pending_invite_of :: "codecs \<Rightarrow> fields \<Rightarrow> pending_invite option" where
  "pending_invite_of K kvs = do {
     code \<leftarrow> required rd_str ''code'' kvs; qr \<leftarrow> required rd_str ''qr_png_base64'' kvs;
     t \<leftarrow> required (rd_time K) ''expires_at'' kvs; Some \<lparr>pi_code = code, pi_qr_png_base64 = qr, pi_expires_at = t\<rparr> }"

definition room_server_json :: "codecs \<Rightarrow> room_server_frame \<Rightarrow> json" where
  "room_server_json K f =
    (let str = (\<lambda>k s. (k, JString s)) in case f of
       Rooms rs \<Rightarrow> variant ''Rooms'' [(''rooms'', JArray (map (room_json K) rs))]
     | InviteCreated code qr t \<Rightarrow> variant ''InviteCreated''
         [str ''code'' code, str ''qr_png_base64'' qr, (''expires_at'', wr_time K t)]
     | InviteConsumed rid nm ms \<Rightarrow> variant ''InviteConsumed''
         [str ''room_id'' rid, str ''name'' nm, (''members'', JArray (map member_json ms))]
     | RoomCreated rid nm ms p \<Rightarrow> variant ''RoomCreated''
         ([str ''room_id'' rid, str ''name'' nm, (''members'', JArray (map member_json ms))] @
          unless_none ''pending_invite'' (pending_invite_json K) p)
     | RoomRenamed rid nm \<Rightarrow> variant ''RoomRenamed'' [str ''room_id'' rid, str ''name'' nm]
     | MemberLeft rid u \<Rightarrow> variant ''MemberLeft'' [str ''room_id'' rid, str ''username'' u]
     | Message mid rid sender t body replayed seen c \<Rightarrow> variant ''Message''
         ([str ''id'' mid, str ''room_id'' rid, str ''from'' sender, (''ts'', wr_time K t), str ''body'' body] @
          unless_false ''replayed'' replayed @ unless_false ''read'' seen @ unless_none ''client_msg_id'' (wr_uuid K) c)
     | Read rid ids u \<Rightarrow> variant ''Read'' [str ''room_id'' rid, (''message_ids'', JArray (map JString ids)), str ''reader'' u]
     | ReadMarker rid t \<Rightarrow> variant ''ReadMarker'' [str ''room_id'' rid, (''read_up_to'', wr_time K t)]
     | Typing rid sender b \<Rightarrow> variant ''Typing'' [str ''room_id'' rid, str ''from'' sender, (''typing'', JBool b)]
     | Presence u b seen \<Rightarrow> variant ''Presence''
         ([str ''user'' u, (''online'', JBool b)] @ unless_none ''last_seen'' (wr_time K) seen)
     | Profile u envelope avatar \<Rightarrow> variant ''Profile''
         ([str ''user'' u, str ''envelope'' envelope] @ unless_none ''avatar_key'' JString avatar)
     | UploadGranted request key url t \<Rightarrow> variant ''UploadGranted''
         [(''request_id'', wr_uuid K request), str ''blob_key'' key, str ''url'' url, (''expires_at'', wr_time K t)]
     | DownloadGranted key url t \<Rightarrow> variant ''DownloadGranted''
         [str ''blob_key'' key, str ''url'' url, (''expires_at'', wr_time K t)]
     | CallTurnGrant call ice \<Rightarrow> variant ''CallTurnGrant'' [str ''call_id'' call, (''ice_servers'', ice)]
     | CallInvite rid call sender offer video \<Rightarrow> variant ''CallInvite''
         [str ''room_id'' rid, str ''call_id'' call, str ''from'' sender, str ''offer'' offer, (''video'', JBool video)]
     | CallAnswer rid call answer \<Rightarrow> variant ''CallAnswer'' [str ''room_id'' rid, str ''call_id'' call, str ''answer'' answer]
     | CallIce rid call candidate \<Rightarrow> variant ''CallIce'' [str ''room_id'' rid, str ''call_id'' call, str ''candidate'' candidate]
     | CallHangup rid call reason \<Rightarrow> variant ''CallHangup'' [str ''room_id'' rid, str ''call_id'' call, str ''reason'' reason]
     | Error code message \<Rightarrow> variant ''Error'' (str ''code'' code # unless_empty ''message'' message))"

text \<open>The derived reader, as a client reads a frame.\<close>

definition room_server_variant :: "codecs \<Rightarrow> string \<Rightarrow> fields \<Rightarrow> room_server_frame option" where
  "room_server_variant K kind kvs =
    (let str = (\<lambda>k. required rd_str k kvs); time = (\<lambda>k. required (rd_time K) k kvs); flag = (\<lambda>k. required rd_bool k kvs);
         members = required (rd_vec (rd_struct member_of)) ''members'' kvs in
     if kind = ''Rooms'' then do { rs \<leftarrow> required (rd_vec (rd_struct (room_of K))) ''rooms'' kvs; Some (Rooms rs) }
     else if kind = ''InviteCreated'' then do {
       code \<leftarrow> str ''code''; qr \<leftarrow> str ''qr_png_base64''; t \<leftarrow> time ''expires_at''; Some (InviteCreated code qr t) }
     else if kind = ''InviteConsumed'' then do {
       rid \<leftarrow> str ''room_id''; nm \<leftarrow> str ''name''; ms \<leftarrow> members; Some (InviteConsumed rid nm ms) }
     else if kind = ''RoomCreated'' then do {
       rid \<leftarrow> str ''room_id''; nm \<leftarrow> str ''name''; ms \<leftarrow> members;
       p \<leftarrow> optional (rd_struct (pending_invite_of K)) ''pending_invite'' kvs; Some (RoomCreated rid nm ms p) }
     else if kind = ''RoomRenamed'' then do { rid \<leftarrow> str ''room_id''; nm \<leftarrow> str ''name''; Some (RoomRenamed rid nm) }
     else if kind = ''MemberLeft'' then do { rid \<leftarrow> str ''room_id''; u \<leftarrow> str ''username''; Some (MemberLeft rid u) }
     else if kind = ''Message'' then do {
       mid \<leftarrow> str ''id''; rid \<leftarrow> str ''room_id''; sender \<leftarrow> str ''from''; t \<leftarrow> time ''ts''; body \<leftarrow> str ''body'';
       replayed \<leftarrow> defaulted False rd_bool ''replayed'' kvs; seen \<leftarrow> defaulted False rd_bool ''read'' kvs;
       c \<leftarrow> optional (rd_uuid K) ''client_msg_id'' kvs; Some (Message mid rid sender t body replayed seen c) }
     else if kind = ''Read'' then do {
       rid \<leftarrow> str ''room_id''; ids \<leftarrow> required (rd_vec rd_str) ''message_ids'' kvs; u \<leftarrow> str ''reader''; Some (Read rid ids u) }
     else if kind = ''ReadMarker'' then do { rid \<leftarrow> str ''room_id''; t \<leftarrow> time ''read_up_to''; Some (ReadMarker rid t) }
     else if kind = ''Typing'' then do {
       rid \<leftarrow> str ''room_id''; sender \<leftarrow> str ''from''; b \<leftarrow> flag ''typing''; Some (Typing rid sender b) }
     else if kind = ''Presence'' then do {
       u \<leftarrow> str ''user''; b \<leftarrow> flag ''online''; seen \<leftarrow> optional (rd_time K) ''last_seen'' kvs; Some (Presence u b seen) }
     else if kind = ''Profile'' then do {
       u \<leftarrow> str ''user''; envelope \<leftarrow> str ''envelope''; avatar \<leftarrow> optional rd_str ''avatar_key'' kvs; Some (Profile u envelope avatar) }
     else if kind = ''UploadGranted'' then do {
       request \<leftarrow> required (rd_uuid K) ''request_id'' kvs; key \<leftarrow> str ''blob_key''; url \<leftarrow> str ''url''; t \<leftarrow> time ''expires_at'';
       Some (UploadGranted request key url t) }
     else if kind = ''DownloadGranted'' then do {
       key \<leftarrow> str ''blob_key''; url \<leftarrow> str ''url''; t \<leftarrow> time ''expires_at''; Some (DownloadGranted key url t) }
     else if kind = ''CallTurnGrant'' then do {
       call \<leftarrow> str ''call_id''; ice \<leftarrow> required Some ''ice_servers'' kvs; Some (CallTurnGrant call ice) }
     else if kind = ''CallInvite'' then do {
       rid \<leftarrow> str ''room_id''; call \<leftarrow> str ''call_id''; sender \<leftarrow> str ''from''; offer \<leftarrow> str ''offer'';
       video \<leftarrow> defaulted False rd_bool ''video'' kvs; Some (CallInvite rid call sender offer video) }
     else if kind = ''CallAnswer'' then do {
       rid \<leftarrow> str ''room_id''; call \<leftarrow> str ''call_id''; answer \<leftarrow> str ''answer''; Some (CallAnswer rid call answer) }
     else if kind = ''CallIce'' then do {
       rid \<leftarrow> str ''room_id''; call \<leftarrow> str ''call_id''; candidate \<leftarrow> str ''candidate''; Some (CallIce rid call candidate) }
     else if kind = ''CallHangup'' then do {
       rid \<leftarrow> str ''room_id''; call \<leftarrow> str ''call_id''; reason \<leftarrow> str ''reason''; Some (CallHangup rid call reason) }
     else if kind = ''Error'' then do {
       code \<leftarrow> str ''code''; message \<leftarrow> defaulted [] rd_str ''message'' kvs; Some (Error code message) }
     else None)"

definition room_server_of :: "codecs \<Rightarrow> json \<Rightarrow> room_server_frame option" where
  "room_server_of K v = rd_struct (\<lambda>kvs. do { (kind, rest) \<leftarrow> tagged kvs; room_server_variant K kind rest }) v"

section \<open>Reading what was written\<close>

lemma values_at_simps [simp]:
  "values_at k [] = []" "values_at k ((k', v) # kvs) = (if k' = k then v # values_at k kvs else values_at k kvs)"
  "values_at k (kvs @ kvs') = values_at k kvs @ values_at k kvs'"
  by (simp_all add: values_at_def)

lemma tagged_variant:
  assumes "values_at ''kind'' kvs = []"
  shows "tagged ((''kind'', JString kind) # kvs) = Some (kind, kvs)"
proof -
  have "filter (\<lambda>kv. fst kv \<noteq> ''kind'') kvs = kvs"
    using assms by (auto simp: values_at_def filter_empty_conv filter_id_conv)
  then show ?thesis
    using assms by (simp add: tagged_def required_def rd_str_def)
qed

lemma put_entry_fresh: "k \<notin> fst ` set m \<Longrightarrow> put_entry k v m = m @ [(k, v)]"
  by (induction m) auto

lemma rd_entries_wr: "distinct (map fst (m @ bs)) \<Longrightarrow> rd_entries (map (\<lambda>(k, v). (k, JString v)) bs) m = Some (m @ bs)"
proof (induction bs arbitrary: m)
  case (Cons kv bs)
  then show ?case
    using put_entry_fresh [of "fst kv" m "snd kv"] Cons.IH [of "m @ [kv]"] by (simp add: case_prod_beta rd_str_def)
qed simp

lemma rd_bodies_wr: "bodies_ok bs \<Longrightarrow> rd_bodies (wr_bodies bs) = Some bs"
  using rd_entries_wr [of "[]" bs] by (simp add: bodies_ok_def rd_bodies_def wr_bodies_def)

lemma rd_list_map: "(\<And>x. x \<in> set xs \<Longrightarrow> rd (wr x) = Some x) \<Longrightarrow> rd_list rd (map wr xs) = Some xs"
  by (induction xs) auto

lemma rd_time_wr: "codec_law K \<Longrightarrow> rd_time K (wr_time K t) = Some t"
  by (simp add: codec_law_def rd_time_def wr_time_def rd_str_def)

lemma rd_uuid_wr: "codec_law K \<Longrightarrow> rd_uuid K (wr_uuid K u) = Some u"
  by (simp add: codec_law_def rd_uuid_def wr_uuid_def rd_str_def)

text \<open>A client frame that the types of the source admit: one body per key, sizes within \<open>i64\<close>.\<close>

definition client_frame_ok :: "room_client_frame \<Rightarrow> bool" where
  "client_frame_ok f = (case f of Send _ bodies _ \<Rightarrow> bodies_ok bodies | RequestUpload _ _ n \<Rightarrow> is_i64 n | _ \<Rightarrow> True)"

lemmas field_defs = required_def optional_def defaulted_def rd_str_def rd_bool_def rd_i64_def or_null_def

lemma room_client_roundtrip:
  assumes "codec_law K" and "client_frame_ok f"
  shows "rd_struct (room_client_of K) (room_client_json K f) = Some f"
  using assms
  by (cases f) (simp_all add: room_client_json_def variant_def rd_struct_def room_client_of_def tagged_variant
      room_client_variant_def Let_def field_defs rd_uuid_wr rd_bodies_wr read_i64_show_int client_frame_ok_def
      split: option.split)

lemma rd_object: "rd_struct rd (JObject kvs) = rd kvs"
  by (simp add: rd_struct_def)

lemma member_roundtrip: "is_i64 (wm_account_id m) \<Longrightarrow> rd_struct member_of (member_json m) = Some m"
  by (simp add: rd_struct_def member_json_def member_of_def field_defs read_i64_show_int)

lemma pending_invite_roundtrip: "codec_law K \<Longrightarrow> rd_struct (pending_invite_of K) (pending_invite_json K p) = Some p"
  by (simp add: rd_struct_def pending_invite_json_def pending_invite_of_def field_defs rd_time_wr)

definition members_fit :: "wire_member list \<Rightarrow> bool" where
  "members_fit ms \<longleftrightarrow> (\<forall>m \<in> set ms. is_i64 (wm_account_id m))"

lemma rd_members: "members_fit ms \<Longrightarrow> rd_vec (rd_struct member_of) (JArray (map member_json ms)) = Some ms"
  by (simp add: rd_vec_def rd_list_map member_roundtrip members_fit_def)

lemma room_roundtrip:
  "codec_law K \<Longrightarrow> members_fit (wr_members r) \<Longrightarrow> rd_struct (room_of K) (room_json K r) = Some r"
  by (simp add: rd_struct_def room_json_def room_of_def required_def rd_str_def rd_time_wr rd_members)

definition server_frame_ok :: "room_server_frame \<Rightarrow> bool" where
  "server_frame_ok f = (case f of
       Rooms rs \<Rightarrow> \<forall>r \<in> set rs. members_fit (wr_members r)
     | InviteConsumed _ _ ms \<Rightarrow> members_fit ms | RoomCreated _ _ ms _ \<Rightarrow> members_fit ms | _ \<Rightarrow> True)"

lemma rd_rooms:
  "codec_law K \<Longrightarrow> \<forall>r \<in> set rs. members_fit (wr_members r) \<Longrightarrow>
    rd_vec (rd_struct (room_of K)) (JArray (map (room_json K) rs)) = Some rs"
  by (simp add: rd_vec_def rd_list_map room_roundtrip)

lemma rd_strs: "rd_vec rd_str (JArray (map JString ids)) = Some ids"
  by (simp add: rd_vec_def rd_list_map rd_str_def)

lemma optional_some: "rd (wr x) = Some x \<Longrightarrow> wr x \<noteq> JNull \<Longrightarrow> values_at k kvs = [wr x] \<Longrightarrow>
    optional rd k kvs = Some (Some x)"
  by (cases "wr x") (simp_all add: optional_def)

lemma optional_none: "values_at k kvs = [] \<Longrightarrow> optional rd k kvs = Some None"
  by (simp add: optional_def)

lemma not_null: "wr_time K t \<noteq> JNull" "wr_uuid K u \<noteq> JNull" "pending_invite_json K p \<noteq> JNull"
  by (simp_all add: wr_time_def wr_uuid_def pending_invite_json_def)

lemmas optional_values = optional_some [of "rd_time K" "wr_time K" for K] optional_some [of "rd_uuid K" "wr_uuid K" for K]
  optional_some [of "rd_struct (pending_invite_of K)" "pending_invite_json K" for K] optional_some [of rd_str JString]

lemma room_server_roundtrip:
  assumes "codec_law K" and "server_frame_ok f"
  shows "room_server_of K (room_server_json K f) = Some f"
  using assms
  by (cases f) (simp_all add: room_server_json_def variant_def rd_object room_server_of_def tagged_variant
      room_server_variant_def Let_def required_def defaulted_def rd_str_def rd_bool_def optional_values not_null
      rd_time_wr rd_uuid_wr rd_members rd_rooms rd_strs pending_invite_roundtrip server_frame_ok_def
      unless_none_def unless_false_def unless_empty_def optional_none
      split: option.split)

section \<open>Older and newer clients\<close>

definition field_names :: "string set" where
  "field_names = {''kind'', ''code'', ''signature_over_token'', ''room_id'', ''since_message_id'', ''bodies'', ''client_msg_id'',
     ''request_id'', ''byte_size'', ''blob_key'', ''name'', ''invite_human_partner'', ''up_to_message_id'', ''device_id'',
     ''apns_token'', ''environment'', ''token_kind'', ''typing'', ''call_id'', ''offer'', ''video'', ''answer'', ''candidate'',
     ''reason'', ''envelope'', ''avatar_key''}"

text \<open>A reader only looks at the values under the names it knows.\<close>

lemma field_reads:
  "values_at k kvs = values_at k kvs' \<Longrightarrow> required rd k kvs = required rd k kvs'"
  "values_at k kvs = values_at k kvs' \<Longrightarrow> optional rd k kvs = optional rd k kvs'"
  "values_at k kvs = values_at k kvs' \<Longrightarrow> defaulted dflt rd k kvs = defaulted dflt rd k kvs'"
  by (simp_all add: required_def optional_def defaulted_def)

lemma room_client_variant_cong:
  assumes "\<And>k. k \<in> field_names \<Longrightarrow> values_at k kvs = values_at k kvs'"
  shows "room_client_variant K kind kvs = room_client_variant K kind kvs'"
  unfolding room_client_variant_def Let_def by (simp add: field_reads [OF assms] field_names_def)

lemma tagged_values:
  "tagged kvs = (case required rd_str ''kind'' kvs of None \<Rightarrow> None
     | Some kind \<Rightarrow> Some (kind, filter (\<lambda>kv. fst kv \<noteq> ''kind'') kvs))"
  by (simp add: tagged_def split: option.split)

lemma values_at_untagged:
  "values_at k (filter (\<lambda>kv. fst kv \<noteq> ''kind'') kvs) = (if k = ''kind'' then [] else values_at k kvs)"
  by (auto simp: values_at_def intro!: arg_cong [of _ _ "map snd"] filter_cong)

lemma room_client_of_cong:
  assumes "\<And>k. k \<in> field_names \<Longrightarrow> values_at k kvs = values_at k kvs'"
  shows "room_client_of K kvs = room_client_of K kvs'"
proof -
  have "required rd_str ''kind'' kvs = required rd_str ''kind'' kvs'"
    by (rule field_reads) (simp add: assms field_names_def)
  moreover have "room_client_variant K kind (filter (\<lambda>kv. fst kv \<noteq> ''kind'') kvs) =
      room_client_variant K kind (filter (\<lambda>kv. fst kv \<noteq> ''kind'') kvs')" for kind
    using assms by (intro room_client_variant_cong) (simp add: values_at_untagged)
  ultimately show ?thesis
    by (simp add: room_client_of_def tagged_values split: option.split)
qed

lemma values_at_insert: "k' \<noteq> k \<Longrightarrow> values_at k' (xs @ (k, v) # ys) = values_at k' (xs @ ys)"
  by (simp add: values_at_def)

section \<open>Properties\<close>

text \<open>
  C30. Nothing is lost on the wire: a client frame that the source's types admit, and a server frame, is read back
  from the JSON it is written as, whatever optional fields the writer leaves out.
\<close>

theorem frames_roundtrip:
  assumes "codec_law K" and "client_frame_ok f" and "server_frame_ok g"
  shows "rd_struct (room_client_of K) (room_client_json K f) = Some f \<and>
    room_server_of K (room_server_json K g) = Some g"
  using room_client_roundtrip [OF assms(1,2)] room_server_roundtrip [OF assms(1,3)] by simp

definition sample_codecs :: codecs where
  "sample_codecs = \<lparr>show_time = show_int,
     read_time = (\<lambda>s. case s of [] \<Rightarrow> None
       | c # cs \<Rightarrow> if c = CHR ''-'' then map_option (\<lambda>n. - int n) (digits_value 0 cs) else map_option int (digits_value 0 s)),
     show_uuid = (\<lambda>u. show_nat (unat u)), read_uuid = (\<lambda>s. map_option of_nat (digits_value 0 s))\<rparr>"

lemma sample_codecs_ok: "codec_law sample_codecs"
proof -
  have "read_time sample_codecs (show_time sample_codecs t) = Some t" for t
  proof -
    obtain c cs where c: "show_nat (nat t) = c # cs" "48 \<le> (of_char c :: nat)" using show_nat_head by blast
    then have "c \<noteq> CHR ''-''" by auto
    then show ?thesis
      using c digits_value_show_nat [of "nat t"]
      by (simp add: sample_codecs_def show_int_def digits_value_show_nat del: digits_value.simps)
  qed
  then show ?thesis
    by (simp add: codec_law_def) (simp add: sample_codecs_def digits_value_show_nat)
qed

theorem frames_roundtrip_witness:
  "rd_struct (room_client_of sample_codecs) (room_client_json sample_codecs (Send ''R'' [(''k'', ''b'')] 7)) =
    Some (Send ''R'' [(''k'', ''b'')] 7)"
  using frames_roundtrip [OF sample_codecs_ok, of "Send ''R'' [(''k'', ''b'')] 7" "RoomRenamed ''R'' ''us''"]
  by (simp add: client_frame_ok_def server_frame_ok_def bodies_ok_def)

text \<open>
  Clients of other versions are understood: a field the server does not know changes nothing, wherever it
  stands in the frame, and the fields that older clients leave out have their defaults.
\<close>

theorem other_versions_understood:
  assumes "k \<notin> field_names"
  shows "room_client_of K (xs @ (k, v) # ys) = room_client_of K (xs @ ys) \<and>
    room_client_of K [(''kind'', JString ''RegisterPush''), (''device_id'', JString d), (''apns_token'', JString t),
      (''environment'', JString e)] = Some (RegisterPush d t e ''alert'') \<and>
    room_client_of K [(''kind'', JString ''CallInvite''), (''room_id'', JString r), (''call_id'', JString c),
      (''offer'', JString off)] = Some (CallInvite_req r c off False) \<and>
    room_client_of K [(''kind'', JString ''Subscribe''), (''room_id'', JString r)] = Some (Subscribe r None) \<and>
    room_client_of K [(''kind'', JString ''CreateRoom'')] = Some (CreateRoom None False) \<and>
    room_client_of K [(''kind'', JString ''PublishProfile''), (''envelope'', JString env)] = Some (PublishProfile env None)"
proof -
  have "room_client_of K (xs @ (k, v) # ys) = room_client_of K (xs @ ys)"
    using assms by (intro room_client_of_cong values_at_insert) auto
  then show ?thesis
    by (simp add: room_client_of_def tagged_variant room_client_variant_def Let_def field_defs)
qed

theorem other_versions_understood_witness:
  "room_client_of sample_codecs [(''kind'', JString ''LeaveRoom''), (''trace'', JNull), (''room_id'', JString ''R'')] =
    Some (LeaveRoom ''R'')"
proof -
  have "''trace'' \<notin> field_names" by (simp add: field_names_def)
  from other_versions_understood [OF this, of sample_codecs "[(''kind'', JString ''LeaveRoom'')]" JNull
      "[(''room_id'', JString ''R'')]"]
  show ?thesis
    by (simp add: room_client_of_def tagged_variant room_client_variant_def field_defs)
qed

end
