(* ===== verification/Tables.thy ===== *)
theory Tables
  imports Prelude
begin

text \<open>
  The Postgres schema that \<open>server/migrations\<close> builds up, and what a statement is. A table is the list of
  its rows in insertion order; a statement is a function from the database to a result and the new
  database. The constraints the statements can run into are the ones of the migrations: primary and
  unique keys (\<open>UniqueViolation\<close>, SQLSTATE 23505), foreign keys (\<open>ForeignKeyViolation\<close>) and checks
  (\<open>CheckViolation\<close>). \<open>DbDown\<close> stands for every failure that is not the statement's own: a lost
  connection, a timed-out pool. A failed transaction leaves the database as it was, except that a
  sequence value it drew is not given back.

  Text comparison is by bytes, which for the upper case ULIDs that serve as ids is the order of
  Postgres' collations. \<open>now()\<close> in a statement reads \<^emph>\<open>db_now\<close>.
\<close>

record account_row =
  acc_id :: account_id
  acc_username :: string
  acc_ed25519_pub :: bytes
  acc_x25519_pub :: bytes
  acc_created_at :: timestamp
  acc_partner_account_id :: "account_id option"
  acc_last_seen_at :: "timestamp option"

record room_row =
  rm_id :: string
  rm_name :: string
  rm_created_at :: timestamp

record room_member_row =
  mb_room_id :: string
  mb_account_id :: account_id
  mb_joined_at :: timestamp

record invite_row_db =
  iv_token_hash :: bytes
  iv_inviter_id :: account_id
  iv_expires_at :: timestamp
  iv_consumed_at :: "timestamp option"
  iv_room_id :: "string option"

record message_row_db =
  ms_id :: string
  ms_room_id :: string
  ms_from_account_id :: account_id
  ms_recipient_account_id :: account_id
  ms_body :: string
  ms_ts :: timestamp
  ms_read_at :: "timestamp option"

record attachment_row =
  at_blob_key :: string
  at_room_id :: string
  at_uploader_account_id :: account_id
  at_byte_size :: int
  at_committed :: bool
  at_created_at :: timestamp

record push_token_row =
  pt_account_id :: account_id
  pt_device_id :: string
  pt_apns_token :: string
  pt_environment :: string
  pt_kind :: string
  pt_updated_at :: timestamp

record profile_row =
  pf_account_id :: account_id
  pf_envelope :: bytes
  pf_avatar_key :: "string option"
  pf_updated_at :: timestamp

record db =
  accounts :: "account_row list"
  rooms :: "room_row list"
  room_members :: "room_member_row list"
  invites :: "invite_row_db list"
  messages :: "message_row_db list"
  attachments :: "attachment_row list"
  device_push_tokens :: "push_token_row list"
  account_profiles :: "profile_row list"
  accounts_id_seq :: account_id
  db_now :: timestamp

datatype db_error = UniqueViolation | ForeignKeyViolation | CheckViolation | DbDown

type_synonym 'a sql = "db \<Rightarrow> (db_error + 'a) \<times> db"

text \<open>A statement that only reads, and running a second statement inside the same transaction.\<close>

definition sql_read :: "(db \<Rightarrow> 'a) \<Rightarrow> 'a sql" where
  "sql_read f d = (Inr (f d), d)"

definition sql_then :: "'a sql \<Rightarrow> ('a \<Rightarrow> 'b sql) \<Rightarrow> 'b sql" where
  "sql_then q k d = (case q d of (Inl e, d') \<Rightarrow> (Inl e, d') | (Inr x, d') \<Rightarrow> k x d')"

text \<open>\<open>pool.begin()\<close> to \<open>commit()\<close>: an error rolls back to where the transaction began.\<close>

definition transaction :: "'a sql \<Rightarrow> 'a sql" where
  "transaction q d = (case q d of (Inl e, d') \<Rightarrow> (Inl e, d) | (Inr x, d') \<Rightarrow> (Inr x, d'))"

definition empty_db :: db where
  "empty_db = \<lparr>accounts = [], rooms = [], room_members = [], invites = [], messages = [],
     attachments = [], device_push_tokens = [], account_profiles = [], accounts_id_seq = 1,
     db_now = 0\<rparr>"

definition account_ids :: "db \<Rightarrow> account_id set" where
  "account_ids d = acc_id ` set (accounts d)"

definition room_ids :: "db \<Rightarrow> string set" where
  "room_ids d = rm_id ` set (rooms d)"

lemma sql_read_eq [simp]: "sql_read f d = (Inr (f d), d)"
  by (simp add: sql_read_def)

lemma transaction_Inl: "transaction q d = (Inl e, d') \<longleftrightarrow> d' = d \<and> (\<exists>d''. q d = (Inl e, d''))"
  by (auto simp: transaction_def split: prod.splits sum.splits)

lemma transaction_Inr: "transaction q d = (Inr x, d') \<longleftrightarrow> q d = (Inr x, d')"
  by (auto simp: transaction_def split: prod.splits sum.splits)

text \<open>
  A property of the database that every statement of a transaction keeps is kept by the transaction,
  whether it commits or rolls back.
\<close>

definition keeps :: "(db \<Rightarrow> bool) \<Rightarrow> 'a sql \<Rightarrow> bool" where
  "keeps I q \<longleftrightarrow> (\<forall>d. I d \<longrightarrow> I (snd (q d)))"

lemma keepsI: "(\<And>d. I d \<Longrightarrow> I (snd (q d))) \<Longrightarrow> keeps I q"
  by (simp add: keeps_def)

lemma keepsD: "keeps I q \<Longrightarrow> I d \<Longrightarrow> q d = (r, d') \<Longrightarrow> I d'"
  by (metis keeps_def snd_conv)

lemma keeps_read [simp, intro]: "keeps I (sql_read f)"
  by (simp add: keeps_def)

lemma keeps_then [intro]: "keeps I q \<Longrightarrow> (\<And>x. keeps I (k x)) \<Longrightarrow> keeps I (sql_then q k)"
  by (auto simp: keeps_def sql_then_def split: prod.splits sum.splits)

lemma keeps_transaction [intro]: "keeps I q \<Longrightarrow> keeps I (transaction q)"
  by (auto simp: keeps_def transaction_def split: prod.splits sum.splits)

section \<open>The constraints of the schema\<close>

text \<open>
  What the migrations declare: keys, foreign keys and checks. Postgres enforces them; the statements of
  the other theories are written with the corresponding error branches, and each is shown to keep
  \<open>schema_ok\<close>, so no statement reaches a state that the real tables could not hold.
\<close>

definition partner_of :: "db \<Rightarrow> account_id \<Rightarrow> account_id option" where
  "partner_of d i =
    (case map_of (map (\<lambda>a. (acc_id a, acc_partner_account_id a)) (accounts d)) i of
       Some p \<Rightarrow> p | None \<Rightarrow> None)"

definition accounts_ok :: "db \<Rightarrow> bool" where
  "accounts_ok d \<longleftrightarrow> distinct (map acc_id (accounts d)) \<and> distinct (map acc_username (accounts d)) \<and>
     (\<forall>i \<in> account_ids d. case partner_of d i of None \<Rightarrow> True
        | Some p \<Rightarrow> p \<noteq> i \<and> p \<in> account_ids d \<and> (\<forall>j \<in> account_ids d. partner_of d j = Some p \<longrightarrow> j = i))"

definition rooms_ok :: "db \<Rightarrow> bool" where
  "rooms_ok d \<longleftrightarrow> distinct (map rm_id (rooms d)) \<and> (\<forall>r \<in> set (rooms d). utf8_chars (rm_name r) \<le> 64)"

definition members_ok :: "db \<Rightarrow> bool" where
  "members_ok d \<longleftrightarrow> distinct (map (\<lambda>m. (mb_room_id m, mb_account_id m)) (room_members d)) \<and>
     mb_room_id ` set (room_members d) \<subseteq> room_ids d \<and>
     mb_account_id ` set (room_members d) \<subseteq> account_ids d"

definition invites_ok :: "db \<Rightarrow> bool" where
  "invites_ok d \<longleftrightarrow> distinct (map iv_token_hash (invites d)) \<and>
     iv_inviter_id ` set (invites d) \<subseteq> account_ids d \<and>
     (\<forall>i \<in> set (invites d). \<forall>r. iv_room_id i = Some r \<longrightarrow> r \<in> room_ids d)"

definition messages_ok :: "db \<Rightarrow> bool" where
  "messages_ok d \<longleftrightarrow> distinct (map (\<lambda>m. (ms_id m, ms_recipient_account_id m)) (messages d)) \<and>
     ms_room_id ` set (messages d) \<subseteq> room_ids d \<and>
     ms_from_account_id ` set (messages d) \<subseteq> account_ids d \<and>
     ms_recipient_account_id ` set (messages d) \<subseteq> account_ids d"

definition attachments_ok :: "db \<Rightarrow> bool" where
  "attachments_ok d \<longleftrightarrow> distinct (map at_blob_key (attachments d)) \<and>
     at_room_id ` set (attachments d) \<subseteq> room_ids d \<and>
     at_uploader_account_id ` set (attachments d) \<subseteq> account_ids d"

definition tokens_ok :: "db \<Rightarrow> bool" where
  "tokens_ok d \<longleftrightarrow>
     distinct (map (\<lambda>t. (pt_account_id t, pt_device_id t, pt_kind t)) (device_push_tokens d)) \<and>
     pt_account_id ` set (device_push_tokens d) \<subseteq> account_ids d"

definition profiles_ok :: "db \<Rightarrow> bool" where
  "profiles_ok d \<longleftrightarrow> distinct (map pf_account_id (account_profiles d)) \<and>
     pf_account_id ` set (account_profiles d) \<subseteq> account_ids d \<and>
     (\<forall>p \<in> set (account_profiles d). \<forall>k. pf_avatar_key p = Some k \<longrightarrow>
        k \<in> at_blob_key ` set (attachments d))"

definition schema_ok :: "db \<Rightarrow> bool" where
  "schema_ok d \<longleftrightarrow> accounts_ok d \<and> rooms_ok d \<and> members_ok d \<and> invites_ok d \<and> messages_ok d \<and>
     attachments_ok d \<and> tokens_ok d \<and> profiles_ok d"

lemmas schema_defs = accounts_ok_def rooms_ok_def members_ok_def invites_ok_def messages_ok_def
  attachments_ok_def tokens_ok_def profiles_ok_def

lemma partner_of_outside: "i \<notin> account_ids d \<Longrightarrow> partner_of d i = None"
  by (force simp: partner_of_def account_ids_def dest: map_of_SomeD split: option.splits)

lemma partner_of_known: "partner_of d i = Some p \<Longrightarrow> i \<in> account_ids d"
  using partner_of_outside by fastforce

lemma ball_partner:
  "(\<forall>i \<in> account_ids d. case partner_of d i of None \<Rightarrow> True | Some p \<Rightarrow> Q i p) \<longleftrightarrow>
   (\<forall>i p. partner_of d i = Some p \<longrightarrow> Q i p)"
  by (auto split: option.splits dest: partner_of_known)

lemma account_ids_columns: "account_ids d = set (map acc_id (accounts d))"
  by (simp add: account_ids_def)

lemma accounts_okI:
  assumes "distinct (map acc_id (accounts d))" and "distinct (map acc_username (accounts d))"
    and "\<And>i p. partner_of d i = Some p \<Longrightarrow> p \<noteq> i \<and> p \<in> account_ids d"
    and "\<And>i j p. partner_of d i = Some p \<Longrightarrow> partner_of d j = Some p \<Longrightarrow> j = i"
  shows "accounts_ok d"
  using assms by (auto simp: accounts_ok_def split: option.splits)

lemma accounts_ok_partner:
  assumes "accounts_ok d"
  shows "partner_of d i = Some p \<Longrightarrow> p \<noteq> i"
    and "partner_of d i = Some p \<Longrightarrow> p \<in> account_ids d"
    and "partner_of d i = Some p \<Longrightarrow> partner_of d j = Some p \<Longrightarrow> j = i"
  using assms partner_of_known unfolding accounts_ok_def by (fastforce split: option.splits)+

lemma accounts_ok_distinct:
  "accounts_ok d \<Longrightarrow> distinct (map acc_id (accounts d))"
  "accounts_ok d \<Longrightarrow> distinct (map acc_username (accounts d))"
  by (simp_all add: accounts_ok_def cong: option.case_cong)

lemma accounts_ok_columns:
  assumes "accounts_ok d" and "map acc_id (accounts d') = map acc_id (accounts d)"
    and "map acc_username (accounts d') = map acc_username (accounts d)"
    and "partner_of d' = partner_of d"
  shows "accounts_ok d'"
proof -
  have "account_ids d' = account_ids d"
    unfolding account_ids_def by (metis assms(2) image_set)
  then show ?thesis
    using assms unfolding accounts_ok_def by (simp cong: option.case_cong)
qed

lemma schema_empty [simp]: "schema_ok empty_db"
  by (simp add: schema_ok_def schema_defs empty_db_def account_ids_def)

text \<open>Each group of constraints depends on its own tables only.\<close>

lemma ids_update [simp]:
  "account_ids (d\<lparr>rooms := rs\<rparr>) = account_ids d"
  "account_ids (d\<lparr>room_members := ms\<rparr>) = account_ids d"
  "account_ids (d\<lparr>invites := is\<rparr>) = account_ids d"
  "account_ids (d\<lparr>messages := mm\<rparr>) = account_ids d"
  "account_ids (d\<lparr>attachments := ats\<rparr>) = account_ids d"
  "account_ids (d\<lparr>device_push_tokens := ts\<rparr>) = account_ids d"
  "account_ids (d\<lparr>account_profiles := ps\<rparr>) = account_ids d"
  "account_ids (d\<lparr>accounts_id_seq := n\<rparr>) = account_ids d"
  "account_ids (d\<lparr>db_now := t\<rparr>) = account_ids d"
  "room_ids (d\<lparr>accounts := acs\<rparr>) = room_ids d"
  "room_ids (d\<lparr>room_members := ms\<rparr>) = room_ids d"
  "room_ids (d\<lparr>invites := is\<rparr>) = room_ids d"
  "room_ids (d\<lparr>messages := mm\<rparr>) = room_ids d"
  "room_ids (d\<lparr>attachments := ats\<rparr>) = room_ids d"
  "room_ids (d\<lparr>device_push_tokens := ts\<rparr>) = room_ids d"
  "room_ids (d\<lparr>account_profiles := ps\<rparr>) = room_ids d"
  "room_ids (d\<lparr>accounts_id_seq := n\<rparr>) = room_ids d"
  "room_ids (d\<lparr>db_now := t\<rparr>) = room_ids d"
  "partner_of (d\<lparr>rooms := rs\<rparr>) = partner_of d"
  "partner_of (d\<lparr>room_members := ms\<rparr>) = partner_of d"
  "partner_of (d\<lparr>invites := is\<rparr>) = partner_of d"
  "partner_of (d\<lparr>messages := mm\<rparr>) = partner_of d"
  "partner_of (d\<lparr>attachments := ats\<rparr>) = partner_of d"
  "partner_of (d\<lparr>device_push_tokens := ts\<rparr>) = partner_of d"
  "partner_of (d\<lparr>account_profiles := ps\<rparr>) = partner_of d"
  "partner_of (d\<lparr>accounts_id_seq := n\<rparr>) = partner_of d"
  "partner_of (d\<lparr>db_now := t\<rparr>) = partner_of d"
  by (rule ext | simp add: account_ids_def room_ids_def partner_of_def)+

lemma accounts_ok_update [simp]:
  "accounts_ok (d\<lparr>rooms := rs\<rparr>) = accounts_ok d"
  "accounts_ok (d\<lparr>room_members := ms\<rparr>) = accounts_ok d"
  "accounts_ok (d\<lparr>invites := is\<rparr>) = accounts_ok d"
  "accounts_ok (d\<lparr>messages := mm\<rparr>) = accounts_ok d"
  "accounts_ok (d\<lparr>attachments := ats\<rparr>) = accounts_ok d"
  "accounts_ok (d\<lparr>device_push_tokens := ts\<rparr>) = accounts_ok d"
  "accounts_ok (d\<lparr>account_profiles := ps\<rparr>) = accounts_ok d"
  "accounts_ok (d\<lparr>accounts_id_seq := n\<rparr>) = accounts_ok d"
  "accounts_ok (d\<lparr>db_now := t\<rparr>) = accounts_ok d"
  by (simp_all add: accounts_ok_def cong: option.case_cong)

lemma rooms_ok_update [simp]:
  "rooms_ok (d\<lparr>accounts := acs\<rparr>) = rooms_ok d"
  "rooms_ok (d\<lparr>room_members := ms\<rparr>) = rooms_ok d"
  "rooms_ok (d\<lparr>invites := is\<rparr>) = rooms_ok d"
  "rooms_ok (d\<lparr>messages := mm\<rparr>) = rooms_ok d"
  "rooms_ok (d\<lparr>attachments := ats\<rparr>) = rooms_ok d"
  "rooms_ok (d\<lparr>device_push_tokens := ts\<rparr>) = rooms_ok d"
  "rooms_ok (d\<lparr>account_profiles := ps\<rparr>) = rooms_ok d"
  "rooms_ok (d\<lparr>accounts_id_seq := n\<rparr>) = rooms_ok d"
  "rooms_ok (d\<lparr>db_now := t\<rparr>) = rooms_ok d"
  by (simp_all add: rooms_ok_def)

lemma members_ok_update [simp]:
  "members_ok (d\<lparr>invites := is\<rparr>) = members_ok d"
  "members_ok (d\<lparr>messages := mm\<rparr>) = members_ok d"
  "members_ok (d\<lparr>attachments := ats\<rparr>) = members_ok d"
  "members_ok (d\<lparr>device_push_tokens := ts\<rparr>) = members_ok d"
  "members_ok (d\<lparr>account_profiles := ps\<rparr>) = members_ok d"
  "members_ok (d\<lparr>accounts_id_seq := n\<rparr>) = members_ok d"
  "members_ok (d\<lparr>db_now := t\<rparr>) = members_ok d"
  by (simp_all add: members_ok_def)

lemma invites_ok_update [simp]:
  "invites_ok (d\<lparr>room_members := ms\<rparr>) = invites_ok d"
  "invites_ok (d\<lparr>messages := mm\<rparr>) = invites_ok d"
  "invites_ok (d\<lparr>attachments := ats\<rparr>) = invites_ok d"
  "invites_ok (d\<lparr>device_push_tokens := ts\<rparr>) = invites_ok d"
  "invites_ok (d\<lparr>account_profiles := ps\<rparr>) = invites_ok d"
  "invites_ok (d\<lparr>accounts_id_seq := n\<rparr>) = invites_ok d"
  "invites_ok (d\<lparr>db_now := t\<rparr>) = invites_ok d"
  by (simp_all add: invites_ok_def)

lemma messages_ok_update [simp]:
  "messages_ok (d\<lparr>room_members := ms\<rparr>) = messages_ok d"
  "messages_ok (d\<lparr>invites := is\<rparr>) = messages_ok d"
  "messages_ok (d\<lparr>attachments := ats\<rparr>) = messages_ok d"
  "messages_ok (d\<lparr>device_push_tokens := ts\<rparr>) = messages_ok d"
  "messages_ok (d\<lparr>account_profiles := ps\<rparr>) = messages_ok d"
  "messages_ok (d\<lparr>accounts_id_seq := n\<rparr>) = messages_ok d"
  "messages_ok (d\<lparr>db_now := t\<rparr>) = messages_ok d"
  by (simp_all add: messages_ok_def)

lemma attachments_ok_update [simp]:
  "attachments_ok (d\<lparr>room_members := ms\<rparr>) = attachments_ok d"
  "attachments_ok (d\<lparr>invites := is\<rparr>) = attachments_ok d"
  "attachments_ok (d\<lparr>messages := mm\<rparr>) = attachments_ok d"
  "attachments_ok (d\<lparr>device_push_tokens := ts\<rparr>) = attachments_ok d"
  "attachments_ok (d\<lparr>account_profiles := ps\<rparr>) = attachments_ok d"
  "attachments_ok (d\<lparr>accounts_id_seq := n\<rparr>) = attachments_ok d"
  "attachments_ok (d\<lparr>db_now := t\<rparr>) = attachments_ok d"
  by (simp_all add: attachments_ok_def)

lemma tokens_ok_update [simp]:
  "tokens_ok (d\<lparr>rooms := rs\<rparr>) = tokens_ok d"
  "tokens_ok (d\<lparr>room_members := ms\<rparr>) = tokens_ok d"
  "tokens_ok (d\<lparr>invites := is\<rparr>) = tokens_ok d"
  "tokens_ok (d\<lparr>messages := mm\<rparr>) = tokens_ok d"
  "tokens_ok (d\<lparr>attachments := ats\<rparr>) = tokens_ok d"
  "tokens_ok (d\<lparr>account_profiles := ps\<rparr>) = tokens_ok d"
  "tokens_ok (d\<lparr>accounts_id_seq := n\<rparr>) = tokens_ok d"
  "tokens_ok (d\<lparr>db_now := t\<rparr>) = tokens_ok d"
  by (simp_all add: tokens_ok_def)

lemma profiles_ok_update [simp]:
  "profiles_ok (d\<lparr>rooms := rs\<rparr>) = profiles_ok d"
  "profiles_ok (d\<lparr>room_members := ms\<rparr>) = profiles_ok d"
  "profiles_ok (d\<lparr>invites := is\<rparr>) = profiles_ok d"
  "profiles_ok (d\<lparr>messages := mm\<rparr>) = profiles_ok d"
  "profiles_ok (d\<lparr>device_push_tokens := ts\<rparr>) = profiles_ok d"
  "profiles_ok (d\<lparr>accounts_id_seq := n\<rparr>) = profiles_ok d"
  "profiles_ok (d\<lparr>db_now := t\<rparr>) = profiles_ok d"
  by (simp_all add: profiles_ok_def)


end
