(* ===== verification/Store.thy ===== *)
theory Store
  imports Tables
begin

text \<open>
  \<open>server/src/store.rs\<close>: the per-recipient message rows. One logical message is a group of rows with the
  same id, one for each recipient, so (id, recipient) is the key. \<open>ORDER BY id\<close> is the order of the ULID
  texts.
\<close>

record message_row =
  mr_id :: string
  mr_room_id :: string
  mr_from_account_id :: account_id
  mr_recipient_account_id :: account_id
  mr_body :: string
  mr_ts :: timestamp
  mr_read :: bool

definition insert_message :: "message_row \<Rightarrow> unit sql" where
  "insert_message row d =
    (if list_ex (\<lambda>m. ms_id m = mr_id row \<and> ms_recipient_account_id m = mr_recipient_account_id row) (messages d)
     then (Inr (), d)
     else if mr_room_id row \<notin> room_ids d \<or> mr_from_account_id row \<notin> account_ids d
       \<or> mr_recipient_account_id row \<notin> account_ids d then (Inl ForeignKeyViolation, d)
     else (Inr (), d\<lparr>messages := messages d @ [\<lparr>ms_id = mr_id row, ms_room_id = mr_room_id row,
        ms_from_account_id = mr_from_account_id row, ms_recipient_account_id = mr_recipient_account_id row,
        ms_body = mr_body row, ms_ts = mr_ts row, ms_read_at = None\<rparr>]\<rparr>))"

fun insert_each :: "message_row list \<Rightarrow> unit sql" where
  "insert_each [] = sql_read (\<lambda>_. ())"
| "insert_each (row # rows) = sql_then (insert_message row) (\<lambda>_. insert_each rows)"

definition insert_many :: "message_row list \<Rightarrow> unit sql" where
  "insert_many rows = transaction (insert_each rows)"

text \<open>\<open>read_expr\<close>: another recipient of the same message id has it marked read.\<close>

definition read_by_other :: "db \<Rightarrow> message_row_db \<Rightarrow> bool" where
  "read_by_other d m \<longleftrightarrow> list_ex (\<lambda>r. ms_id r = ms_id m \<and>
     ms_recipient_account_id r \<noteq> ms_recipient_account_id m \<and> ms_read_at r \<noteq> None) (messages d)"

definition message_row_of :: "db \<Rightarrow> message_row_db \<Rightarrow> message_row" where
  "message_row_of d m = \<lparr>mr_id = ms_id m, mr_room_id = ms_room_id m,
     mr_from_account_id = ms_from_account_id m, mr_recipient_account_id = ms_recipient_account_id m,
     mr_body = ms_body m, mr_ts = ms_ts m, mr_read = read_by_other d m\<rparr>"

definition messages_for_recipient :: "string \<Rightarrow> account_id \<Rightarrow> string option \<Rightarrow> message_row list sql" where
  "messages_for_recipient rid recipient since = sql_read (\<lambda>d. map (message_row_of d)
     (sort_key ms_id (filter (\<lambda>m. ms_room_id m = rid \<and> ms_recipient_account_id m = recipient \<and>
        (case since of None \<Rightarrow> True | Some s \<Rightarrow> s < ms_id m)) (messages d))))"

definition unread_upto :: "string \<Rightarrow> account_id \<Rightarrow> string \<Rightarrow> message_row_db \<Rightarrow> bool" where
  "unread_upto rid reader up_to m \<longleftrightarrow> ms_room_id m = rid \<and> ms_recipient_account_id m = reader \<and>
     ms_from_account_id m \<noteq> reader \<and> ms_read_at m = None \<and> ms_id m \<le> up_to"

definition mark_read :: "string \<Rightarrow> account_id \<Rightarrow> string \<Rightarrow> (string \<times> account_id) list sql" where
  "mark_read rid reader up_to d =
    (Inr (map (\<lambda>m. (ms_id m, ms_from_account_id m)) (filter (unread_upto rid reader up_to) (messages d))),
     d\<lparr>messages := update_where (unread_upto rid reader up_to)
        (\<lambda>m. m\<lparr>ms_read_at := Some (db_now d)\<rparr>) (messages d)\<rparr>)"

definition read_sent_message_ids :: "string \<Rightarrow> account_id \<Rightarrow> string list sql" where
  "read_sent_message_ids rid sender = sql_read (\<lambda>d. sort (map ms_id (filter (\<lambda>m. ms_room_id m = rid \<and>
     ms_from_account_id m = sender \<and> ms_recipient_account_id m \<noteq> sender \<and> ms_read_at m \<noteq> None)
     (messages d))))"

definition newest_read_incoming_ts :: "string \<Rightarrow> account_id \<Rightarrow> timestamp option sql" where
  "newest_read_incoming_ts rid reader = sql_read (\<lambda>d.
     let ts = map ms_ts (filter (\<lambda>m. ms_room_id m = rid \<and> ms_recipient_account_id m = reader \<and>
       ms_from_account_id m \<noteq> reader \<and> ms_read_at m \<noteq> None) (messages d))
     in if ts = [] then None else Some (Max (set ts)))"

definition unread_count :: "account_id \<Rightarrow> int sql" where
  "unread_count i = sql_read (\<lambda>d. int (length (filter (\<lambda>m. ms_recipient_account_id m = i \<and>
     ms_from_account_id m \<noteq> i \<and> ms_read_at m = None) (messages d))))"

declare insert_message_def [op_defs] mark_read_def [op_defs]

section \<open>What the statements keep\<close>

lemma keeps_insert [intro]: "keeps schema_ok (insert_message row)"
proof (rule keepsI)
  fix d assume "schema_ok d"
  then show "schema_ok (snd (insert_message row d))"
    unfolding insert_message_def schema_ok_def
    by (auto simp: messages_ok_def list_ex_iff)
qed

lemma keeps_insert_each: "(\<And>row. keeps I (insert_message row)) \<Longrightarrow> keeps I (insert_each rows)"
  by (induction rows) (simp_all only: insert_each.simps keeps_read keeps_then)

lemma keeps_insert_many: "(\<And>row. keeps I (insert_message row)) \<Longrightarrow> keeps I (insert_many rows)"
  unfolding insert_many_def by (intro keeps_transaction keeps_insert_each)

lemma mark_read_columns:
  "map (\<lambda>m. (ms_id m, ms_recipient_account_id m)) (messages (snd (mark_read rid reader up_to d))) =
     map (\<lambda>m. (ms_id m, ms_recipient_account_id m)) (messages d)"
  "map ms_room_id (messages (snd (mark_read rid reader up_to d))) = map ms_room_id (messages d)"
  "map ms_from_account_id (messages (snd (mark_read rid reader up_to d))) = map ms_from_account_id (messages d)"
  "map ms_recipient_account_id (messages (snd (mark_read rid reader up_to d))) =
     map ms_recipient_account_id (messages d)"
  "map ms_body (messages (snd (mark_read rid reader up_to d))) = map ms_body (messages d)"
  by (simp_all add: mark_read_def map_update_where)

lemma keeps_mark_read [intro]: "keeps schema_ok (mark_read rid reader up_to)"
proof (rule keepsI)
  fix d assume ok: "schema_ok d"
  then have "messages_ok (snd (mark_read rid reader up_to d))"
    unfolding schema_ok_def messages_ok_def set_map [symmetric] mark_read_columns
    by (simp add: mark_read_def)
  then show "schema_ok (snd (mark_read rid reader up_to d))"
    using ok unfolding mark_read_def schema_ok_def by simp
qed

section \<open>Atomicity of a fan-out\<close>

definition new_message :: "message_row \<Rightarrow> message_row_db" where
  "new_message row = \<lparr>ms_id = mr_id row, ms_room_id = mr_room_id row,
     ms_from_account_id = mr_from_account_id row, ms_recipient_account_id = mr_recipient_account_id row,
     ms_body = mr_body row, ms_ts = mr_ts row, ms_read_at = None\<rparr>"

definition message_keys :: "db \<Rightarrow> (string \<times> account_id) set" where
  "message_keys d = (\<lambda>m. (ms_id m, ms_recipient_account_id m)) ` set (messages d)"

definition row_key :: "message_row \<Rightarrow> string \<times> account_id" where
  "row_key row = (mr_id row, mr_recipient_account_id row)"

definition row_refs_ok :: "db \<Rightarrow> message_row \<Rightarrow> bool" where
  "row_refs_ok d row \<longleftrightarrow> mr_room_id row \<in> room_ids d \<and> mr_from_account_id row \<in> account_ids d \<and>
     mr_recipient_account_id row \<in> account_ids d"

lemma insert_eq:
  "insert_message row d = (if row_key row \<in> message_keys d then (Inr (), d)
     else if \<not> row_refs_ok d row then (Inl ForeignKeyViolation, d)
     else (Inr (), d\<lparr>messages := messages d @ [new_message row]\<rparr>))"
proof -
  have "list_ex (\<lambda>m. ms_id m = mr_id row \<and> ms_recipient_account_id m = mr_recipient_account_id row) (messages d)
      \<longleftrightarrow> row_key row \<in> message_keys d"
    unfolding row_key_def message_keys_def list_ex_iff image_iff prod.inject by metis
  then show ?thesis
    by (auto simp: insert_message_def row_refs_ok_def new_message_def)
qed

lemma message_keys_append [simp]:
  "message_keys (d\<lparr>messages := messages d @ ms\<rparr>) =
     message_keys d \<union> (\<lambda>m. (ms_id m, ms_recipient_account_id m)) ` set ms"
  by (auto simp: message_keys_def)

lemma row_refs_ok_messages [simp]: "row_refs_ok (d\<lparr>messages := ms\<rparr>) row = row_refs_ok d row"
  by (simp add: row_refs_ok_def)

lemma key_new_message [simp]:
  "ms_id (new_message row) = mr_id row"
  "ms_recipient_account_id (new_message row) = mr_recipient_account_id row"
  by (simp_all add: new_message_def)

lemma insert_each_fresh:
  "distinct (map row_key rows) \<Longrightarrow> row_key ` set rows \<inter> message_keys d = {} \<Longrightarrow>
   (if list_all (row_refs_ok d) rows
    then insert_each rows d = (Inr (), d\<lparr>messages := messages d @ map new_message rows\<rparr>)
    else fst (insert_each rows d) = Inl ForeignKeyViolation)"
proof (induction rows arbitrary: d)
  case Nil
  then show ?case by simp
next
  case (Cons row rows)
  let ?d = "d\<lparr>messages := messages d @ [new_message row]\<rparr>"
  have "row_key ` set rows \<inter> message_keys ?d = {}"
    using Cons.prems by (auto simp: row_key_def)
  then show ?case
    using Cons.IH [of ?d] Cons.prems
    by (auto simp: sql_then_def insert_eq split: if_splits)
qed

lemma insert_many_fresh:
  assumes "distinct (map row_key rows)" and "row_key ` set rows \<inter> message_keys d = {}"
  shows "insert_many rows d =
    (if list_all (row_refs_ok d) rows
     then (Inr (), d\<lparr>messages := messages d @ map new_message rows\<rparr>)
     else (Inl ForeignKeyViolation, d))"
  using insert_each_fresh [OF assms]
  by (cases "insert_each rows d") (auto simp: insert_many_def transaction_def split: if_splits)

section \<open>Properties\<close>

text \<open>
  A fan-out is atomic: when the ids are new, either every recipient gets exactly one unread row, in
  order, or one of the rows refers to a missing room or account and the table is left untouched.
\<close>

theorem insert_many_atomic:
  assumes "distinct (map (\<lambda>r. (mr_id r, mr_recipient_account_id r)) rows)"
    and "\<And>r m. r \<in> set rows \<Longrightarrow> m \<in> set (messages d) \<Longrightarrow> ms_id m \<noteq> mr_id r"
  shows "insert_many rows d =
    (if list_all (row_refs_ok d) rows
     then (Inr (), d\<lparr>messages := messages d @ map new_message rows\<rparr>)
     else (Inl ForeignKeyViolation, d))"
proof (rule insert_many_fresh)
  show "distinct (map row_key rows)"
    using assms(1) by (simp add: row_key_def distinct_map inj_on_def)
  show "row_key ` set rows \<inter> message_keys d = {}"
    using assms(2) by (fastforce simp: row_key_def message_keys_def)
qed

theorem insert_many_atomic_witness:
  "insert_many [\<lparr>mr_id = ''M'', mr_room_id = ''R'', mr_from_account_id = 1, mr_recipient_account_id = 1,
     mr_body = ''c'', mr_ts = 0, mr_read = False\<rparr>] empty_db = (Inl ForeignKeyViolation, empty_db)"
proof -
  let ?row = "\<lparr>mr_id = ''M'', mr_room_id = ''R'', mr_from_account_id = 1, mr_recipient_account_id = 1,
     mr_body = ''c'', mr_ts = 0, mr_read = False\<rparr>"
  have "insert_many [?row] empty_db =
      (if list_all (row_refs_ok empty_db) [?row]
       then (Inr (), empty_db\<lparr>messages := messages empty_db @ map new_message [?row]\<rparr>)
       else (Inl ForeignKeyViolation, empty_db))"
    by (rule insert_many_atomic) (simp_all add: empty_db_def)
  then show ?thesis
    by (simp add: row_refs_ok_def room_ids_def empty_db_def)
qed

text \<open>
  Marking as read is idempotent and monotone: it answers with the rows it flips, each of which was an
  unread row of another sender addressed to the reader at or below the watermark, and a second call with
  any watermark at or below the first flips nothing and changes nothing.
\<close>

theorem mark_read_idempotent:
  assumes "lower \<le> up_to" and "mark_read rid reader up_to d = (r, d1)"
  shows "mark_read rid reader lower d1 = (Inr [], d1) \<and>
    r = Inr (map (\<lambda>m. (ms_id m, ms_from_account_id m)) (filter (unread_upto rid reader up_to) (messages d)))"
proof -
  have d1: "messages d1 = update_where (unread_upto rid reader up_to)
      (\<lambda>m. m\<lparr>ms_read_at := Some (db_now d)\<rparr>) (messages d)"
    using assms(2) by (auto simp: mark_read_def)
  have none: "\<not> unread_upto rid reader lower m" if "m \<in> set (messages d1)" for m
    using that assms(1) unfolding d1 by (auto simp: unread_upto_def dest!: in_update_whereD)
  have "filter (unread_upto rid reader lower) (messages d1) = []"
    using none by (simp add: filter_empty_conv)
  moreover have "update_where (unread_upto rid reader lower) f (messages d1) = messages d1" for f
    using none by (rule update_where_id)
  ultimately show ?thesis
    using assms(2) by (auto simp: mark_read_def)
qed

definition one_unread :: db where
  "one_unread = empty_db\<lparr>messages := [\<lparr>ms_id = ''M'', ms_room_id = ''R'', ms_from_account_id = 1,
     ms_recipient_account_id = 2, ms_body = ''c'', ms_ts = 0, ms_read_at = None\<rparr>]\<rparr>"

theorem mark_read_idempotent_witness:
  "fst (mark_read ''R'' 2 ''M'' one_unread) = Inr [(''M'', 1)] \<and>
   fst (mark_read ''R'' 2 ''M'' (snd (mark_read ''R'' 2 ''M'' one_unread))) = Inr []"
proof -
  obtain r d1 where r: "mark_read ''R'' 2 ''M'' one_unread = (r, d1)" by fastforce
  have "mark_read ''R'' 2 ''M'' d1 = (Inr [], d1) \<and>
      r = Inr (map (\<lambda>m. (ms_id m, ms_from_account_id m)) (filter (unread_upto ''R'' 2 ''M'') (messages one_unread)))"
    by (rule mark_read_idempotent [OF order_refl r])
  moreover have "filter (unread_upto ''R'' 2 ''M'') (messages one_unread) = messages one_unread"
    by (simp add: one_unread_def unread_upto_def)
  ultimately show ?thesis
    unfolding r by (simp add: one_unread_def r)
qed

end
