(* ===== verification/Registry.thy ===== *)
theory Registry
  imports Tables
begin

text \<open>
  \<open>server/src/push_tokens.rs\<close>, \<open>server/src/profiles.rs\<close> and \<open>server/src/attachments.rs\<close>: the tables a session
  writes through on behalf of its own account. The first two are upserts and satisfy the contract
  \<open>keyed_table\<close>.
\<close>

section \<open>Push tokens\<close>

record device_token =
  dt_apns_token :: string
  dt_environment :: string

definition KIND_ALERT :: string where "KIND_ALERT = ''alert''"
definition KIND_VOIP :: string where "KIND_VOIP = ''voip''"

definition token_key :: "push_token_row \<Rightarrow> account_id \<times> string \<times> string" where
  "token_key t = (pt_account_id t, pt_device_id t, pt_kind t)"

definition upsert_token :: "account_id \<Rightarrow> string \<Rightarrow> string \<Rightarrow> string \<Rightarrow> string \<Rightarrow> unit sql" where
  "upsert_token i device token environment kind d =
    (if list_ex (\<lambda>t. token_key t = (i, device, kind)) (device_push_tokens d)
     then (Inr (), d\<lparr>device_push_tokens := update_where (\<lambda>t. token_key t = (i, device, kind))
        (\<lambda>t. t\<lparr>pt_apns_token := token, pt_environment := environment, pt_updated_at := db_now d\<rparr>)
        (device_push_tokens d)\<rparr>)
     else if i \<notin> account_ids d then (Inl ForeignKeyViolation, d)
     else (Inr (), d\<lparr>device_push_tokens := device_push_tokens d @
        [\<lparr>pt_account_id = i, pt_device_id = device, pt_apns_token = token, pt_environment = environment,
          pt_kind = kind, pt_updated_at = db_now d\<rparr>]\<rparr>))"

definition delete_token :: "account_id \<Rightarrow> string \<Rightarrow> unit sql" where
  "delete_token i device d = (Inr (), d\<lparr>device_push_tokens :=
     filter (\<lambda>t. \<not> (pt_account_id t = i \<and> pt_device_id t = device)) (device_push_tokens d)\<rparr>)"

definition delete_token_value :: "account_id \<Rightarrow> string \<Rightarrow> unit sql" where
  "delete_token_value i token d = (Inr (), d\<lparr>device_push_tokens :=
     filter (\<lambda>t. \<not> (pt_account_id t = i \<and> pt_apns_token t = token)) (device_push_tokens d)\<rparr>)"

definition tokens_of_kind :: "account_id \<Rightarrow> string \<Rightarrow> device_token list sql" where
  "tokens_of_kind i kind = sql_read (\<lambda>d.
     map (\<lambda>t. \<lparr>dt_apns_token = pt_apns_token t, dt_environment = pt_environment t\<rparr>)
       (filter (\<lambda>t. pt_account_id t = i \<and> pt_kind t = kind) (device_push_tokens d)))"

definition tokens_for_account :: "account_id \<Rightarrow> device_token list sql" where
  "tokens_for_account i = tokens_of_kind i KIND_ALERT"

definition voip_tokens_for :: "account_id \<Rightarrow> device_token list sql" where
  "voip_tokens_for i = tokens_of_kind i KIND_VOIP"

section \<open>Profiles\<close>

record stored_profile =
  sp_envelope :: bytes
  sp_avatar_key :: "string option"
  sp_updated_at :: timestamp

definition upsert_profile :: "account_id \<Rightarrow> bytes \<Rightarrow> string option \<Rightarrow> unit sql" where
  "upsert_profile i envelope avatar d =
    (if (case avatar of None \<Rightarrow> False | Some k \<Rightarrow> k \<notin> at_blob_key ` set (attachments d))
       \<or> i \<notin> account_ids d then (Inl ForeignKeyViolation, d)
     else if list_ex (\<lambda>p. pf_account_id p = i) (account_profiles d)
     then (Inr (), d\<lparr>account_profiles := update_where (\<lambda>p. pf_account_id p = i)
        (\<lambda>p. p\<lparr>pf_envelope := envelope, pf_avatar_key := avatar, pf_updated_at := db_now d\<rparr>)
        (account_profiles d)\<rparr>)
     else (Inr (), d\<lparr>account_profiles := account_profiles d @ [\<lparr>pf_account_id = i,
        pf_envelope = envelope, pf_avatar_key = avatar, pf_updated_at = db_now d\<rparr>]\<rparr>))"

definition profile_by_id :: "account_id \<Rightarrow> db \<Rightarrow> profile_row option" where
  "profile_by_id i d = find_first (\<lambda>p. pf_account_id p = i) (account_profiles d)"

definition profile_for_account :: "account_id \<Rightarrow> stored_profile option sql" where
  "profile_for_account i = sql_read (\<lambda>d. map_option
     (\<lambda>p. \<lparr>sp_envelope = pf_envelope p, sp_avatar_key = pf_avatar_key p, sp_updated_at = pf_updated_at p\<rparr>)
     (profile_by_id i d))"

section \<open>Attachments\<close>

definition insert_attachment :: "string \<Rightarrow> string \<Rightarrow> account_id \<Rightarrow> int \<Rightarrow> unit sql" where
  "insert_attachment key rid i bsize d =
    (if key \<in> at_blob_key ` set (attachments d) then (Inl UniqueViolation, d)
     else if rid \<notin> room_ids d \<or> i \<notin> account_ids d then (Inl ForeignKeyViolation, d)
     else (Inr (), d\<lparr>attachments := attachments d @ [\<lparr>at_blob_key = key, at_room_id = rid,
        at_uploader_account_id = i, at_byte_size = bsize, at_committed = False,
        at_created_at = db_now d\<rparr>]\<rparr>))"

definition room_of_blob :: "string \<Rightarrow> db \<Rightarrow> string option" where
  "room_of_blob key d = map_option at_room_id (find_first (\<lambda>t. at_blob_key t = key) (attachments d))"

definition attachment_room :: "string \<Rightarrow> string option sql" where
  "attachment_room key = sql_read (room_of_blob key)"

declare upsert_token_def [op_defs] delete_token_def [op_defs] delete_token_value_def [op_defs]
  upsert_profile_def [op_defs] insert_attachment_def [op_defs]

section \<open>What the statements keep\<close>

lemma keeps_upsert_token [intro]: "keeps schema_ok (upsert_token i device token environment kind)"
proof (rule keepsI)
  fix d assume ok: "schema_ok d"
  then have "tokens_ok (snd (upsert_token i device token environment kind d))"
    unfolding schema_ok_def tokens_ok_def upsert_token_def list_ex_iff token_key_def
    by (auto simp: map_update_where dest!: in_update_whereD)
  then show "schema_ok (snd (upsert_token i device token environment kind d))"
    using ok unfolding upsert_token_def schema_ok_def by auto
qed

lemma keeps_delete_token [intro]:
  "keeps schema_ok (delete_token i device)" "keeps schema_ok (delete_token_value i token)"
  by (auto intro!: keepsI simp: delete_token_def delete_token_value_def schema_ok_def tokens_ok_def
      distinct_map_filter subset_eq)

lemma keeps_upsert_profile [intro]: "keeps schema_ok (upsert_profile i envelope avatar)"
proof (rule keepsI)
  fix d assume ok: "schema_ok d"
  then have "profiles_ok (snd (upsert_profile i envelope avatar d))"
    unfolding schema_ok_def profiles_ok_def upsert_profile_def list_ex_iff
    by (auto simp: map_update_where split: option.splits dest!: in_update_whereD)
  then show "schema_ok (snd (upsert_profile i envelope avatar d))"
    using ok unfolding upsert_profile_def schema_ok_def by auto
qed

lemma keeps_insert_attachment [intro]: "keeps schema_ok (insert_attachment key rid i bsize)"
proof (rule keepsI)
  fix d assume ok: "schema_ok d"
  then have "attachments_ok (snd (insert_attachment key rid i bsize d))"
      "profiles_ok (snd (insert_attachment key rid i bsize d))"
    unfolding schema_ok_def attachments_ok_def profiles_ok_def insert_attachment_def by auto
  then show "schema_ok (snd (insert_attachment key rid i bsize d))"
    using ok unfolding insert_attachment_def schema_ok_def by auto
qed

section \<open>The upserts as keyed tables\<close>

definition put_token :: "account_id \<times> string \<times> string \<Rightarrow> string \<times> string \<Rightarrow> db \<Rightarrow> db" where
  "put_token k v d = (case (k, v) of ((i, device, kind), (token, environment)) \<Rightarrow>
     snd (upsert_token i device token environment kind d))"

definition get_token :: "db \<Rightarrow> account_id \<times> string \<times> string \<Rightarrow> (string \<times> string) option" where
  "get_token d k = map_option (\<lambda>t. (pt_apns_token t, pt_environment t))
     (find_first (\<lambda>t. token_key t = k) (device_push_tokens d))"

definition put_profile :: "account_id \<Rightarrow> bytes \<times> string option \<Rightarrow> db \<Rightarrow> db" where
  "put_profile i v d = (case v of (envelope, avatar) \<Rightarrow> snd (upsert_profile i envelope avatar d))"

definition get_profile :: "db \<Rightarrow> account_id \<Rightarrow> (bytes \<times> string option) option" where
  "get_profile d i = map_option (\<lambda>p. (pf_envelope p, pf_avatar_key p)) (profile_by_id i d)"

definition profile_refs :: "db \<Rightarrow> account_id \<Rightarrow> bytes \<times> string option \<Rightarrow> bool" where
  "profile_refs d i v \<longleftrightarrow> i \<in> account_ids d \<and>
     (case snd v of None \<Rightarrow> True | Some k \<Rightarrow> k \<in> at_blob_key ` set (attachments d))"

lemma upsert_find:
  assumes "\<And>x. key (f x) = key x" and "key new = k"
  shows "map_option val (find_first (\<lambda>x. key x = k')
      (if list_ex (\<lambda>x. key x = k) xs then update_where (\<lambda>x. key x = k) f xs else xs @ [new])) =
    (if k' = k then Some (if list_ex (\<lambda>x. key x = k) xs then val (f (the (find_first (\<lambda>x. key x = k) xs)))
       else val new)
     else map_option val (find_first (\<lambda>x. key x = k') xs))"
proof -
  have "find_first (\<lambda>x. key x = k') (update_where (\<lambda>x. key x = k) f xs) =
      map_option (\<lambda>x. if key x = k then f x else x) (find_first (\<lambda>x. key x = k') xs)"
    by (rule find_first_update_where) (simp add: assms(1))
  moreover have "\<not> list_ex (\<lambda>x. key x = k) xs \<longleftrightarrow> find_first (\<lambda>x. key x = k) xs = None"
    by (auto simp: find_first_None_iff list_ex_iff)
  ultimately show ?thesis
    using assms(2)
    by (auto simp: find_first_append map_option.compositionality o_def split: option.splits
        dest: find_first_SomeD)
qed

lemma get_token_after:
  assumes "i \<in> account_ids d"
  shows "get_token (snd (upsert_token i device token environment kind d)) k' =
    (if k' = (i, device, kind) then Some (token, environment) else get_token d k')"
proof -
  let ?k = "(i, device, kind)"
  let ?f = "\<lambda>t. t\<lparr>pt_apns_token := token, pt_environment := environment, pt_updated_at := db_now d\<rparr>"
  let ?new = "\<lparr>pt_account_id = i, pt_device_id = device, pt_apns_token = token,
    pt_environment = environment, pt_kind = kind, pt_updated_at = db_now d\<rparr>"
  have "device_push_tokens (snd (upsert_token i device token environment kind d)) =
      (if list_ex (\<lambda>t. token_key t = ?k) (device_push_tokens d)
       then update_where (\<lambda>t. token_key t = ?k) ?f (device_push_tokens d) else device_push_tokens d @ [?new])"
    using assms by (simp add: upsert_token_def)
  moreover have "map_option (\<lambda>t. (pt_apns_token t, pt_environment t)) (find_first (\<lambda>t. token_key t = k')
      (if list_ex (\<lambda>t. token_key t = ?k) (device_push_tokens d)
       then update_where (\<lambda>t. token_key t = ?k) ?f (device_push_tokens d) else device_push_tokens d @ [?new])) =
    (if k' = ?k then Some (token, environment)
     else map_option (\<lambda>t. (pt_apns_token t, pt_environment t)) (find_first (\<lambda>t. token_key t = k') (device_push_tokens d)))"
    by (subst upsert_find [of token_key ?f ?new ?k]) (simp_all add: token_key_def)
  ultimately show ?thesis
    unfolding get_token_def by (simp only:)
qed

lemma get_profile_after:
  assumes "i \<in> account_ids d" and "case avatar of None \<Rightarrow> True | Some k \<Rightarrow> k \<in> at_blob_key ` set (attachments d)"
  shows "get_profile (snd (upsert_profile i envelope avatar d)) k' =
    (if k' = i then Some (envelope, avatar) else get_profile d k')"
proof -
  let ?f = "\<lambda>p. p\<lparr>pf_envelope := envelope, pf_avatar_key := avatar, pf_updated_at := db_now d\<rparr>"
  let ?new = "\<lparr>pf_account_id = i, pf_envelope = envelope, pf_avatar_key = avatar, pf_updated_at = db_now d\<rparr>"
  have "account_profiles (snd (upsert_profile i envelope avatar d)) =
      (if list_ex (\<lambda>p. pf_account_id p = i) (account_profiles d)
       then update_where (\<lambda>p. pf_account_id p = i) ?f (account_profiles d) else account_profiles d @ [?new])"
    using assms by (simp add: upsert_profile_def split: option.splits)
  moreover have "map_option (\<lambda>p. (pf_envelope p, pf_avatar_key p)) (find_first (\<lambda>p. pf_account_id p = k')
      (if list_ex (\<lambda>p. pf_account_id p = i) (account_profiles d)
       then update_where (\<lambda>p. pf_account_id p = i) ?f (account_profiles d) else account_profiles d @ [?new])) =
    (if k' = i then Some (envelope, avatar)
     else map_option (\<lambda>p. (pf_envelope p, pf_avatar_key p)) (find_first (\<lambda>p. pf_account_id p = k') (account_profiles d)))"
    by (subst upsert_find [of pf_account_id ?f ?new i]) simp_all
  ultimately show ?thesis
    unfolding get_profile_def profile_by_id_def by (simp only:)
qed

interpretation token_table: keyed_table put_token get_token tokens_ok
  "\<lambda>d k v. fst k \<in> account_ids d"
proof
  fix d :: db and k k' :: "account_id \<times> string \<times> string" and v v' :: "string \<times> string"
  obtain i device kind where k: "k = (i, device, kind)" by (cases k)
  obtain token environment where v: "v = (token, environment)" by (cases v)
  show "fst k' \<in> account_ids (put_token k v d) \<longleftrightarrow> fst k' \<in> account_ids d"
    by (simp add: k v put_token_def upsert_token_def)
  show "tokens_ok (put_token k v d)" if "tokens_ok d"
    using that unfolding tokens_ok_def put_token_def upsert_token_def list_ex_iff token_key_def k v
    by (auto simp: map_update_where dest!: in_update_whereD)
  show "get_token (put_token k v d) k' = (if k' = k then Some v else get_token d k')"
    if "tokens_ok d" "fst k \<in> account_ids d"
    using that by (simp add: get_token_after k v put_token_def token_key_def)
qed

interpretation profile_table: keyed_table put_profile get_profile profiles_ok profile_refs
proof
  fix d :: db and k k' :: account_id and v v' :: "bytes \<times> string option"
  obtain envelope avatar where v: "v = (envelope, avatar)" by (cases v)
  show "profile_refs (put_profile k v d) k' v' \<longleftrightarrow> profile_refs d k' v'"
    by (simp add: v put_profile_def upsert_profile_def profile_refs_def cong: option.case_cong)
  show "profiles_ok (put_profile k v d)" if "profiles_ok d"
    using that unfolding profiles_ok_def put_profile_def upsert_profile_def list_ex_iff v
    by (auto simp: map_update_where split: option.splits dest!: in_update_whereD)
  show "get_profile (put_profile k v d) k' = (if k' = k then Some v else get_profile d k')"
    if "profiles_ok d" "profile_refs d k v"
    using that by (simp add: get_profile_after v put_profile_def profile_refs_def split: option.splits)
qed

lemma tokens_of_kind_exact:
  assumes "tokens_ok d" and "tokens_of_kind i kind d = (Inr ts, d1)"
  shows "set ts = {\<lparr>dt_apns_token = a, dt_environment = e\<rparr> | a e. \<exists>device. get_token d (i, device, kind) = Some (a, e)}
    \<and> length ts = card {device. get_token d (i, device, kind) \<noteq> None}"
proof -
  let ?mine = "filter (\<lambda>t. pt_account_id t = i \<and> pt_kind t = kind) (device_push_tokens d)"
  have dist: "distinct (map token_key (device_push_tokens d))"
    using assms(1) by (simp add: tokens_ok_def token_key_def [abs_def])
  have ts: "ts = map (\<lambda>t. \<lparr>dt_apns_token = pt_apns_token t, dt_environment = pt_environment t\<rparr>) ?mine"
    using assms(2) by (auto simp: tokens_of_kind_def)
  have get: "get_token d (i, device, kind) = Some (a, e) \<longleftrightarrow>
      (\<exists>t \<in> set ?mine. pt_device_id t = device \<and> pt_apns_token t = a \<and> pt_environment t = e)" for device a e
  proof
    assume "get_token d (i, device, kind) = Some (a, e)"
    then show "\<exists>t \<in> set ?mine. pt_device_id t = device \<and> pt_apns_token t = a \<and> pt_environment t = e"
      by (auto simp: get_token_def token_key_def dest!: find_first_SomeD)
  next
    assume "\<exists>t \<in> set ?mine. pt_device_id t = device \<and> pt_apns_token t = a \<and> pt_environment t = e"
    then obtain t where t: "t \<in> set (device_push_tokens d)" "token_key t = (i, device, kind)"
        "pt_apns_token t = a" "pt_environment t = e"
      by (auto simp: token_key_def)
    then show "get_token d (i, device, kind) = Some (a, e)"
      using find_first_unique [OF dist t(1)] by (simp add: get_token_def)
  qed
  have "inj_on pt_device_id (set ?mine)"
    by (rule inj_onI) (auto simp: token_key_def intro!: distinct_map_inj_eq [OF dist])
  moreover have "distinct ?mine"
    using dist by (simp add: distinct_map)
  moreover have "{device. get_token d (i, device, kind) \<noteq> None} = pt_device_id ` set ?mine"
    using get by fastforce
  ultimately have "length ts = card {device. get_token d (i, device, kind) \<noteq> None}"
    using distinct_card [of ?mine] by (simp add: ts card_image)
  moreover have "x \<in> set ts \<longleftrightarrow> x \<in> {\<lparr>dt_apns_token = a, dt_environment = e\<rparr> | a e.
      \<exists>device. get_token d (i, device, kind) = Some (a, e)}" for x
    unfolding get ts set_map mem_Collect_eq image_iff by blast
  ultimately show ?thesis by blast
qed

section \<open>Properties\<close>

text \<open>
  After any sequence of registrations a device has, for each kind of token, exactly the token and
  environment it registered last, and no registration of another account, device or kind disturbs it.
\<close>

theorem token_last_registration_wins:
  assumes "schema_ok d" and "list_all (\<lambda>(k, v). fst k \<in> account_ids d) regs"
  shows "get_token (fold (\<lambda>(k, v). put_token k v) regs d) k =
    (case map_of (rev regs) k of Some v \<Rightarrow> Some v | None \<Rightarrow> get_token d k)"
  using assms by (intro token_table.last_put_wins) (auto simp: schema_ok_def)

definition one_account :: db where
  "one_account = empty_db\<lparr>accounts := [\<lparr>acc_id = 1, acc_username = ''court'', acc_ed25519_pub = [],
     acc_x25519_pub = [], acc_created_at = 0, acc_partner_account_id = None, acc_last_seen_at = None\<rparr>],
     accounts_id_seq := 2\<rparr>"

lemma schema_one_account [simp]: "schema_ok one_account" "account_ids one_account = {1}"
  by (simp_all add: schema_ok_def schema_defs one_account_def empty_db_def account_ids_def partner_of_def)

theorem token_last_registration_wins_witness:
  "get_token (fold (\<lambda>(k, v). put_token k v)
     [((1, ''phone'', KIND_ALERT), (''old'', ''sandbox'')), ((1, ''phone'', KIND_VOIP), (''ring'', ''sandbox'')),
      ((1, ''phone'', KIND_ALERT), (''new'', ''production''))] one_account) (1, ''phone'', KIND_ALERT) =
   Some (''new'', ''production'')"
  by (subst token_last_registration_wins) (simp_all add: KIND_ALERT_def KIND_VOIP_def)

text \<open>
  A push fan-out never mixes the two kinds of token: the alert fan-out of an account reads exactly the
  tokens registered as \<open>alert\<close> and the call wake exactly those registered as \<open>voip\<close>, and no device is
  listed twice in either.
\<close>

theorem push_kinds_separate:
  assumes "tokens_ok d" and "tokens_for_account i d = (Inr alerts, d1)" and "voip_tokens_for i d = (Inr voips, d2)"
  shows "set alerts = {\<lparr>dt_apns_token = a, dt_environment = e\<rparr> | a e.
        \<exists>device. get_token d (i, device, ''alert'') = Some (a, e)}
    \<and> length alerts = card {device. get_token d (i, device, ''alert'') \<noteq> None}
    \<and> set voips = {\<lparr>dt_apns_token = a, dt_environment = e\<rparr> | a e.
        \<exists>device. get_token d (i, device, ''voip'') = Some (a, e)}
    \<and> length voips = card {device. get_token d (i, device, ''voip'') \<noteq> None}"
  using tokens_of_kind_exact [OF assms(1)] assms(2,3)
  by (simp add: tokens_for_account_def voip_tokens_for_def KIND_ALERT_def KIND_VOIP_def)

definition ringing_account :: db where
  "ringing_account = put_token (1, ''phone'', KIND_VOIP) (''ring'', ''sandbox'') one_account"

theorem push_kinds_separate_witness:
  "tokens_for_account 1 ringing_account = (Inr [], ringing_account) \<and>
   voip_tokens_for 1 ringing_account = (Inr [\<lparr>dt_apns_token = ''ring'', dt_environment = ''sandbox''\<rparr>], ringing_account) \<and>
   card {device. get_token ringing_account (1, device, ''voip'') \<noteq> None} = 1"
proof -
  have "tokens_ok ringing_account"
    unfolding ringing_account_def using schema_one_account
    by (intro token_table.put_ok) (simp add: schema_ok_def)
  moreover have "tokens_for_account 1 ringing_account = (Inr [], ringing_account)"
    "voip_tokens_for 1 ringing_account = (Inr [\<lparr>dt_apns_token = ''ring'', dt_environment = ''sandbox''\<rparr>], ringing_account)"
    unfolding tokens_for_account_def voip_tokens_for_def ringing_account_def put_token_def one_account_def
    by (simp_all add: tokens_of_kind_def upsert_token_def account_ids_def empty_db_def KIND_ALERT_def KIND_VOIP_def)
  ultimately show ?thesis
    using push_kinds_separate by fastforce
qed

end
