(* ===== verification/Accounts.thy ===== *)
theory Accounts
  imports Tables Crates
begin

text \<open>
  \<open>server/src/accounts.rs\<close>: user name and key validation and the statements on \<open>accounts\<close>. The two REST
  handlers are in theory Rest, over these statements.
\<close>

record account_record =
  me_id :: account_id
  me_username :: string
  me_ed25519_pub :: bytes
  me_x25519_pub :: bytes
  me_partner_account_id :: "account_id option"

definition is_ascii_lowercase :: "char \<Rightarrow> bool" where
  "is_ascii_lowercase c \<longleftrightarrow> CHR ''a'' \<le> c \<and> c \<le> CHR ''z''"

definition is_ascii_digit :: "char \<Rightarrow> bool" where
  "is_ascii_digit c \<longleftrightarrow> CHR ''0'' \<le> c \<and> c \<le> CHR ''9''"

definition username_ok :: "string \<Rightarrow> bool" where
  "username_ok u \<longleftrightarrow> 3 \<le> length u \<and> length u \<le> 20 \<and>
     list_all (\<lambda>b. is_ascii_lowercase b \<or> is_ascii_digit b \<or> b = CHR ''_'') u"

definition decode_pubkey :: "crates \<Rightarrow> string \<Rightarrow> bytes option" where
  "decode_pubkey C s =
    (case b64_decode C s of None \<Rightarrow> None | Some bs \<Rightarrow> if length bs = 32 then Some bs else None)"

text \<open>
  \<open>INSERT INTO accounts ... RETURNING created_at\<close>. The id comes from the table's sequence, which
  advances even when the insertion then violates the unique user name.
\<close>

definition insert_account :: "string \<Rightarrow> bytes \<Rightarrow> bytes \<Rightarrow> timestamp sql" where
  "insert_account u ed x d =
    (let i = accounts_id_seq d; d' = d\<lparr>accounts_id_seq := i + 1\<rparr> in
     if i \<in> account_ids d \<or> u \<in> acc_username ` set (accounts d) then (Inl UniqueViolation, d')
     else (Inr (db_now d),
           d'\<lparr>accounts := accounts d @ [\<lparr>acc_id = i, acc_username = u, acc_ed25519_pub = ed,
               acc_x25519_pub = x, acc_created_at = db_now d, acc_partner_account_id = None,
               acc_last_seen_at = None\<rparr>]\<rparr>))"

definition account_by_name :: "string \<Rightarrow> db \<Rightarrow> account_row option" where
  "account_by_name u d = find_first (\<lambda>a. acc_username a = u) (accounts d)"

definition account_by_id :: "account_id \<Rightarrow> db \<Rightarrow> account_row option" where
  "account_by_id i d = find_first (\<lambda>a. acc_id a = i) (accounts d)"

definition select_account :: "string \<Rightarrow> (string \<times> bytes \<times> bytes \<times> timestamp) option sql" where
  "select_account u = sql_read (\<lambda>d. map_option
     (\<lambda>a. (acc_username a, acc_ed25519_pub a, acc_x25519_pub a, acc_created_at a)) (account_by_name u d))"

definition lookup_ed25519_pub :: "string \<Rightarrow> bytes option sql" where
  "lookup_ed25519_pub u = sql_read (\<lambda>d. map_option acc_ed25519_pub (account_by_name u d))"

definition touch_last_seen :: "account_id \<Rightarrow> unit sql" where
  "touch_last_seen i d =
    (Inr (), d\<lparr>accounts := update_where (\<lambda>a. acc_id a = i)
       (\<lambda>a. a\<lparr>acc_last_seen_at := Some (db_now d)\<rparr>) (accounts d)\<rparr>)"

definition last_seen_for :: "account_id \<Rightarrow> timestamp option sql" where
  "last_seen_for i = sql_read (\<lambda>d. case account_by_id i d of None \<Rightarrow> None | Some a \<Rightarrow> acc_last_seen_at a)"

definition full_account_record :: "account_row \<Rightarrow> account_record" where
  "full_account_record a = \<lparr>me_id = acc_id a, me_username = acc_username a,
     me_ed25519_pub = acc_ed25519_pub a, me_x25519_pub = acc_x25519_pub a,
     me_partner_account_id = acc_partner_account_id a\<rparr>"

definition lookup_full_account :: "string \<Rightarrow> account_record option sql" where
  "lookup_full_account u = sql_read (\<lambda>d. map_option full_account_record (account_by_name u d))"

definition lookup_full_account_by_id :: "account_id \<Rightarrow> account_record option sql" where
  "lookup_full_account_by_id i = sql_read (\<lambda>d. map_option full_account_record (account_by_id i d))"

declare touch_last_seen_def [op_defs]

section \<open>Lookups\<close>

lemma account_by_id_SomeD: "account_by_id i d = Some a \<Longrightarrow> a \<in> set (accounts d) \<and> acc_id a = i"
  by (auto simp: account_by_id_def dest: find_first_SomeD)

lemma account_by_name_SomeD:
  "account_by_name u d = Some a \<Longrightarrow> a \<in> set (accounts d) \<and> acc_username a = u"
  by (auto simp: account_by_name_def dest: find_first_SomeD)

lemma account_by_id_None_iff: "account_by_id i d = None \<longleftrightarrow> i \<notin> account_ids d"
  by (auto simp: account_by_id_def find_first_None_iff account_ids_def)

lemma account_by_id_unique:
  "distinct (map acc_id (accounts d)) \<Longrightarrow> a \<in> set (accounts d) \<Longrightarrow> account_by_id (acc_id a) d = Some a"
  by (simp add: account_by_id_def find_first_unique)

lemma touch_last_seen_frame [simp]:
  "map acc_id (accounts (snd (touch_last_seen i d))) = map acc_id (accounts d)"
  "map acc_username (accounts (snd (touch_last_seen i d))) = map acc_username (accounts d)"
  "map acc_partner_account_id (accounts (snd (touch_last_seen i d))) = map acc_partner_account_id (accounts d)"
  by (simp_all add: touch_last_seen_def map_update_where)

section \<open>Constraints\<close>

lemma account_ids_append [simp]:
  "account_ids (d\<lparr>accounts := accounts d @ [a]\<rparr>) = insert (acc_id a) (account_ids d)"
  by (simp add: account_ids_def)

lemma partner_of_append:
  "acc_id a \<notin> account_ids d \<Longrightarrow> acc_partner_account_id a = None \<Longrightarrow>
     partner_of (d\<lparr>accounts := accounts d @ [a]\<rparr>) = partner_of d"
  by (rule ext) (auto simp: partner_of_def map_add_def account_ids_def split: option.splits)

lemma insert_account_cases:
  "insert_account u ed x d =
    (if accounts_id_seq d \<in> account_ids d \<or> u \<in> acc_username ` set (accounts d)
     then (Inl UniqueViolation, d\<lparr>accounts_id_seq := accounts_id_seq d + 1\<rparr>)
     else (Inr (db_now d), d\<lparr>accounts := accounts d @ [\<lparr>acc_id = accounts_id_seq d, acc_username = u,
       acc_ed25519_pub = ed, acc_x25519_pub = x, acc_created_at = db_now d, acc_partner_account_id = None,
       acc_last_seen_at = None\<rparr>], accounts_id_seq := accounts_id_seq d + 1\<rparr>))"
  by (simp add: insert_account_def Let_def)

lemma accounts_ok_append:
  assumes "accounts_ok d" "acc_id a \<notin> account_ids d" "acc_username a \<notin> acc_username ` set (accounts d)"
    "acc_partner_account_id a = None"
  shows "accounts_ok (d\<lparr>accounts := accounts d @ [a]\<rparr>)"
proof (rule accounts_okI)
  show "distinct (map acc_id (accounts (d\<lparr>accounts := accounts d @ [a]\<rparr>)))"
    "distinct (map acc_username (accounts (d\<lparr>accounts := accounts d @ [a]\<rparr>)))"
    using assms by (auto simp: accounts_ok_def account_ids_def)
qed (use assms accounts_ok_partner [OF assms(1)] in \<open>auto simp: partner_of_append\<close>)

lemma keeps_insert_account [intro]: "keeps schema_ok (insert_account u ed x)"
proof (rule keepsI)
  fix d assume ok: "schema_ok d"
  show "schema_ok (snd (insert_account u ed x d))"
    using ok unfolding insert_account_cases schema_ok_def
    by (auto simp: accounts_ok_append room_ids_def members_ok_def invites_ok_def messages_ok_def
        attachments_ok_def tokens_ok_def profiles_ok_def)
qed

lemma touch_last_seen_tables [simp]:
  "account_ids (snd (touch_last_seen i d)) = account_ids d"
  "rooms (snd (touch_last_seen i d)) = rooms d" "room_ids (snd (touch_last_seen i d)) = room_ids d"
  "room_members (snd (touch_last_seen i d)) = room_members d"
  "invites (snd (touch_last_seen i d)) = invites d" "messages (snd (touch_last_seen i d)) = messages d"
  "attachments (snd (touch_last_seen i d)) = attachments d"
  "device_push_tokens (snd (touch_last_seen i d)) = device_push_tokens d"
  "account_profiles (snd (touch_last_seen i d)) = account_profiles d"
  "partner_of (snd (touch_last_seen i d)) = partner_of d"
proof -
  show "account_ids (snd (touch_last_seen i d)) = account_ids d"
    unfolding account_ids_def by (metis image_set touch_last_seen_frame(1))
  show "partner_of (snd (touch_last_seen i d)) = partner_of d"
    by (rule ext) (simp add: partner_of_def touch_last_seen_def map_update_where)
qed (simp_all add: touch_last_seen_def room_ids_def)

lemma keeps_touch_last_seen [intro]: "keeps schema_ok (touch_last_seen i)"
proof (rule keepsI)
  fix d assume "schema_ok d"
  then show "schema_ok (snd (touch_last_seen i d))"
    unfolding schema_ok_def
    by (simp add: accounts_ok_columns [of d] rooms_ok_def members_ok_def invites_ok_def messages_ok_def
        attachments_ok_def tokens_ok_def profiles_ok_def)
qed

section \<open>Properties\<close>

definition username_alphabet :: "char set" where
  "username_alphabet = {CHR ''a''..CHR ''z''} \<union> {CHR ''0''..CHR ''9''} \<union> {CHR ''_''}"

lemma username_byte:
  "(is_ascii_lowercase b \<or> is_ascii_digit b \<or> b = CHR ''_'') \<longleftrightarrow> b \<in> username_alphabet"
  by (auto simp: is_ascii_lowercase_def is_ascii_digit_def username_alphabet_def)

lemma username_alphabet_ascii: "b \<in> username_alphabet \<Longrightarrow> (of_char b :: nat) < 128"
  by (auto simp: username_alphabet_def less_eq_char_def)

lemma username_alphabet_chars: "set u \<subseteq> username_alphabet \<Longrightarrow> utf8_chars u = length u"
  unfolding utf8_chars_def subset_eq utf8_continuation_def
  by (fastforce dest: username_alphabet_ascii intro!: arg_cong [where f = length] filter_True)

text \<open>
  Valid user names are exactly the strings of 3 to 20 characters over \<open>[a-z0-9_]\<close>, where characters
  are counted as code points: the byte length the code checks is the number of characters, because the
  alphabet is ASCII.
\<close>

theorem username_ok_exact:
  "username_ok u \<longleftrightarrow> utf8_chars u \<in> {3..20} \<and>
     set u \<subseteq> {CHR ''a''..CHR ''z''} \<union> {CHR ''0''..CHR ''9''} \<union> {CHR ''_''}"
proof -
  have "username_ok u \<longleftrightarrow> length u \<in> {3..20} \<and> set u \<subseteq> username_alphabet"
    unfolding username_ok_def list_all_iff username_byte by auto
  also have "\<dots> \<longleftrightarrow> utf8_chars u \<in> {3..20} \<and> set u \<subseteq> username_alphabet"
    using username_alphabet_chars by metis
  finally show ?thesis unfolding username_alphabet_def .
qed

end
