(* ===== verification/Rooms.thy ===== *)
theory Rooms
  imports Accounts Wire
begin

text \<open>
  \<open>server/src/rooms.rs\<close>: rooms, membership and the partner link. A function that issues its queries on
  the pool one after another is a \<open>sql_then\<close> of them; one that opens a transaction is wrapped in
  \<open>transaction\<close>.
\<close>

record member =
  m_account_id :: account_id
  m_username :: string
  m_ed25519_pub :: bytes
  m_x25519_pub :: bytes

record room_detail_rec =
  rd_room_id :: string
  rd_name :: string
  rd_members :: "member list"
  rd_created_at :: timestamp

definition member_into_wire :: "crates \<Rightarrow> member \<Rightarrow> wire_member" where
  "member_into_wire C m = \<lparr>wm_account_id = m_account_id m, wm_username = m_username m,
     wm_ed25519_pub = b64_encode C (m_ed25519_pub m), wm_x25519_pub = b64_encode C (m_x25519_pub m)\<rparr>"

definition room_detail_into_wire :: "crates \<Rightarrow> room_detail_rec \<Rightarrow> wire_room_detail" where
  "room_detail_into_wire C r = \<lparr>wr_room_id = rd_room_id r, wr_name = rd_name r,
     wr_members = map (member_into_wire C) (rd_members r), wr_created_at = rd_created_at r\<rparr>"

section \<open>Queries\<close>

definition member_of_row :: "account_row \<Rightarrow> member" where
  "member_of_row a = \<lparr>m_account_id = acc_id a, m_username = acc_username a,
     m_ed25519_pub = acc_ed25519_pub a, m_x25519_pub = acc_x25519_pub a\<rparr>"

text \<open>The roster in the order of joining; the inner join drops a membership without its account.\<close>

definition roster :: "string \<Rightarrow> db \<Rightarrow> member list" where
  "roster rid d = List.map_filter
     (\<lambda>m. map_option member_of_row (account_by_id (mb_account_id m) d))
     (sort_key mb_joined_at (filter (\<lambda>m. mb_room_id m = rid) (room_members d)))"

definition members_for_room :: "string \<Rightarrow> member list sql" where
  "members_for_room rid = sql_read (roster rid)"

definition room_by_id :: "string \<Rightarrow> db \<Rightarrow> room_row option" where
  "room_by_id rid d = find_first (\<lambda>r. rm_id r = rid) (rooms d)"

definition room_detail :: "string \<Rightarrow> room_detail_rec option sql" where
  "room_detail rid =
    sql_then (sql_read (room_by_id rid)) (\<lambda>row. case row of
        None \<Rightarrow> sql_read (\<lambda>_. None)
      | Some r \<Rightarrow> sql_then (members_for_room (rm_id r)) (\<lambda>ms. sql_read (\<lambda>_.
          Some \<lparr>rd_room_id = rm_id r, rd_name = rm_name r, rd_members = ms, rd_created_at = rm_created_at r\<rparr>)))"

definition partner_account_id_for :: "account_id \<Rightarrow> account_id option sql" where
  "partner_account_id_for i = sql_read (\<lambda>d.
     case account_by_id i d of None \<Rightarrow> None | Some a \<Rightarrow> acc_partner_account_id a)"

definition partner_username :: "account_id \<Rightarrow> db \<Rightarrow> string option" where
  "partner_username i d =
    (case account_by_id i d of None \<Rightarrow> None
     | Some a \<Rightarrow> (case acc_partner_account_id a of None \<Rightarrow> None
        | Some p \<Rightarrow> map_option acc_username (account_by_id p d)))"

definition partner_username_for :: "account_id \<Rightarrow> string option sql" where
  "partner_username_for i = sql_read (partner_username i)"

definition account_id_by_username :: "string \<Rightarrow> account_id option sql" where
  "account_id_by_username u = sql_read (\<lambda>d. map_option acc_id (account_by_name u d))"

definition in_room :: "string \<Rightarrow> account_id \<Rightarrow> db \<Rightarrow> bool" where
  "in_room rid i d \<longleftrightarrow> list_ex (\<lambda>m. mb_room_id m = rid \<and> mb_account_id m = i) (room_members d)"

definition is_paired :: "account_id \<Rightarrow> bool sql" where
  "is_paired i = sql_read (\<lambda>d. list_ex (\<lambda>m. mb_account_id m = i) (room_members d))"

definition is_member :: "string \<Rightarrow> account_id \<Rightarrow> bool sql" where
  "is_member rid i = sql_read (in_room rid i)"

definition member_usernames :: "string \<Rightarrow> string list sql" where
  "member_usernames rid = sql_read (\<lambda>d. List.map_filter
     (\<lambda>m. map_option acc_username (account_by_id (mb_account_id m) d))
     (filter (\<lambda>m. mb_room_id m = rid) (room_members d)))"

definition room_ids_for_account :: "account_id \<Rightarrow> string list sql" where
  "room_ids_for_account i = sql_read (\<lambda>d.
     map rm_id (sort_key rm_created_at (filter (\<lambda>r. in_room (rm_id r) i d) (rooms d))))"

fun room_details :: "string list \<Rightarrow> room_detail_rec list sql" where
  "room_details [] = sql_read (\<lambda>_. [])"
| "room_details (rid # rids) =
     sql_then (room_detail rid) (\<lambda>det. sql_then (room_details rids) (\<lambda>out. sql_read (\<lambda>_.
       case det of None \<Rightarrow> out | Some r \<Rightarrow> r # out)))"

definition list_rooms_for_account :: "account_id \<Rightarrow> room_detail_rec list sql" where
  "list_rooms_for_account i = sql_then (room_ids_for_account i) room_details"

section \<open>The partner link\<close>

datatype monogamy_error = WrongPartner

text \<open>\<open>PairError\<close>: what a caller sees, a database error or the refusal of the link.\<close>

datatype pair_error = PairDb db_error | Monogamy monogamy_error

definition monogamy_ok :: "account_id option \<Rightarrow> account_id option \<Rightarrow> account_id \<Rightarrow> account_id \<Rightarrow> bool" where
  "monogamy_ok mine theirs me peer =
    (case (mine, theirs) of
       (None, None) \<Rightarrow> True
     | (Some p, Some q) \<Rightarrow> p = peer \<and> q = me
     | _ \<Rightarrow> False)"

definition monogamy_check :: "account_id \<Rightarrow> account_id \<Rightarrow> (monogamy_error + unit) sql" where
  "monogamy_check me peer = sql_read (\<lambda>d.
     if monogamy_ok (Option.bind (account_by_id me d) acc_partner_account_id)
          (Option.bind (account_by_id peer d) acc_partner_account_id) me peer
     then Inr () else Inl WrongPartner)"

text \<open>
  \<open>UPDATE accounts SET partner_account_id = $2 WHERE id = $1 AND partner_account_id IS NULL\<close>, with the
  three constraints on the column: not the account itself, at most one account per partner, and a
  reference to an account.
\<close>

definition link_partner :: "account_id \<Rightarrow> account_id \<Rightarrow> unit sql" where
  "link_partner a b d =
    (let hit = (\<lambda>r. acc_id r = a \<and> acc_partner_account_id r = None) in
     if \<not> list_ex hit (accounts d) then (Inr (), d)
     else if a = b then (Inl CheckViolation, d)
     else if list_ex (\<lambda>r. acc_partner_account_id r = Some b) (accounts d) then (Inl UniqueViolation, d)
     else if b \<notin> account_ids d then (Inl ForeignKeyViolation, d)
     else (Inr (), d\<lparr>accounts := update_where hit (\<lambda>r. r\<lparr>acc_partner_account_id := Some b\<rparr>) (accounts d)\<rparr>))"

text \<open>The locked rows \<open>WHERE id IN (a, b) ORDER BY id\<close> and the loop that picks the two columns out of them.\<close>

definition locked_rows :: "account_id \<Rightarrow> account_id \<Rightarrow> db \<Rightarrow> (account_id \<times> account_id option) list" where
  "locked_rows a b d = map (\<lambda>r. (acc_id r, acc_partner_account_id r))
     (sort_key acc_id (filter (\<lambda>r. acc_id r = a \<or> acc_id r = b) (accounts d)))"

definition pick_column :: "account_id \<Rightarrow> (account_id \<times> account_id option) list \<Rightarrow> account_id option option" where
  "pick_column a rows = fold (\<lambda>(i, p) acc. if i = a then Some p else acc) rows None"

definition set_partner_link :: "account_id \<Rightarrow> account_id \<Rightarrow> (monogamy_error + unit) sql" where
  "set_partner_link a b = transaction
    (sql_then (sql_read (locked_rows a b)) (\<lambda>rows.
       case (pick_column a rows, pick_column b rows) of
         (Some mine, Some theirs) \<Rightarrow>
           if \<not> monogamy_ok mine theirs a b then sql_read (\<lambda>_. Inl WrongPartner)
           else sql_then (link_partner a b) (\<lambda>_. sql_then (link_partner b a) (\<lambda>_. sql_read (\<lambda>_. Inr ())))
       | _ \<Rightarrow> sql_read (\<lambda>_. Inl WrongPartner)))"

section \<open>Changing rooms\<close>

definition insert_room :: "string \<Rightarrow> string \<Rightarrow> unit sql" where
  "insert_room rid nm d =
    (if rid \<in> room_ids d then (Inl UniqueViolation, d)
     else if utf8_chars nm > 64 then (Inl CheckViolation, d)
     else (Inr (), d\<lparr>rooms := rooms d @ [\<lparr>rm_id = rid, rm_name = nm, rm_created_at = db_now d\<rparr>]\<rparr>))"

text \<open>\<open>INSERT INTO room_members ... ON CONFLICT DO NOTHING\<close>.\<close>

definition insert_member :: "string \<Rightarrow> account_id \<Rightarrow> unit sql" where
  "insert_member rid i d =
    (if in_room rid i d then (Inr (), d)
     else if rid \<notin> room_ids d \<or> i \<notin> account_ids d then (Inl ForeignKeyViolation, d)
     else (Inr (), d\<lparr>room_members := room_members d @
            [\<lparr>mb_room_id = rid, mb_account_id = i, mb_joined_at = db_now d\<rparr>]\<rparr>))"

fun insert_members :: "string \<Rightarrow> account_id list \<Rightarrow> unit sql" where
  "insert_members rid [] = sql_read (\<lambda>_. ())"
| "insert_members rid (i # is) = sql_then (insert_member rid i) (\<lambda>_. insert_members rid is)"

text \<open>\<open>rid\<close> is the ULID that \<open>Ulid::new()\<close> made.\<close>

definition create_room_with_members ::
  "string \<Rightarrow> account_id \<Rightarrow> account_id option \<Rightarrow> string \<Rightarrow> string sql" where
  "create_room_with_members rid host partner nm = transaction
    (sql_then (insert_room rid nm) (\<lambda>_.
     sql_then (insert_members rid (host # (case partner of None \<Rightarrow> [] | Some p \<Rightarrow> [p]))) (\<lambda>_.
     sql_read (\<lambda>_. rid))))"

definition rename_room :: "string \<Rightarrow> string \<Rightarrow> unit sql" where
  "rename_room rid nm d =
    (if rid \<notin> room_ids d then (Inr (), d)
     else if utf8_chars nm > 64 then (Inl CheckViolation, d)
     else (Inr (), d\<lparr>rooms := update_where (\<lambda>r. rm_id r = rid) (\<lambda>r. r\<lparr>rm_name := nm\<rparr>) (rooms d)\<rparr>))"

definition delete_member :: "string \<Rightarrow> account_id \<Rightarrow> unit sql" where
  "delete_member rid i d = (Inr (), d\<lparr>room_members :=
     filter (\<lambda>m. \<not> (mb_room_id m = rid \<and> mb_account_id m = i)) (room_members d)\<rparr>)"

definition count_members :: "string \<Rightarrow> db \<Rightarrow> nat" where
  "count_members rid d = length (filter (\<lambda>m. mb_room_id m = rid) (room_members d))"

text \<open>
  \<open>DELETE FROM rooms WHERE id = $1\<close>. Memberships, invites and attachments go with the room; a profile
  that shows a deleted attachment loses its avatar; the foreign key of \<open>messages\<close> (migration 0005) has no
  \<open>ON DELETE\<close> clause, so a room that still has messages cannot be deleted.
\<close>

definition delete_room :: "string \<Rightarrow> unit sql" where
  "delete_room rid d =
    (if rid \<in> ms_room_id ` set (messages d) then (Inl ForeignKeyViolation, d)
     else (let dead = at_blob_key ` set (filter (\<lambda>t. at_room_id t = rid) (attachments d)) in
       (Inr (), d\<lparr>rooms := filter (\<lambda>r. rm_id r \<noteq> rid) (rooms d),
          room_members := filter (\<lambda>m. mb_room_id m \<noteq> rid) (room_members d),
          invites := filter (\<lambda>i. iv_room_id i \<noteq> Some rid) (invites d),
          attachments := filter (\<lambda>t. at_room_id t \<noteq> rid) (attachments d),
          account_profiles := update_where
            (\<lambda>p. case pf_avatar_key p of None \<Rightarrow> False | Some k \<Rightarrow> k \<in> dead)
            (\<lambda>p. p\<lparr>pf_avatar_key := None\<rparr>) (account_profiles d)\<rparr>)))"

record leave_outcome =
  room_deleted :: bool

definition leave_room :: "string \<Rightarrow> account_id \<Rightarrow> leave_outcome sql" where
  "leave_room rid i = transaction
    (sql_then (delete_member rid i) (\<lambda>_.
     sql_then (sql_read (count_members rid)) (\<lambda>remaining.
       if remaining = 0 then sql_then (delete_room rid) (\<lambda>_. sql_read (\<lambda>_. \<lparr>room_deleted = True\<rparr>))
       else sql_read (\<lambda>_. \<lparr>room_deleted = False\<rparr>))))"

declare link_partner_def [op_defs] insert_room_def [op_defs] insert_member_def [op_defs]
  rename_room_def [op_defs] delete_member_def [op_defs] delete_room_def [op_defs]

section \<open>What the statements keep\<close>

lemma in_room_iff: "in_room rid i d \<longleftrightarrow> (rid, i) \<in> (\<lambda>m. (mb_room_id m, mb_account_id m)) ` set (room_members d)"
  by (auto simp: in_room_def list_ex_iff)

lemma in_room_ids:
  "members_ok d \<Longrightarrow> in_room rid i d \<Longrightarrow> rid \<in> room_ids d"
  "members_ok d \<Longrightarrow> in_room rid i d \<Longrightarrow> i \<in> account_ids d"
  by (auto simp: in_room_def list_ex_iff members_ok_def)

lemma room_ids_insert [simp]:
  "room_ids (d\<lparr>rooms := rooms d @ [r]\<rparr>) = insert (rm_id r) (room_ids d)"
  by (simp add: room_ids_def)

lemma keeps_insert_room [intro]: "keeps schema_ok (insert_room rid nm)"
proof (rule keepsI)
  fix d assume "schema_ok d"
  then show "schema_ok (snd (insert_room rid nm d))"
    unfolding insert_room_def schema_ok_def
    by (auto simp: rooms_ok_def members_ok_def invites_ok_def messages_ok_def attachments_ok_def
        room_ids_def)
qed

lemma keeps_insert_member [intro]: "keeps schema_ok (insert_member rid i)"
proof (rule keepsI)
  fix d assume "schema_ok d"
  then show "schema_ok (snd (insert_member rid i d))"
    unfolding insert_member_def schema_ok_def
    by (auto simp: members_ok_def in_room_iff)
qed

lemma keeps_insert_members:
  "(\<And>i. keeps I (insert_member rid i)) \<Longrightarrow> keeps I (insert_members rid is)"
  by (induction rid "is" rule: insert_members.induct) (auto intro!: keeps_then)

lemma keeps_create_room:
  assumes "keeps I (insert_room rid nm)" and "\<And>i. keeps I (insert_member rid i)"
  shows "keeps I (create_room_with_members rid host partner nm)"
  unfolding create_room_with_members_def
  by (intro keeps_transaction keeps_then keeps_read keeps_insert_members assms)

lemma room_ids_rename [simp]:
  "room_ids (d\<lparr>rooms := update_where p (\<lambda>r. r\<lparr>rm_name := nm\<rparr>) (rooms d)\<rparr>) = room_ids d"
  unfolding room_ids_def set_map [symmetric] by (simp add: map_update_where)

lemma keeps_rename_room [intro]: "keeps schema_ok (rename_room rid nm)"
proof (rule keepsI)
  fix d assume ok: "schema_ok d"
  have rooms: "rooms_ok (snd (rename_room rid nm d))"
    using ok unfolding rename_room_def schema_ok_def
    by (auto simp: rooms_ok_def map_update_where dest!: in_update_whereD)
  show "schema_ok (snd (rename_room rid nm d))"
    using ok rooms unfolding rename_room_def schema_ok_def
    by (auto simp: members_ok_def invites_ok_def messages_ok_def attachments_ok_def)
qed

lemma keeps_delete_member [intro]: "keeps schema_ok (delete_member rid i)"
proof (rule keepsI)
  fix d assume "schema_ok d"
  then show "schema_ok (snd (delete_member rid i d))"
    unfolding delete_member_def schema_ok_def
    by (auto simp: members_ok_def distinct_map_filter)
qed

lemma image_split: "k \<in> f ` A \<Longrightarrow> k \<notin> f ` {x \<in> A. q x} \<Longrightarrow> k \<in> f ` {x \<in> A. \<not> q x}"
  by blast

lemma keeps_delete_room [intro]: "keeps schema_ok (delete_room rid)"
proof (rule keepsI)
  fix d assume ok: "schema_ok d"
  let ?d = "snd (delete_room rid d)"
  show "schema_ok ?d"
  proof (cases "rid \<in> ms_room_id ` set (messages d)")
    case False
    have acc: "account_ids ?d = account_ids d" "accounts ?d = accounts d" "partner_of ?d = partner_of d"
      using False by (auto simp: delete_room_def Let_def)
    have rid: "room_ids ?d = room_ids d - {rid}"
      using False by (auto simp: delete_room_def Let_def room_ids_def)
    have "profiles_ok ?d"
      using ok False acc unfolding schema_ok_def profiles_ok_def
      by (auto simp: delete_room_def Let_def map_update_where dest!: in_update_whereD)
        (rule image_split, blast+)
    moreover have "rooms_ok ?d" "members_ok ?d" "invites_ok ?d" "messages_ok ?d" "attachments_ok ?d"
      using ok False acc rid unfolding schema_ok_def
      by (auto simp: delete_room_def Let_def schema_defs distinct_map_filter)
    ultimately show ?thesis
      using ok False acc unfolding schema_ok_def
      by (auto simp: accounts_ok_def tokens_ok_def delete_room_def Let_def cong: option.case_cong)
  qed (use ok in \<open>simp add: delete_room_def\<close>)
qed

lemma keeps_leave_room:
  assumes "keeps I (delete_member rid i)" and "keeps I (delete_room rid)"
  shows "keeps I (leave_room rid i)"
  unfolding leave_room_def
  by (auto intro!: keeps_transaction keeps_then keeps_read assms)

end
