(* ===== verification/Pairing.thy ===== *)
theory Pairing
  imports Rooms
begin

text \<open>
  The monogamy rule of \<open>rooms.rs\<close>: what \<open>set_partner_link\<close> does on every input, that it keeps the partner
  links symmetric, and that a link once made is never changed.
\<close>

definition links_symmetric :: "db \<Rightarrow> bool" where
  "links_symmetric d \<longleftrightarrow> (\<forall>i \<in> account_ids d. case partner_of d i of None \<Rightarrow> True
     | Some p \<Rightarrow> partner_of d p = Some i)"

definition pairing_ok :: "db \<Rightarrow> bool" where
  "pairing_ok d \<longleftrightarrow> schema_ok d \<and> links_symmetric d"

text \<open>Every link of the first database is in the second.\<close>

definition links_kept :: "db \<Rightarrow> db \<Rightarrow> bool" where
  "links_kept d d' \<longleftrightarrow> (\<forall>i \<in> account_ids d. case partner_of d i of None \<Rightarrow> True
     | Some p \<Rightarrow> partner_of d' i = Some p)"

definition link_both :: "account_id \<Rightarrow> account_id \<Rightarrow> db \<Rightarrow> db" where
  "link_both a b d = d\<lparr>accounts := map (\<lambda>r.
     if acc_id r = a then r\<lparr>acc_partner_account_id := Some b\<rparr>
     else if acc_id r = b then r\<lparr>acc_partner_account_id := Some a\<rparr> else r) (accounts d)\<rparr>"

section \<open>The partner column\<close>

lemma links_symmetricD: "links_symmetric d \<Longrightarrow> partner_of d i = Some p \<Longrightarrow> partner_of d p = Some i"
  unfolding links_symmetric_def ball_partner by blast

lemma links_symmetricI:
  "(\<And>i p. partner_of d i = Some p \<Longrightarrow> partner_of d p = Some i) \<Longrightarrow> links_symmetric d"
  unfolding links_symmetric_def ball_partner by blast

lemma links_keptI:
  "(\<And>i p. partner_of d i = Some p \<Longrightarrow> partner_of d' i = Some p) \<Longrightarrow> links_kept d d'"
  unfolding links_kept_def ball_partner by blast

lemma links_keptD: "links_kept d d' \<Longrightarrow> partner_of d i = Some p \<Longrightarrow> partner_of d' i = Some p"
  unfolding links_kept_def ball_partner by blast

lemma links_kept_refl [simp]: "links_kept d d"
  by (simp add: links_keptI)

lemma links_kept_trans: "links_kept d d' \<Longrightarrow> links_kept d' d'' \<Longrightarrow> links_kept d d''"
  by (meson links_keptD links_keptI)

lemma partner_of_by_id:
  "partner_of d i = (case account_by_id i d of None \<Rightarrow> None | Some a \<Rightarrow> acc_partner_account_id a)"
proof -
  have "(case map_of (map (\<lambda>a. (acc_id a, acc_partner_account_id a)) as) i of Some p \<Rightarrow> p | None \<Rightarrow> None) =
      (case find_first (\<lambda>a. acc_id a = i) as of None \<Rightarrow> None | Some a \<Rightarrow> acc_partner_account_id a)" for as
    by (induction as) auto
  then show ?thesis by (simp add: partner_of_def account_by_id_def)
qed

lemma partner_account_id_for_eq: "partner_account_id_for i d = (Inr (partner_of d i), d)"
  by (simp add: partner_account_id_for_def partner_of_by_id)

lemma partner_of_row:
  "distinct (map acc_id (accounts d)) \<Longrightarrow> r \<in> set (accounts d) \<Longrightarrow>
     acc_partner_account_id r = partner_of d (acc_id r)"
  by (simp add: partner_of_by_id account_by_id_unique)

lemma exists_partner_iff:
  assumes "distinct (map acc_id (accounts d))"
  shows "list_ex (\<lambda>r. acc_partner_account_id r = Some b) (accounts d) \<longleftrightarrow> (\<exists>i. partner_of d i = Some b)"
proof
  assume "\<exists>i. partner_of d i = Some b"
  then obtain i where i: "partner_of d i = Some b" by blast
  then obtain r where "account_by_id i d = Some r" "acc_partner_account_id r = Some b"
    by (auto simp: partner_of_by_id split: option.splits)
  then show "list_ex (\<lambda>r. acc_partner_account_id r = Some b) (accounts d)"
    by (auto simp: list_ex_iff dest: account_by_id_SomeD)
qed (use partner_of_row [OF assms] in \<open>auto simp: list_ex_iff\<close>)

lemma unlinked_row_iff:
  assumes "distinct (map acc_id (accounts d))"
  shows "list_ex (\<lambda>r. acc_id r = a \<and> acc_partner_account_id r = None) (accounts d) \<longleftrightarrow>
    a \<in> account_ids d \<and> partner_of d a = None"
  using partner_of_row [OF assms] by (fastforce simp: list_ex_iff account_ids_def)

lemma pick_column_fold:
  "distinct (map fst rows) \<Longrightarrow>
   fold (\<lambda>(i, p) acc. if i = a then Some p else acc) rows acc0 =
     (case map_of rows a of None \<Rightarrow> acc0 | Some p \<Rightarrow> Some p)"
  by (induction rows arbitrary: acc0) (force split: option.splits dest: map_of_SomeD)+

lemma pick_column_locked:
  assumes dist: "distinct (map acc_id (accounts d))" and c: "c = a \<or> c = b"
  shows "pick_column c (locked_rows a b d) = (if c \<in> account_ids d then Some (partner_of d c) else None)"
proof -
  let ?rows = "locked_rows a b d"
  have fst: "map fst ?rows = map acc_id (sort_key acc_id (filter (\<lambda>r. acc_id r = a \<or> acc_id r = b) (accounts d)))"
    by (simp add: locked_rows_def)
  have d: "distinct (map fst ?rows)"
    unfolding fst using distinct_map_filter [OF dist] by (simp add: distinct_map)
  have "(c, p) \<in> set ?rows \<longleftrightarrow> (\<exists>r \<in> set (accounts d). acc_id r = c \<and> acc_partner_account_id r = p)" for p
    using c by (auto simp: locked_rows_def)
  then have "map_of ?rows c = Some p \<longleftrightarrow> c \<in> account_ids d \<and> p = partner_of d c" for p
    unfolding map_of_eq_Some_iff [OF d] account_ids_def by (auto simp: partner_of_row [OF dist])
  then show ?thesis
    unfolding pick_column_def pick_column_fold [OF d]
    by (cases "map_of ?rows c") (simp_all, blast+)
qed

section \<open>Setting the link\<close>

lemma link_partner_eq:
  assumes "distinct (map acc_id (accounts d))" and "b \<in> account_ids d"
  shows "link_partner a b d =
    (if a \<notin> account_ids d \<or> partner_of d a \<noteq> None then (Inr (), d)
     else if a = b then (Inl CheckViolation, d)
     else if \<exists>i. partner_of d i = Some b then (Inl UniqueViolation, d)
     else (Inr (), d\<lparr>accounts := map (\<lambda>r. if acc_id r = a then r\<lparr>acc_partner_account_id := Some b\<rparr> else r)
       (accounts d)\<rparr>))"
proof -
  have "update_where (\<lambda>r. acc_id r = a \<and> acc_partner_account_id r = None) (acc_partner_account_id_update (\<lambda>_. Some b))
      (accounts d) = map (\<lambda>r. if acc_id r = a then r\<lparr>acc_partner_account_id := Some b\<rparr> else r) (accounts d)"
    if "partner_of d a = None"
    using that partner_of_row [OF assms(1)] by (auto simp: update_where_def)
  then show ?thesis
    unfolding link_partner_def Let_def unlinked_row_iff [OF assms(1)] exists_partner_iff [OF assms(1)]
    using assms(2) by auto
qed

lemma partner_of_map:
  assumes "\<And>r. acc_id (f r) = acc_id r"
  shows "partner_of (d\<lparr>accounts := map f (accounts d)\<rparr>) i =
    (case account_by_id i d of None \<Rightarrow> None | Some a \<Rightarrow> acc_partner_account_id (f a))"
proof -
  have "find_first (\<lambda>a. acc_id a = i) (map f as) = map_option f (find_first (\<lambda>a. acc_id a = i) as)" for as
    by (induction as) (auto simp: assms)
  then show ?thesis
    by (simp add: partner_of_by_id account_by_id_def option.case_eq_if option.map_sel)
qed

lemma acc_id_kept: "acc_id (if q then r\<lparr>acc_partner_account_id := p\<rparr> else r) = acc_id r"
  by simp

lemma accounts_map:
  assumes "\<And>r. acc_id (f r) = acc_id r"
  shows "account_ids (d\<lparr>accounts := map f (accounts d)\<rparr>) = account_ids d"
    and "map acc_id (accounts (d\<lparr>accounts := map f (accounts d)\<rparr>)) = map acc_id (accounts d)"
  by (simp_all add: account_ids_def image_image assms)

lemma partner_of_link:
  assumes "a \<in> account_ids d"
  shows "partner_of (d\<lparr>accounts := map (\<lambda>r. if acc_id r = a then r\<lparr>acc_partner_account_id := Some b\<rparr> else r)
    (accounts d)\<rparr>) = (partner_of d)(a := Some b)" (is "partner_of ?d = _")
proof
  fix i
  have "partner_of ?d i = (case account_by_id i d of None \<Rightarrow> None
      | Some r \<Rightarrow> acc_partner_account_id (if acc_id r = a then r\<lparr>acc_partner_account_id := Some b\<rparr> else r))"
    by (rule partner_of_map) simp
  then show "partner_of ?d i = ((partner_of d)(a := Some b)) i"
    using assms account_by_id_None_iff [of i d] account_by_id_SomeD [of i d]
    by (cases "account_by_id i d") (auto simp: partner_of_by_id [of d])
qed

lemma partner_of_link_both:
  assumes "a \<in> account_ids d" "b \<in> account_ids d"
  shows "partner_of (link_both a b d) = (partner_of d)(b := Some a, a := Some b)"
proof
  fix i
  have "partner_of (link_both a b d) i = (case account_by_id i d of None \<Rightarrow> None
      | Some r \<Rightarrow> acc_partner_account_id (if acc_id r = a then r\<lparr>acc_partner_account_id := Some b\<rparr>
          else if acc_id r = b then r\<lparr>acc_partner_account_id := Some a\<rparr> else r))"
    unfolding link_both_def by (rule partner_of_map) simp
  then show "partner_of (link_both a b d) i = ((partner_of d)(b := Some a, a := Some b)) i"
    using assms account_by_id_None_iff [of i d] account_by_id_SomeD [of i d]
    by (cases "account_by_id i d") (auto simp: partner_of_by_id [of d])
qed

lemma link_both_columns [simp]:
  "map acc_id (accounts (link_both a b d)) = map acc_id (accounts d)"
  "map acc_username (accounts (link_both a b d)) = map acc_username (accounts d)"
  "room_ids (link_both a b d) = room_ids d"
  "rooms (link_both a b d) = rooms d" "room_members (link_both a b d) = room_members d"
  "invites (link_both a b d) = invites d" "messages (link_both a b d) = messages d"
  "attachments (link_both a b d) = attachments d"
  "device_push_tokens (link_both a b d) = device_push_tokens d"
  "account_profiles (link_both a b d) = account_profiles d"
  by (auto simp: link_both_def room_ids_def)

lemma account_ids_link_both [simp]: "account_ids (link_both a b d) = account_ids d"
  by (simp only: account_ids_columns link_both_columns)

lemma two_links_are_link_both:
  "a \<noteq> b \<Longrightarrow>
   (d\<lparr>accounts := map (\<lambda>r. if acc_id r = a then r\<lparr>acc_partner_account_id := Some b\<rparr> else r) (accounts d)\<rparr>)
     \<lparr>accounts := map (\<lambda>r. if acc_id r = b then r\<lparr>acc_partner_account_id := Some a\<rparr> else r)
       (map (\<lambda>r. if acc_id r = a then r\<lparr>acc_partner_account_id := Some b\<rparr> else r) (accounts d))\<rparr> =
   link_both a b d"
  by (auto simp: link_both_def)

lemma set_partner_link_eq:
  assumes ok: "accounts_ok d" and sym: "links_symmetric d"
  shows "set_partner_link a b d =
    (if a \<in> account_ids d \<and> b \<in> account_ids d \<and> partner_of d a = Some b then (Inr (Inr ()), d)
     else if a \<in> account_ids d \<and> b \<in> account_ids d \<and> partner_of d a = None \<and> partner_of d b = None
     then (if a = b then (Inl CheckViolation, d) else (Inr (Inr ()), link_both a b d))
     else (Inr (Inl WrongPartner), d))"
proof -
  note dist = accounts_ok_distinct(1) [OF ok]
  have unref: "\<not> (\<exists>i. partner_of d i = Some c)" if "partner_of d c = None" for c
    using links_symmetricD [OF sym, of _ c] that by auto
  show ?thesis
  proof (cases "a \<in> account_ids d \<and> b \<in> account_ids d \<and> partner_of d a = None \<and> partner_of d b = None \<and> a \<noteq> b")
    case True
    let ?d1 = "d\<lparr>accounts := map (\<lambda>r. if acc_id r = a then r\<lparr>acc_partner_account_id := Some b\<rparr> else r) (accounts d)\<rparr>"
    have d1: "distinct (map acc_id (accounts ?d1))" "account_ids ?d1 = account_ids d"
      "partner_of ?d1 = (partner_of d)(a := Some b)"
      using dist True partner_of_link [of a d b]
      by (simp_all only: accounts_map acc_id_kept)
    have "link_partner a b d = (Inr (), ?d1)"
      using True unref [of b] by (subst link_partner_eq [OF dist]) auto
    moreover have "link_partner b a ?d1 = (Inr (), link_both a b d)"
      using True unref [of a] two_links_are_link_both [of a b d]
      by (subst link_partner_eq [OF d1(1)]) (auto simp: d1)
    ultimately show ?thesis
      using True
      by (simp add: set_partner_link_def transaction_def sql_then_def pick_column_locked [OF dist] monogamy_ok_def)
  next
    case False
    have other: "partner_of d b = Some a \<longleftrightarrow> partner_of d a = Some b"
      using links_symmetricD [OF sym] by blast
    have "link_partner a b d = (Inr (), d)" "link_partner b a d = (Inr (), d)"
      if "partner_of d a = Some b" "partner_of d b = Some a" "a \<in> account_ids d" "b \<in> account_ids d"
      using that link_partner_eq [OF dist] by simp_all
    moreover have "link_partner a a d = (Inl CheckViolation, d)" if "a \<in> account_ids d" "partner_of d a = None"
      using that link_partner_eq [OF dist, of a a] by simp
    ultimately show ?thesis
      using False other unfolding set_partner_link_def transaction_def sql_then_def sql_read_eq prod.case sum.case
        pick_column_locked [OF dist, of a a b, simplified] pick_column_locked [OF dist, of b a b, simplified]
      by (cases "partner_of d a"; cases "partner_of d b"; cases "a \<in> account_ids d"; cases "b \<in> account_ids d";
          simp add: monogamy_ok_def)
  qed
qed

section \<open>The pairing invariant\<close>

text \<open>A statement that leaves every partner link alone.\<close>

definition links_frame :: "'a sql \<Rightarrow> bool" where
  "links_frame q \<longleftrightarrow> (\<forall>f. keeps (\<lambda>d. partner_of d = f) q)"

lemma links_frameI: "(\<And>d. partner_of (snd (q d)) = partner_of d) \<Longrightarrow> links_frame q"
  by (simp add: links_frame_def keeps_def)

lemma links_frameD: "links_frame q \<Longrightarrow> partner_of (snd (q d)) = partner_of d"
  by (simp add: links_frame_def keeps_def)

lemma links_frame_then: "links_frame q \<Longrightarrow> (\<And>x. links_frame (k x)) \<Longrightarrow> links_frame (sql_then q k)"
  by (simp add: links_frame_def keeps_then)

lemma links_frame_read: "links_frame (sql_read f)"
  by (simp add: links_frame_def)

lemma links_frame_transaction: "links_frame q \<Longrightarrow> links_frame (transaction q)"
  by (simp add: links_frame_def keeps_transaction)

lemma links_symmetric_cong: "partner_of d' = partner_of d \<Longrightarrow> links_symmetric d' = links_symmetric d"
  unfolding links_symmetric_def ball_partner by simp

lemma links_kept_cong: "partner_of d' = partner_of d \<Longrightarrow> links_kept d0 d' = links_kept d0 d"
  unfolding links_kept_def ball_partner by simp

lemma keeps_pairing:
  assumes "keeps schema_ok q" and "links_frame q"
  shows "keeps pairing_ok q"
proof (rule keepsI)
  fix d assume "pairing_ok d"
  then show "pairing_ok (snd (q d))"
    using assms links_symmetric_cong [OF links_frameD [OF assms(2)]]
    unfolding pairing_ok_def keeps_def by blast
qed

lemma keeps_links:
  assumes "keeps pairing_ok q" and "links_frame q"
  shows "keeps (\<lambda>d. pairing_ok d \<and> links_kept d0 d) q"
proof (rule keepsI)
  fix d assume "pairing_ok d \<and> links_kept d0 d"
  then show "pairing_ok (snd (q d)) \<and> links_kept d0 (snd (q d))"
    using assms links_kept_cong [OF links_frameD [OF assms(2)]] unfolding keeps_def by blast
qed

lemma links_frame_insert_account: "links_frame (insert_account u ed x)"
  by (rule links_frameI) (auto simp: insert_account_cases partner_of_append)

lemma links_frame_touch: "links_frame (touch_last_seen i)"
  by (rule links_frameI) simp

lemma links_frame_rooms:
  "links_frame (insert_room rid nm)" "links_frame (insert_member rid i)" "links_frame (rename_room rid nm)"
  "links_frame (delete_member rid i)" "links_frame (delete_room rid)"
  by (auto intro!: links_frameI simp: insert_room_def insert_member_def rename_room_def
      delete_member_def delete_room_def Let_def)

lemma links_frame_insert_members: "links_frame (insert_members rid is)"
  by (induction rid "is" rule: insert_members.induct)
    (simp_all only: insert_members.simps links_frame_read links_frame_then links_frame_rooms)

lemma links_frame_create_room: "links_frame (create_room_with_members rid host partner nm)"
  unfolding create_room_with_members_def
  by (intro links_frame_transaction links_frame_then links_frame_read links_frame_rooms
      links_frame_insert_members)

lemma links_frame_leave_room: "links_frame (leave_room rid i)"
  unfolding leave_room_def
  by (intro links_frame_transaction links_frame_then)
    (simp_all only: links_frame_rooms links_frame_read links_frame_then split: if_split, simp)

lemma pairing_link_both:
  assumes ok: "pairing_ok d" and ab: "a \<in> account_ids d" "b \<in> account_ids d" "a \<noteq> b"
    and free: "partner_of d a = None" "partner_of d b = None"
  shows "pairing_ok (link_both a b d)"
proof -
  have acc: "accounts_ok d" and sym: "links_symmetric d" using ok by (auto simp: pairing_ok_def schema_ok_def)
  have new: "partner_of (link_both a b d) = (partner_of d)(b := Some a, a := Some b)"
    using ab partner_of_link_both by simp
  have sym': "links_symmetric (link_both a b d)"
  proof (rule links_symmetricI)
    fix i p assume "partner_of (link_both a b d) i = Some p"
    then show "partner_of (link_both a b d) p = Some i"
      using links_symmetricD [OF sym, of i p] ab free by (auto simp: new split: if_splits)
  qed
  have "accounts_ok (link_both a b d)"
  proof (rule accounts_okI)
    fix i p assume "partner_of (link_both a b d) i = Some p"
    then show "p \<noteq> i \<and> p \<in> account_ids (link_both a b d)"
      using accounts_ok_partner(1,2) [OF acc, of i p] ab by (auto simp: new split: if_splits)
  next
    fix i j p assume "partner_of (link_both a b d) i = Some p" "partner_of (link_both a b d) j = Some p"
    then show "j = i"
      using links_symmetricD [OF sym', of i p] links_symmetricD [OF sym', of j p] by simp
  qed (use accounts_ok_distinct [OF acc] in simp_all)
  then show ?thesis
    using ok sym' unfolding pairing_ok_def schema_ok_def
    by (simp add: rooms_ok_def members_ok_def invites_ok_def messages_ok_def attachments_ok_def
        tokens_ok_def profiles_ok_def)
qed

lemma keeps_pairing_set_partner_link: "keeps pairing_ok (set_partner_link a b)"
proof (rule keepsI)
  fix d assume ok: "pairing_ok d"
  then have "accounts_ok d" "links_symmetric d" by (auto simp: pairing_ok_def schema_ok_def)
  then show "pairing_ok (snd (set_partner_link a b d))"
    using ok pairing_link_both [OF ok] by (simp add: set_partner_link_eq)
qed

lemma keeps_links_set_partner_link:
  "keeps (\<lambda>d. pairing_ok d \<and> links_kept d0 d) (set_partner_link a b)"
proof (rule keepsI)
  fix d assume ok: "pairing_ok d \<and> links_kept d0 d"
  then have "accounts_ok d" "links_symmetric d" by (auto simp: pairing_ok_def schema_ok_def)
  then have "links_kept d (snd (set_partner_link a b d))"
    by (auto simp: set_partner_link_eq partner_of_link_both intro!: links_keptI)
  then show "pairing_ok (snd (set_partner_link a b d)) \<and> links_kept d0 (snd (set_partner_link a b d))"
    using ok keeps_pairing_set_partner_link [of a b] links_kept_trans by (auto simp: keeps_def)
qed

section \<open>Properties\<close>

text \<open>
  \<open>set_partner_link\<close> on a database whose links are symmetric: it succeeds without a change when the two
  accounts are each other's partners already, links both rows in one transaction when both are free and
  distinct, fails on the check constraint when both are the same free account, and otherwise refuses
  with \<open>WrongPartner\<close>. The unique index, which the code treats as a backstop, is never what stops it.
\<close>

theorem set_partner_link_exact:
  assumes "pairing_ok d"
  shows "set_partner_link a b d =
    (if {a, b} \<subseteq> account_ids d \<and> partner_of d a = Some b then (Inr (Inr ()), d)
     else if {a, b} \<subseteq> account_ids d \<and> partner_of d a = None \<and> partner_of d b = None
     then (if a = b then (Inl CheckViolation, d) else (Inr (Inr ()), link_both a b d))
     else (Inr (Inl WrongPartner), d))"
  using assms set_partner_link_eq [of d a b] unfolding pairing_ok_def schema_ok_def by auto

definition two_accounts :: db where
  "two_accounts = snd (insert_account ''kai'' [2] [20] (snd (insert_account ''court'' [1] [10] empty_db)))"

lemma two_accounts_eq:
  "two_accounts = empty_db\<lparr>accounts_id_seq := 3, accounts :=
    [\<lparr>acc_id = 1, acc_username = ''court'', acc_ed25519_pub = [1], acc_x25519_pub = [10], acc_created_at = 0,
      acc_partner_account_id = None, acc_last_seen_at = None\<rparr>,
     \<lparr>acc_id = 2, acc_username = ''kai'', acc_ed25519_pub = [2], acc_x25519_pub = [20], acc_created_at = 0,
      acc_partner_account_id = None, acc_last_seen_at = None\<rparr>]\<rparr>"
  by (simp add: two_accounts_def insert_account_def Let_def empty_db_def account_ids_def)

lemma pairing_empty [simp]: "pairing_ok empty_db"
  by (simp add: pairing_ok_def links_symmetric_def empty_db_def account_ids_def)
    (simp flip: empty_db_def)

lemma pairing_two_accounts [simp]: "pairing_ok two_accounts"
proof -
  have "keeps pairing_ok (insert_account u ed x)" for u ed x
    by (intro keeps_pairing links_frame_insert_account keeps_insert_account)
  then show ?thesis
    unfolding two_accounts_def by (simp add: keeps_def)
qed

theorem set_partner_link_exact_witness:
  "set_partner_link 1 2 two_accounts = (Inr (Inr ()), link_both 1 2 two_accounts)"
  using set_partner_link_exact [OF pairing_two_accounts, of 1 2]
  by (simp add: two_accounts_eq partner_of_def account_ids_def)

end
