(* ===== verification/InviteCode.thy ===== *)
theory InviteCode
  imports Wordlist Crates
begin

text \<open>
  \<open>crypto/src/invite.rs\<close>: four-word invite codes. A code is 44 bits, carried in the top 44 bits of the
  first six bytes of a 32-byte token whose other bytes are zero. The \<open>debug_assert\<close>s of the source are
  not compiled into a release build; \<open>n44_from_token_prefix_bound\<close> shows that the callers satisfy the
  one on \<open>n44\<close>.
\<close>

definition CODE_WORDS :: nat where
  "CODE_WORDS = 4"

definition CANONICAL_TOKEN_LEN :: nat where
  "CANONICAL_TOKEN_LEN = 32"

definition TOKEN_PREFIX_LEN :: nat where
  "TOKEN_PREFIX_LEN = 6"

datatype invite_code_error = WrongWordCount nat nat | UnknownWord string

definition canonical_token_from_n44 :: "u64 \<Rightarrow> bytes" where
  "canonical_token_from_n44 n44 =
    (let prefix_u64 = push_bit 4 n44 in
     [ucast (drop_bit 40 prefix_u64 AND 0xFF), ucast (drop_bit 32 prefix_u64 AND 0xFF),
      ucast (drop_bit 24 prefix_u64 AND 0xFF), ucast (drop_bit 16 prefix_u64 AND 0xFF),
      ucast (drop_bit 8 prefix_u64 AND 0xFF), ucast (prefix_u64 AND 0xFF)] @
     replicate (CANONICAL_TOKEN_LEN - 6) 0)"

text \<open>Bytes to a 64-bit number, most significant byte first.\<close>

definition be_fold :: "bytes \<Rightarrow> u64" where
  "be_fold bs = foldl (\<lambda>n b. push_bit 8 n OR ucast b) 0 bs"

definition n44_from_token_prefix :: "bytes \<Rightarrow> u64" where
  "n44_from_token_prefix token = drop_bit 4 (be_fold (take TOKEN_PREFIX_LEN token))"

definition encode_code :: "bytes \<Rightarrow> string" where
  "encode_code token =
    (let n44 = n44_from_token_prefix token;
         w0 = drop_bit 33 n44 AND 0x7FF;
         w1 = drop_bit 22 n44 AND 0x7FF;
         w2 = drop_bit 11 n44 AND 0x7FF;
         w3 = n44 AND 0x7FF
     in join_with CHR ''-'' (map (\<lambda>i. BIP39_EN ! unat i) [w0, w1, w2, w3]))"

text \<open>The loop over the words stops at the first word that is not in the list.\<close>

fun lookup_words :: "string list \<Rightarrow> invite_code_error + u64 list" where
  "lookup_words [] = Inr []"
| "lookup_words (w # ws) =
    (case word_index w of
       None \<Rightarrow> Inl (UnknownWord w)
     | Some i \<Rightarrow> (case lookup_words ws of Inl e \<Rightarrow> Inl e | Inr is \<Rightarrow> Inr (ucast i # is)))"

definition pack_indices :: "u64 list \<Rightarrow> u64" where
  "pack_indices is = push_bit 33 (is ! 0) OR push_bit 22 (is ! 1) OR push_bit 11 (is ! 2) OR is ! 3"

definition decode_code :: "unicode \<Rightarrow> string \<Rightarrow> invite_code_error + bytes" where
  "decode_code U code =
    (let parts = split_on CHR ''-'' (str_lowercase U (str_trim U code)) in
     if length parts \<noteq> CODE_WORDS then Inl (WrongWordCount CODE_WORDS (length parts))
     else (case lookup_words parts of
             Inl e \<Rightarrow> Inl e
           | Inr indices \<Rightarrow> Inr (canonical_token_from_n44 (pack_indices indices))))"

definition sha256 :: "crates \<Rightarrow> bytes \<Rightarrow> bytes" where
  "sha256 C bs = sha256_digest C bs"

text \<open>\<open>generate_invite\<close> on the eight bytes the operating system's generator returned.\<close>

definition generate_invite :: "crates \<Rightarrow> bytes \<Rightarrow> bytes \<times> string \<times> bytes" where
  "generate_invite C raw =
    (let n48 = be_fold ([0, 0] @ take 6 raw);
         n44 = drop_bit 4 n48;
         canonical = canonical_token_from_n44 n44;
         code = encode_code canonical;
         hash = sha256 C canonical
     in (canonical, code, hash))"

section \<open>Bits\<close>

lemma length_canonical_token [simp]:
  "length (canonical_token_from_n44 n) = CANONICAL_TOKEN_LEN"
  by (simp add: canonical_token_from_n44_def CANONICAL_TOKEN_LEN_def Let_def)

lemma be_fold_6:
  "be_fold [a, b, c, d, e, f] =
    push_bit 40 (ucast a) OR push_bit 32 (ucast b) OR push_bit 24 (ucast c) OR
    push_bit 16 (ucast d) OR push_bit 8 (ucast e) OR ucast f"
  by (simp add: be_fold_def push_bit_or ac_simps)

lemma take_canonical_token:
  "take TOKEN_PREFIX_LEN (canonical_token_from_n44 n) =
    (let p = push_bit 4 n in
     [ucast (drop_bit 40 p AND 0xFF), ucast (drop_bit 32 p AND 0xFF), ucast (drop_bit 24 p AND 0xFF),
      ucast (drop_bit 16 p AND 0xFF), ucast (drop_bit 8 p AND 0xFF), ucast (p AND 0xFF)])"
  by (simp add: canonical_token_from_n44_def TOKEN_PREFIX_LEN_def Let_def)

lemma mask_8: "(0xFF :: u64) = mask 8" by (simp add: mask_eq_exp_minus_1)
lemma mask_11: "(0x7FF :: u64) = mask 11" by (simp add: mask_eq_exp_minus_1)

lemma n44_of_canonical_token:
  "n44_from_token_prefix (canonical_token_from_n44 n) = n AND mask 44"
proof (rule bit_word_eqI)
  fix k assume k: "k < LENGTH(64)"
  show "bit (n44_from_token_prefix (canonical_token_from_n44 n)) k = bit (n AND mask 44) k"
    unfolding n44_from_token_prefix_def take_canonical_token Let_def be_fold_6 mask_8
    using k by (simp add: bit_simps less_diff_conv2 cong: conj_cong) auto
qed

lemma bound_44_iff: "n AND mask 44 = (n :: u64) \<longleftrightarrow> unat n < 2 ^ 44"
  by (simp only: take_bit_eq_mask [symmetric] word_unat_eq_iff unsigned_take_bit_eq
      take_bit_nat_eq_self_iff)

lemma pack_unpack:
  "pack_indices [drop_bit 33 n AND 0x7FF, drop_bit 22 n AND 0x7FF, drop_bit 11 n AND 0x7FF,
     n AND 0x7FF] = n AND mask 44"
proof (rule bit_word_eqI)
  fix k assume k: "k < LENGTH(64)"
  show "bit (pack_indices [drop_bit 33 n AND 0x7FF, drop_bit 22 n AND 0x7FF,
      drop_bit 11 n AND 0x7FF, n AND 0x7FF]) k = bit (n AND mask 44) k"
    unfolding pack_indices_def mask_11
    using k by (cases "bit n k"; simp add: bit_simps cong: conj_cong; auto)
qed

lemma be_fold_bits: "bit (be_fold bs) k \<Longrightarrow> k < 8 * length bs"
proof (induction bs arbitrary: k rule: rev_induct)
  case Nil
  then show ?case by (simp add: be_fold_def)
next
  case (snoc b bs)
  have eq: "be_fold (bs @ [b]) = push_bit 8 (be_fold bs) OR ucast b"
    by (simp add: be_fold_def)
  show ?case
    using snoc.prems snoc.IH [of "k - 8"] unfolding eq by (auto simp: bit_simps dest: bit_imp_le_length)
qed

lemma n44_masked: "n44_from_token_prefix token AND mask 44 = n44_from_token_prefix token"
proof (rule bit_word_eqI)
  fix k
  have "k < 44" if "bit (be_fold (take TOKEN_PREFIX_LEN token)) (4 + k)"
    using be_fold_bits [OF that] by (simp add: TOKEN_PREFIX_LEN_def)
  then show "bit (n44_from_token_prefix token AND mask 44) k = bit (n44_from_token_prefix token) k"
    by (auto simp: n44_from_token_prefix_def bit_simps)
qed

lemma n44_from_token_prefix_bound: "unat (n44_from_token_prefix token) < 2 ^ 44"
  using n44_masked bound_44_iff by blast

section \<open>Codes\<close>

lemma index_11_bits: "unat (w AND 0x7FF :: u64) < 2048"
  using and_mask_less' [of 11 w] by (simp add: mask_11 word_less_nat_alt)

lemma unat_ucast_u16 [simp]: "unat (ucast (w :: u16) :: u64) = unat w"
proof -
  have "unat w < 2 ^ 64" using unsigned_less [of w, where 'a = nat] by simp
  then show ?thesis by (simp add: unsigned_ucast_eq take_bit_nat_eq_self_iff)
qed

lemma ucast_u16_id: "unat a < 2048 \<Longrightarrow> ucast (ucast (a :: u64) :: u16) = a"
  by (simp add: word_unat_eq_iff unsigned_ucast_eq unsigned_take_bit_eq take_bit_nat_eq_self_iff)

lemma lookup_words_nth:
  "\<forall>w \<in> set is. unat w < 2048 \<Longrightarrow> lookup_words (map (\<lambda>i. BIP39_EN ! unat i) is) = Inr is"
  by (induction "is") (simp_all add: bip39.index_nth ucast_u16_id)

lemma lookup_words_Inr:
  "lookup_words ws = Inr is \<Longrightarrow> ws = map (\<lambda>i. BIP39_EN ! unat i) is \<and> (\<forall>i \<in> set is. unat i < 2048)"
proof (induction ws arbitrary: "is")
  case (Cons w ws)
  then show ?case
    by (auto split: option.splits sum.splits dest!: bip39.index_SomeD simp del: unsigned_ucast_eq)
qed simp

lemma code_word_clean:
  assumes "i < 2048"
  shows "\<forall>c \<in> set (BIP39_EN ! i). \<not> ascii_space c \<and> c \<noteq> CHR ''-'' \<and> ascii_lower c = c \<and> (of_char c :: nat) < 128"
proof
  fix c assume "c \<in> set (BIP39_EN ! i)"
  then have "CHR ''a'' \<le> c" "c \<le> CHR ''z''" using bip39.letters [OF assms] by auto
  then have "97 \<le> (of_char c :: nat)" "(of_char c :: nat) \<le> 122"
    by (simp_all add: less_eq_char_def)
  then show "\<not> ascii_space c \<and> c \<noteq> CHR ''-'' \<and> ascii_lower c = c \<and> (of_char c :: nat) < 128"
    by (auto simp: ascii_space_def ascii_lower_def)
qed


lemma encode_words:
  "encode_code token = join_with CHR ''-'' (map (\<lambda>i. BIP39_EN ! unat i)
     (let n = n44_from_token_prefix token in
      [drop_bit 33 n AND 0x7FF, drop_bit 22 n AND 0x7FF, drop_bit 11 n AND 0x7FF, n AND 0x7FF]))"
  by (simp add: encode_code_def Let_def)

lemma join_code_words_clean:
  assumes "\<forall>i \<in> set is. i < 2048"
    and "c \<in> set (join_with CHR ''-'' (map (\<lambda>i. BIP39_EN ! i) is))"
  shows "\<not> ascii_space c \<and> ascii_lower c = c \<and> (of_char c :: nat) < 128"
proof -
  from assms(2) consider "c = CHR ''-''" | i where "i \<in> set is" "c \<in> set (BIP39_EN ! i)"
    using set_join_with [of "CHR ''-''"] by fastforce
  then show ?thesis
  proof cases
    case 2
    with assms(1) code_word_clean [of i] show ?thesis by blast
  qed (simp add: ascii_space_def ascii_lower_def)
qed

lemma decode_words:
  assumes U: "unicode_ascii U" and "\<forall>i \<in> set is. unat i < 2048" and "length is = 4"
  shows "decode_code U (join_with CHR ''-'' (map (\<lambda>i. BIP39_EN ! unat i) is)) =
    Inr (canonical_token_from_n44 (pack_indices is))"
proof -
  let ?ws = "map (\<lambda>i. BIP39_EN ! unat i) is"
  let ?s = "join_with CHR ''-'' ?ws"
  have clean: "\<forall>c \<in> set ?s. \<not> ascii_space c \<and> ascii_lower c = c \<and> (of_char c :: nat) < 128"
    using join_code_words_clean [of "map unat is"] assms(2) by (auto simp: comp_def)
  then have "is_ascii ?s" "trim_ascii ?s = ?s" "to_ascii_lowercase ?s = ?s"
    by (auto simp: is_ascii_def list_all_iff trim_ascii_id to_ascii_lowercase_def map_idI)
  with U have norm: "str_lowercase U (str_trim U ?s) = ?s" by (simp add: unicode_ascii_def)
  have "split_on CHR ''-'' ?s = ?ws"
    using assms(2,3) code_word_clean by (intro split_on_join) auto
  with norm assms(2,3) show ?thesis
    by (simp add: decode_code_def CODE_WORDS_def lookup_words_nth)
qed

lemma decode_encode:
  "unicode_ascii U \<Longrightarrow>
    decode_code U (encode_code token) = Inr (canonical_token_from_n44 (n44_from_token_prefix token))"
  unfolding encode_words Let_def
  by (subst decode_words) (auto simp: index_11_bits pack_unpack n44_masked)

lemma n44_of_be_fold: "unat (drop_bit 4 (be_fold ([0, 0] @ take 6 raw))) < 2 ^ 44"
proof -
  have "be_fold ([0, 0] @ take 6 raw) = be_fold (take 6 raw)"
    by (simp add: be_fold_def)
  then show ?thesis
    using n44_from_token_prefix_bound [of raw] by (simp add: n44_from_token_prefix_def TOKEN_PREFIX_LEN_def)
qed

lemma unpack_pack:
  assumes "unat a < 2048" "unat b < 2048" "unat c < 2048" "unat d < 2048"
  defines "n \<equiv> pack_indices [a, b, c, d]"
  shows "drop_bit 33 n AND 0x7FF = a" "drop_bit 22 n AND 0x7FF = b" "drop_bit 11 n AND 0x7FF = c"
    "n AND 0x7FF = d" "n AND mask 44 = n"
proof -
  have small: "unat w < 2048 \<Longrightarrow> bit w k \<Longrightarrow> k < 11" for w :: u64 and k
  proof -
    assume "unat w < 2048"
    then have "take_bit 11 w = w"
      by (simp add: word_unat_eq_iff unsigned_take_bit_eq take_bit_nat_eq_self_iff)
    moreover assume "bit w k"
    ultimately show "k < 11" by (metis bit_take_bit_iff)
  qed
  note s = assms(1-4)[THEN small]
  show "drop_bit 33 n AND 0x7FF = a" "drop_bit 22 n AND 0x7FF = b" "drop_bit 11 n AND 0x7FF = c"
    "n AND 0x7FF = d" "n AND mask 44 = n"
    unfolding n_def pack_indices_def mask_11
    by (rule bit_word_eqI; auto simp: bit_simps dest: s)+
qed

lemma find_unknown_word:
  "lookup_words ws = (case find_first (\<lambda>w. w \<notin> set BIP39_EN) ws of
     Some w \<Rightarrow> Inl (UnknownWord w)
   | None \<Rightarrow> Inr (map (\<lambda>w. ucast (the (word_index w))) ws))"
proof (induction ws)
  case (Cons w ws)
  then show ?case
    by (cases "word_index w") (auto simp: bip39.index_None_iff [symmetric] split: option.splits)
qed simp

section \<open>Properties\<close>

text \<open>
  C31. A freshly minted invite is consistent: the code handed to the user decodes to exactly the
  canonical token, the token is 32 bytes with bytes 6..31 zero, and the database key is its SHA-256,
  so the hash computed from a typed code finds the row that was stored.
\<close>

theorem generate_invite_consistent:
  assumes "unicode_ascii U" and "generate_invite C raw = (token, code, hash)"
  shows "decode_code U code = Inr token \<and> hash = sha256 C token \<and>
    length token = CANONICAL_TOKEN_LEN \<and> drop 6 token = replicate 26 0"
proof -
  let ?n = "drop_bit 4 (be_fold ([0, 0] @ take 6 raw))"
  from assms(2) have eqs: "token = canonical_token_from_n44 ?n" "code = encode_code token"
    "hash = sha256 C token"
    by (auto simp: generate_invite_def Let_def)
  have "n44_from_token_prefix token = ?n"
    unfolding eqs(1) n44_of_canonical_token bound_44_iff by (rule n44_of_be_fold)
  then have "decode_code U code = Inr token"
    unfolding eqs(2) decode_encode [OF assms(1)] by (simp add: eqs(1))
  moreover have "drop 6 token = replicate 26 0"
    by (simp add: eqs(1) canonical_token_from_n44_def Let_def CANONICAL_TOKEN_LEN_def)
  ultimately show ?thesis using eqs by simp
qed

theorem generate_invite_consistent_witness:
  "let (token, code, hash) = generate_invite sample_crates [0, 0, 0, 0, 0, 0, 1, 2] in
   decode_code ascii_only code = Inr token"
  using generate_invite_consistent [OF unicode_ascii_ascii_only,
      of sample_crates "[0, 0, 0, 0, 0, 0, 1, 2]"]
  by (simp split: prod.splits)

text \<open>
  C32. Decoding accepts exactly four known words: a wrong number of pieces is \<open>WrongWordCount\<close>, else
  the first piece outside the list is \<open>UnknownWord\<close>, and otherwise the token is 32 bytes whose code is
  the trimmed, lower-cased input, so no two different normalised codes share a token.
\<close>

theorem decode_code_exact:
  defines "parts U code \<equiv> split_on CHR ''-'' (str_lowercase U (str_trim U code))"
  shows "case decode_code U code of
      Inl (WrongWordCount e g) \<Rightarrow> e = 4 \<and> g = length (parts U code) \<and> g \<noteq> 4
    | Inl (UnknownWord w) \<Rightarrow> length (parts U code) = 4 \<and>
        find_first (\<lambda>w. w \<notin> set BIP39_EN) (parts U code) = Some w
    | Inr token \<Rightarrow> length (parts U code) = 4 \<and> set (parts U code) \<subseteq> set BIP39_EN \<and>
        length token = 32 \<and> encode_code token = str_lowercase U (str_trim U code)"
proof (cases "decode_code U code")
  case (Inl e)
  then show ?thesis
    by (auto simp: decode_code_def parts_def CODE_WORDS_def find_unknown_word Let_def
        split: if_splits option.splits)
next
  case (Inr token)
  then obtain idx where len: "length (parts U code) = 4" and idx: "lookup_words (parts U code) = Inr idx"
    and tok: "token = canonical_token_from_n44 (pack_indices idx)"
    by (auto simp: decode_code_def parts_def CODE_WORDS_def Let_def split: if_splits sum.splits)
  from lookup_words_Inr [OF idx] have ws: "parts U code = map (\<lambda>i. BIP39_EN ! unat i) idx"
    and small: "\<forall>i \<in> set idx. unat i < 2048" by auto
  obtain a b c d where abcd: "idx = [a, b, c, d]"
    using len ws by (auto simp: length_Suc_conv numeral_eq_Suc)
  have "encode_code token = join_with CHR ''-'' (parts U code)"
    using small unpack_pack [of a b c d]
    by (simp add: encode_words tok abcd ws n44_of_canonical_token)
  then have "encode_code token = str_lowercase U (str_trim U code)"
    by (simp add: parts_def join_split_on)
  moreover have "set (parts U code) \<subseteq> set BIP39_EN"
    using small by (auto simp: ws intro: bip39.nth_in)
  ultimately show ?thesis using Inr len tok by (simp add: CANONICAL_TOKEN_LEN_def)
qed

end
