(* ===== verification/Invites.thy ===== *)
theory Invites
  imports Rooms InviteCode
begin

text \<open>
  \<open>server/src/invites.rs\<close>: the life cycle of an invite row. The code functions it re-exports are in theory
  InviteCode, the REST preview in theory Rest.
\<close>

definition INVITE_TTL_SECONDS :: int where
  "INVITE_TTL_SECONDS = 60 * 60"

record invite_row =
  ir_token_hash :: bytes
  ir_inviter_id :: account_id
  ir_expires_at :: timestamp
  ir_consumed_at :: "timestamp option"

datatype invite_state = Pending | Expired | Consumed

definition state :: "invite_row \<Rightarrow> timestamp \<Rightarrow> invite_state" where
  "state i now =
    (if ir_consumed_at i \<noteq> None then Consumed else if ir_expires_at i < now then Expired else Pending)"

definition delete_open_invites :: "account_id \<Rightarrow> unit sql" where
  "delete_open_invites inviter d = (Inr (), d\<lparr>invites :=
     filter (\<lambda>i. \<not> (iv_inviter_id i = inviter \<and> iv_consumed_at i = None)) (invites d)\<rparr>)"

definition insert_invite :: "bytes \<Rightarrow> account_id \<Rightarrow> timestamp \<Rightarrow> string option \<Rightarrow> unit sql" where
  "insert_invite h inviter exp rid d =
    (if h \<in> iv_token_hash ` set (invites d) then (Inl UniqueViolation, d)
     else if inviter \<notin> account_ids d \<or> (case rid of None \<Rightarrow> False | Some r \<Rightarrow> r \<notin> room_ids d)
     then (Inl ForeignKeyViolation, d)
     else (Inr (), d\<lparr>invites := invites d @ [\<lparr>iv_token_hash = h, iv_inviter_id = inviter,
        iv_expires_at = exp, iv_consumed_at = None, iv_room_id = rid\<rparr>]\<rparr>))"

definition create_invite_record :: "account_id \<Rightarrow> bytes \<Rightarrow> timestamp \<Rightarrow> string option \<Rightarrow> unit sql" where
  "create_invite_record inviter h exp rid = transaction
    (sql_then (delete_open_invites inviter) (\<lambda>_. insert_invite h inviter exp rid))"

definition invite_by_hash :: "bytes \<Rightarrow> db \<Rightarrow> invite_row_db option" where
  "invite_by_hash h d = find_first (\<lambda>i. iv_token_hash i = h) (invites d)"

definition room_for_invite :: "bytes \<Rightarrow> string option sql" where
  "room_for_invite h = sql_read (\<lambda>d. case invite_by_hash h d of None \<Rightarrow> None | Some i \<Rightarrow> iv_room_id i)"

definition invite_row_of :: "invite_row_db \<Rightarrow> invite_row" where
  "invite_row_of i = \<lparr>ir_token_hash = iv_token_hash i, ir_inviter_id = iv_inviter_id i,
     ir_expires_at = iv_expires_at i, ir_consumed_at = iv_consumed_at i\<rparr>"

definition lookup_invite :: "bytes \<Rightarrow> invite_row option sql" where
  "lookup_invite h = sql_read (\<lambda>d. map_option invite_row_of (invite_by_hash h d))"

definition mark_consumed :: "bytes \<Rightarrow> timestamp \<Rightarrow> unit sql" where
  "mark_consumed h at d = (Inr (), d\<lparr>invites := update_where
     (\<lambda>i. iv_token_hash i = h \<and> iv_consumed_at i = None) (\<lambda>i. i\<lparr>iv_consumed_at := Some at\<rparr>) (invites d)\<rparr>)"

text \<open>Time stamps count microseconds.\<close>

definition default_expiry :: "timestamp \<Rightarrow> timestamp" where
  "default_expiry now = now + INVITE_TTL_SECONDS * 1000000"

datatype qr_error = QrEncode | QrRender

definition qr_png_base64 :: "crates \<Rightarrow> string \<Rightarrow> qr_error + string" where
  "qr_png_base64 C code =
    (case qr_encode C code of None \<Rightarrow> Inl QrEncode
     | Some qr \<Rightarrow> (case png_render C qr of None \<Rightarrow> Inl QrRender | Some png \<Rightarrow> Inr (b64_encode C png)))"

declare delete_open_invites_def [op_defs] insert_invite_def [op_defs] mark_consumed_def [op_defs]

section \<open>What the statements keep\<close>

lemma keeps_delete_open_invites [intro]: "keeps schema_ok (delete_open_invites i)"
proof (rule keepsI)
  fix d assume "schema_ok d"
  then show "schema_ok (snd (delete_open_invites i d))"
    unfolding delete_open_invites_def schema_ok_def
    by (auto simp: invites_ok_def distinct_map_filter)
qed

lemma keeps_insert_invite [intro]: "keeps schema_ok (insert_invite h i exp rid)"
proof (rule keepsI)
  fix d assume "schema_ok d"
  then show "schema_ok (snd (insert_invite h i exp rid d))"
    unfolding insert_invite_def schema_ok_def
    by (auto simp: invites_ok_def split: option.splits)
qed

lemma keeps_create_invite:
  assumes "keeps I (delete_open_invites i)" and "keeps I (insert_invite h i exp rid)"
  shows "keeps I (create_invite_record i h exp rid)"
  unfolding create_invite_record_def by (intro keeps_transaction keeps_then assms)

lemma keeps_mark_consumed [intro]: "keeps schema_ok (mark_consumed h at)"
proof (rule keepsI)
  fix d assume ok: "schema_ok d"
  then have "invites_ok (snd (mark_consumed h at d))"
    unfolding mark_consumed_def schema_ok_def invites_ok_def
    by (auto simp: map_update_where dest!: in_update_whereD)
  then show "schema_ok (snd (mark_consumed h at d))"
    using ok unfolding mark_consumed_def schema_ok_def by simp
qed

end
