(* ===== verification/Routing.thy ===== *)
theory Routing
  imports Wire
begin

text \<open>
  \<open>server/src/routing.rs\<close>: the open sessions of each user name. A \<open>Sender\<close> is the number of its channel, so
  \<open>same_channel\<close> is equality; a channel keeps the frames queued on it and whether its receiving end still
  exists. The registry is the contract \<open>session_registry\<close>, which the model satisfies.
\<close>

type_synonym sender = nat

record chan =
  ch_queue :: "room_server_frame list"
  ch_open :: bool

type_synonym chans = "sender \<Rightarrow> chan"
type_synonym routing = "string \<Rightarrow> sender list option"

definition new_routing :: routing where
  "new_routing = (\<lambda>_. None)"

definition register :: "string \<Rightarrow> sender \<Rightarrow> routing \<Rightarrow> routing" where
  "register u c r = r(u := Some ((case r u of None \<Rightarrow> [] | Some cs \<Rightarrow> cs) @ [c]))"

definition unregister :: "string \<Rightarrow> sender \<Rightarrow> routing \<Rightarrow> routing" where
  "unregister u c r =
    (case r u of None \<Rightarrow> r
     | Some cs \<Rightarrow> let cs' = filter (\<lambda>s. s \<noteq> c) cs in if cs' = [] then r(u := None) else r(u := Some cs'))"

definition is_online :: "string \<Rightarrow> routing \<Rightarrow> bool" where
  "is_online u r \<longleftrightarrow> r u \<noteq> None"

text \<open>\<open>tx.send(frame)\<close>: fails when the receiver is gone.\<close>

definition chan_send :: "sender \<Rightarrow> room_server_frame \<Rightarrow> chans \<Rightarrow> bool \<times> chans" where
  "chan_send c f ch =
    (if ch_open (ch c) then (True, ch(c := (ch c)\<lparr>ch_queue := ch_queue (ch c) @ [f]\<rparr>)) else (False, ch))"

fun send_all :: "sender list \<Rightarrow> room_server_frame \<Rightarrow> nat \<Rightarrow> chans \<Rightarrow> nat \<times> chans" where
  "send_all [] f delivered ch = (delivered, ch)"
| "send_all (c # cs) f delivered ch =
    (case chan_send c f ch of (ok, ch') \<Rightarrow> send_all cs f (if ok then delivered + 1 else delivered) ch')"

definition deliver_to :: "string \<Rightarrow> room_server_frame \<Rightarrow> routing \<Rightarrow> chans \<Rightarrow> nat \<times> chans" where
  "deliver_to u f r ch = (case r u of None \<Rightarrow> (0, ch) | Some senders \<Rightarrow> send_all senders f 0 ch)"

section \<open>The registry contract\<close>

datatype 'u session_event = Connect 'u sender | Disconnect 'u sender

locale session_registry =
  fixes sessions :: "'r \<Rightarrow> 'u \<Rightarrow> sender list"
    and reg :: "'u \<Rightarrow> sender \<Rightarrow> 'r \<Rightarrow> 'r"
    and unreg :: "'u \<Rightarrow> sender \<Rightarrow> 'r \<Rightarrow> 'r"
    and start :: 'r
  assumes start_sessions: "sessions start u = []"
    and reg_sessions: "sessions (reg u c r) v = (if v = u then sessions r u @ [c] else sessions r v)"
    and unreg_sessions:
      "sessions (unreg u c r) v = (if v = u then filter (\<lambda>s. s \<noteq> c) (sessions r u) else sessions r v)"
begin

definition registry_step :: "'u session_event \<Rightarrow> 'r \<Rightarrow> 'r" where
  "registry_step e r = (case e of Connect u c \<Rightarrow> reg u c r | Disconnect u c \<Rightarrow> unreg u c r)"

definition registry_after :: "'u session_event list \<Rightarrow> 'r" where
  "registry_after evs = fold registry_step evs start"

text \<open>The channels in the registry are the ones whose last event is a connect.\<close>

lemma connected_iff:
  "c \<in> set (sessions (registry_after evs) u) \<longleftrightarrow>
     (\<exists>pre post. evs = pre @ Connect u c # post \<and> Disconnect u c \<notin> set post)"
proof (induction evs rule: rev_induct)
  case Nil
  then show ?case by (simp add: registry_after_def start_sessions)
next
  case (snoc e evs)
  have step: "registry_after (evs @ [e]) = registry_step e (registry_after evs)"
    by (simp add: registry_after_def)
  have split: "(\<exists>pre post. evs @ [e] = pre @ Connect u c # post \<and> Disconnect u c \<notin> set post) \<longleftrightarrow>
      e = Connect u c \<or> (e \<noteq> Disconnect u c \<and>
        (\<exists>pre post. evs = pre @ Connect u c # post \<and> Disconnect u c \<notin> set post))"
    (is "?l \<longleftrightarrow> ?r")
  proof
    assume ?l
    then obtain pre post where pp: "evs @ [e] = pre @ Connect u c # post" "Disconnect u c \<notin> set post" by blast
    then show ?r by (cases post rule: rev_cases) auto
  next
    assume ?r
    then show ?l
    proof
      assume "e \<noteq> Disconnect u c \<and> (\<exists>pre post. evs = pre @ Connect u c # post \<and> Disconnect u c \<notin> set post)"
      then obtain pre post where "evs = pre @ Connect u c # post" "Disconnect u c \<notin> set (post @ [e])" by auto
      then show ?l by (metis append.assoc append_Cons)
    next
      assume "e = Connect u c"
      then have "evs @ [e] = evs @ Connect u c # [] \<and> Disconnect u c \<notin> set []" by simp
      then show ?l by blast
    qed
  qed
  show ?case
    unfolding split step using snoc.IH
    by (cases e) (auto simp: registry_step_def reg_sessions unreg_sessions)
qed

lemma distinct_sessions:
  assumes "\<And>pre post u c. evs = pre @ Connect u c # post \<Longrightarrow> \<not> (\<exists>v. Connect v c \<in> set pre)"
  shows "distinct (sessions (registry_after evs) u)"
  using assms
proof (induction evs rule: rev_induct)
  case Nil
  then show ?case by (simp add: registry_after_def start_sessions)
next
  case (snoc e evs)
  have "distinct (sessions (registry_after evs) u)"
    using snoc.IH snoc.prems by (metis append.assoc append_Cons)
  moreover have "registry_after (evs @ [e]) = registry_step e (registry_after evs)"
    by (simp add: registry_after_def)
  moreover have "c \<notin> set (sessions (registry_after evs) u)" if "e = Connect u c" for c
    using snoc.prems [of evs u c "[]"] that unfolding connected_iff by auto
  ultimately show ?case
    by (cases e) (auto simp: registry_step_def reg_sessions unreg_sessions)
qed

end

definition sessions_of :: "routing \<Rightarrow> string \<Rightarrow> sender list" where
  "sessions_of r u = (case r u of None \<Rightarrow> [] | Some cs \<Rightarrow> cs)"

interpretation routes: session_registry sessions_of register unregister new_routing
  by unfold_locales
    (auto simp: sessions_of_def register_def unregister_def new_routing_def Let_def split: option.splits)

section \<open>Delivery\<close>

lemma send_all_exact:
  "distinct cs \<Longrightarrow> send_all cs f n ch =
    (n + length (filter (\<lambda>c. ch_open (ch c)) cs),
     \<lambda>c. if c \<in> set cs \<and> ch_open (ch c) then (ch c)\<lparr>ch_queue := ch_queue (ch c) @ [f]\<rparr> else ch c)"
proof (induction cs arbitrary: n ch)
  case (Cons c cs)
  have open_eq: "filter (\<lambda>x. ch_open (if x = c then (ch c)\<lparr>ch_queue := q\<rparr> else ch x)) cs =
      filter (\<lambda>x. ch_open (ch x)) cs" for q
    by (rule filter_cong) auto
  show ?case
    using Cons.prems by (auto simp: chan_send_def Cons.IH open_eq fun_eq_iff)
qed (simp add: fun_eq_iff)

text \<open>No entry of the registry is empty, so a key is present exactly while its user has a session.\<close>

definition routing_ok :: "routing \<Rightarrow> bool" where
  "routing_ok r \<longleftrightarrow> (\<forall>u. r u \<noteq> Some [])"

lemma routing_ok_ops [simp]:
  "routing_ok new_routing" "routing_ok r \<Longrightarrow> routing_ok (register u c r)"
  "routing_ok r \<Longrightarrow> routing_ok (unregister u c r)"
  by (auto simp: routing_ok_def new_routing_def register_def unregister_def Let_def split: option.splits)

lemma routing_ok_after: "routing_ok (routes.registry_after evs)"
  unfolding routes.registry_after_def
  by (induction evs rule: rev_induct) (auto simp: routes.registry_step_def split: session_event.splits)

lemma is_online_iff: "routing_ok r \<Longrightarrow> is_online u r \<longleftrightarrow> sessions_of r u \<noteq> []"
  by (auto simp: is_online_def sessions_of_def routing_ok_def split: option.splits)

lemma deliver_sessions: "deliver_to u f r ch = send_all (sessions_of r u) f 0 ch"
  by (simp add: deliver_to_def sessions_of_def split: option.splits)

definition routing_after :: "string session_event list \<Rightarrow> routing" where
  "routing_after evs = fold (\<lambda>e r. case e of Connect u c \<Rightarrow> register u c r | Disconnect u c \<Rightarrow> unregister u c r)
     evs new_routing"

lemma routing_after_eq: "routing_after evs = routes.registry_after evs"
  by (simp add: routing_after_def routes.registry_after_def routes.registry_step_def [abs_def])

section \<open>Properties\<close>

text \<open>
  After any history of connects and disconnects a user is online exactly when one of their sessions
  has connected and not disconnected since.
\<close>

theorem online_iff_connected:
  "is_online u (routing_after evs) \<longleftrightarrow>
    (\<exists>c pre post. evs = pre @ Connect u c # post \<and> Disconnect u c \<notin> set post)"
  unfolding routing_after_eq is_online_iff [OF routing_ok_after]
  using routes.connected_iff [of _ evs u] by (metis list.set_intros(1) neq_Nil_conv empty_iff empty_set)

text \<open>
  A delivery reaches each connected session of the user exactly once and no other channel, whatever
  the history, as long as no channel was registered twice; it counts the sessions whose receiver still
  exists, and a session whose receiver is gone loses the frame without disturbing the others.
\<close>

theorem deliver_exact:
  assumes "\<And>pre post v c. evs = pre @ Connect v c # post \<Longrightarrow> \<not> (\<exists>w. Connect w c \<in> set pre)"
  shows "deliver_to u f (routing_after evs) ch =
    (card {c. ch_open (ch c) \<and> (\<exists>pre post. evs = pre @ Connect u c # post \<and> Disconnect u c \<notin> set post)},
     \<lambda>c. if ch_open (ch c) \<and> (\<exists>pre post. evs = pre @ Connect u c # post \<and> Disconnect u c \<notin> set post)
       then (ch c)\<lparr>ch_queue := ch_queue (ch c) @ [f]\<rparr> else ch c)"
proof -
  let ?cs = "sessions_of (routing_after evs) u"
  have dist: "distinct ?cs"
    unfolding routing_after_eq by (rule routes.distinct_sessions) (rule assms)
  have mem: "c \<in> set ?cs \<longleftrightarrow> (\<exists>pre post. evs = pre @ Connect u c # post \<and> Disconnect u c \<notin> set post)" for c
    unfolding routing_after_eq by (rule routes.connected_iff)
  have "length (filter (\<lambda>c. ch_open (ch c)) ?cs) = card (set (filter (\<lambda>c. ch_open (ch c)) ?cs))"
    using dist by (intro distinct_card [symmetric] distinct_filter)
  also have "set (filter (\<lambda>c. ch_open (ch c)) ?cs) = {c. ch_open (ch c) \<and> c \<in> set ?cs}"
    by auto
  finally show ?thesis
    unfolding deliver_sessions send_all_exact [OF dist] mem [symmetric] by (auto simp: fun_eq_iff)
qed

theorem deliver_exact_witness:
  "fst (deliver_to ''kai'' (Rooms []) (routing_after [Connect ''kai'' 0, Connect ''court'' 1])
     (\<lambda>_. \<lparr>ch_queue = [], ch_open = True\<rparr>)) =
   card {c. \<exists>pre post. [Connect ''kai'' 0, Connect ''court'' 1] = pre @ Connect ''kai'' c # post \<and>
     Disconnect ''kai'' c \<notin> set post}"
  by (subst deliver_exact) (auto simp: Cons_eq_append_conv)

end
