(* ===== verification/Calls.thy ===== *)
theory Calls
  imports Prelude
begin

text \<open>
  \<open>server/src/calls.rs\<close>: call invites held for a callee whose application is being woken. Instants count
  microseconds. The representation keeps no empty list; \<open>held\<close> is the abstract view.
\<close>

definition PENDING_TTL :: int where
  "PENDING_TTL = 45 * 1000000"

record pending =
  pc_call_id :: string
  pc_room_id :: string
  pc_from :: string
  pc_offer :: string
  pc_video :: bool
  pc_expires_at :: int

type_synonym pending_calls = "account_id \<Rightarrow> pending list option"

definition new_pending_calls :: pending_calls where
  "new_pending_calls = (\<lambda>_. None)"

definition insert_pending :: "account_id \<Rightarrow> pending \<Rightarrow> pending_calls \<Rightarrow> pending_calls" where
  "insert_pending callee p m = m(callee := Some ((case m callee of None \<Rightarrow> [] | Some v \<Rightarrow> v) @ [p]))"

definition take_for :: "account_id \<Rightarrow> int \<Rightarrow> pending_calls \<Rightarrow> pending list \<times> pending_calls" where
  "take_for callee now m =
    (case m callee of
       Some v \<Rightarrow> (filter (\<lambda>p. pc_expires_at p > now) v, m(callee := None))
     | None \<Rightarrow> ([], m))"

definition remove_pending :: "account_id \<Rightarrow> string \<Rightarrow> pending_calls \<Rightarrow> pending_calls" where
  "remove_pending callee call m =
    (case m callee of None \<Rightarrow> m
     | Some v \<Rightarrow> let v' = filter (\<lambda>p. pc_call_id p \<noteq> call) v in
         if v' = [] then m(callee := None) else m(callee := Some v'))"

definition expire_due :: "int \<Rightarrow> pending_calls \<Rightarrow> pending_calls" where
  "expire_due now m = (\<lambda>k. case m k of None \<Rightarrow> None
     | Some v \<Rightarrow> let v' = filter (\<lambda>p. pc_expires_at p > now) v in if v' = [] then None else Some v')"

section \<open>The abstract view\<close>

definition held :: "pending_calls \<Rightarrow> account_id \<Rightarrow> pending list" where
  "held m k = (case m k of None \<Rightarrow> [] | Some v \<Rightarrow> v)"

definition pending_ok :: "pending_calls \<Rightarrow> bool" where
  "pending_ok m \<longleftrightarrow> (\<forall>k. m k \<noteq> Some [])"

lemma held_ops:
  "held (insert_pending callee p m) = (held m)(callee := held m callee @ [p])"
  "held (snd (take_for callee now m)) = (held m)(callee := [])"
  "held (remove_pending callee call m) = (held m)(callee := filter (\<lambda>p. pc_call_id p \<noteq> call) (held m callee))"
  "held (expire_due now m) = (\<lambda>k. filter (\<lambda>p. pc_expires_at p > now) (held m k))"
  by (auto simp: held_def insert_pending_def take_for_def remove_pending_def expire_due_def Let_def fun_eq_iff
      split: option.splits)

lemma take_for_held: "fst (take_for callee now m) = filter (\<lambda>p. pc_expires_at p > now) (held m callee)"
  by (simp add: held_def take_for_def split: option.splits)

lemma pending_ok_ops:
  "pending_ok new_pending_calls"
  "pending_ok m \<Longrightarrow> pending_ok (insert_pending callee p m)"
  "pending_ok m \<Longrightarrow> pending_ok (snd (take_for callee now m))"
  "pending_ok m \<Longrightarrow> pending_ok (remove_pending callee call m)"
  "pending_ok (expire_due now m)"
  by (auto simp: pending_ok_def new_pending_calls_def insert_pending_def take_for_def remove_pending_def
      expire_due_def Let_def split: option.splits)

text \<open>
  Sweeping is invisible: however often and whenever the registry was swept before, a callee that connects at
  or after the last sweep is handed the same invites as without the sweeps.
\<close>

lemma sweep_invisible:
  assumes "\<forall>t \<in> set sweeps. t \<le> now"
  shows "fst (take_for callee now (fold expire_due sweeps m)) = fst (take_for callee now m)"
  using assms
proof (induction sweeps arbitrary: m)
  case (Cons t sweeps)
  have "filter (\<lambda>p. pc_expires_at p > now) (filter (\<lambda>p. pc_expires_at p > t) v) =
      filter (\<lambda>p. pc_expires_at p > now) v" for v
    using Cons.prems by (auto intro!: filter_cong)
  then show ?case
    using Cons by (simp add: take_for_held held_ops)
qed simp

section \<open>Properties\<close>

text \<open>
  C29. The registry refines one list of held invites per callee: holding an invite appends it, a take hands
  out the unexpired ones and leaves nothing behind, a cancellation removes exactly the named call of that
  callee, and a sweep removes exactly the expired invites and frees every entry that becomes empty.
\<close>

theorem pending_calls_refine:
  "held (insert_pending callee p m) = (held m)(callee := held m callee @ [p])
   \<and> fst (take_for callee now m) = filter (\<lambda>p. pc_expires_at p > now) (held m callee)
   \<and> held (snd (take_for callee now m)) = (held m)(callee := [])
   \<and> held (remove_pending callee call m) = (held m)(callee := filter (\<lambda>p. pc_call_id p \<noteq> call) (held m callee))
   \<and> held (expire_due now m) = (\<lambda>k. filter (\<lambda>p. pc_expires_at p > now) (held m k))
   \<and> (expire_due now m k = None) = (filter (\<lambda>p. pc_expires_at p > now) (held m k) = [])"
  using held_ops take_for_held
  by (auto simp: expire_due_def held_def Let_def split: option.splits)

end
