(* ===== verification/RateLimit.thy ===== *)
theory RateLimit
  imports Prelude
begin

text \<open>
  \<open>WindowRateLimiter\<close> of \<open>server/src/ws.rs\<close> and its settings. Instants and durations count microseconds; the
  queue is kept front first.
\<close>

record rate_limiter =
  hits :: "int list"
  window :: int
  max_hits :: nat

definition new_limiter :: "int \<Rightarrow> nat \<Rightarrow> rate_limiter" where
  "new_limiter w m = \<lparr>hits = [], window = w, max_hits = m\<rparr>"

text \<open>\<open>Instant::duration_since\<close> saturates at zero.\<close>

definition duration_since :: "int \<Rightarrow> int \<Rightarrow> int" where
  "duration_since now earlier = max 0 (now - earlier)"

definition allow :: "int \<Rightarrow> rate_limiter \<Rightarrow> bool \<times> rate_limiter" where
  "allow now rl =
    (let live = dropWhile (\<lambda>front. duration_since now front > window rl) (hits rl) in
     if length live \<ge> max_hits rl then (False, rl\<lparr>hits := live\<rparr>)
     else (True, rl\<lparr>hits := live @ [now]\<rparr>))"

definition UPLOAD_RL_WINDOW :: int where "UPLOAD_RL_WINDOW = 60 * 1000000"
definition UPLOAD_RL_MAX :: nat where "UPLOAD_RL_MAX = 60"
definition TYPING_RL_WINDOW :: int where "TYPING_RL_WINDOW = 10 * 1000000"
definition TYPING_RL_MAX :: nat where "TYPING_RL_MAX = 40"
definition TURN_RL_WINDOW :: int where "TURN_RL_WINDOW = 60 * 1000000"
definition TURN_RL_MAX :: nat where "TURN_RL_MAX = 10"

text \<open>The instants at which a limiter lets an attempt through, for attempts at the instants \<open>ts\<close>.\<close>

fun grants :: "rate_limiter \<Rightarrow> int list \<Rightarrow> int list" where
  "grants rl [] = []"
| "grants rl (t # ts) =
    (case allow t rl of (ok, rl') \<Rightarrow> (if ok then [t] else []) @ grants rl' ts)"

text \<open>The specification: an attempt goes through when fewer than \<open>m\<close> grants lie in the window that ends now.\<close>

fun window_grants :: "int \<Rightarrow> nat \<Rightarrow> int list \<Rightarrow> int list \<Rightarrow> int list" where
  "window_grants w m past [] = []"
| "window_grants w m past (t # ts) =
    (if length (filter (\<lambda>g. t - g \<le> w) past) < m then t # window_grants w m (past @ [t]) ts
     else window_grants w m past ts)"

section \<open>The queue holds the live grants\<close>

lemma dropWhile_sorted_filter:
  "sorted xs \<Longrightarrow> dropWhile (\<lambda>x. now - x > (w :: int)) xs = filter (\<lambda>x. now - x \<le> w) xs"
proof (induction xs)
  case (Cons x xs)
  then show ?case by (auto intro!: filter_True [symmetric])
qed simp

lemma duration_since_le: "0 \<le> w \<Longrightarrow> duration_since now x > w \<longleftrightarrow> now - x > w"
  by (auto simp: duration_since_def)

text \<open>The queue after the past grants, as far as any later instant can see.\<close>

definition queue_of :: "rate_limiter \<Rightarrow> int list \<Rightarrow> int \<Rightarrow> bool" where
  "queue_of rl past t \<longleftrightarrow> sorted (hits rl) \<and> (\<forall>g \<in> set (hits rl). g \<le> t) \<and>
     filter (\<lambda>g. t - g \<le> window rl) (hits rl) = filter (\<lambda>g. t - g \<le> window rl) past"

lemma filter_later:
  assumes "filter (\<lambda>g. t - g \<le> w) xs = filter (\<lambda>g. t - g \<le> w) ys" and "t \<le> (t' :: int)"
  shows "filter (\<lambda>g. t' - g \<le> w) xs = filter (\<lambda>g. t' - g \<le> w) ys"
proof -
  have "filter (\<lambda>g. t' - g \<le> w) zs = filter (\<lambda>g. t' - g \<le> w) (filter (\<lambda>g. t - g \<le> w) zs)" for zs
    using assms(2) by (auto simp: intro!: filter_cong)
  then show ?thesis using assms(1) by metis
qed

lemma queue_of_later:
  "queue_of rl past t \<Longrightarrow> t \<le> t' \<Longrightarrow> queue_of rl past t'"
  using filter_later [of t "window rl" "hits rl" past t'] by (auto simp: queue_of_def)

lemma allow_step:
  assumes "queue_of rl past t" and "0 \<le> window rl" and "allow t rl = (ok, rl')"
  shows "ok \<longleftrightarrow> length (filter (\<lambda>g. t - g \<le> window rl) past) < max_hits rl"
    and "queue_of rl' (if ok then past @ [t] else past) t"
    and "window rl' = window rl" and "max_hits rl' = max_hits rl"
proof -
  have live: "dropWhile (\<lambda>front. duration_since t front > window rl) (hits rl) =
      filter (\<lambda>g. t - g \<le> window rl) past"
    using assms(1,2) dropWhile_sorted_filter [of "hits rl" "window rl" t]
    by (simp add: queue_of_def duration_since_le)
  have live': "dropWhile (\<lambda>front. duration_since t front > window rl) (hits rl) =
      filter (\<lambda>g. t - g \<le> window rl) (hits rl)"
    using assms(1,2) dropWhile_sorted_filter [of "hits rl" "window rl" t]
    by (simp add: queue_of_def duration_since_le)
  show "ok \<longleftrightarrow> length (filter (\<lambda>g. t - g \<le> window rl) past) < max_hits rl"
    "window rl' = window rl" "max_hits rl' = max_hits rl"
    using assms(3) by (auto simp: allow_def Let_def live split: if_splits)
  define live_hits where "live_hits = filter (\<lambda>g. t - g \<le> window rl) (hits rl)"
  have hits': "hits rl' = live_hits @ (if ok then [t] else [])" and w: "window rl' = window rl"
    using assms(3) by (auto simp: allow_def Let_def live' live_hits_def split: if_splits)
  have "sorted live_hits" "\<forall>g \<in> set live_hits. g \<le> t"
    using assms(1) unfolding queue_of_def live_hits_def set_filter by (blast intro: sorted_wrt_filter)+
  moreover have "filter (\<lambda>g. t - g \<le> window rl) live_hits = filter (\<lambda>g. t - g \<le> window rl) past"
    using assms(1) by (simp add: queue_of_def live_hits_def)
  ultimately show "queue_of rl' (if ok then past @ [t] else past) t"
    unfolding queue_of_def hits' w using assms(2) by (simp add: sorted_append)
qed

lemma grants_window:
  assumes "sorted (t0 # ts)" and "queue_of rl past t0" and "0 \<le> window rl"
  shows "grants rl ts = window_grants (window rl) (max_hits rl) past ts"
  using assms
proof (induction ts arbitrary: rl past t0)
  case (Cons t ts)
  obtain ok rl' where a: "allow t rl = (ok, rl')" by fastforce
  have q: "queue_of rl past t"
    using Cons.prems by (auto intro: queue_of_later)
  note step = allow_step [OF q Cons.prems(3) a]
  have "grants rl' ts = window_grants (window rl) (max_hits rl) (if ok then past @ [t] else past) ts"
    using Cons.IH [of t rl' "if ok then past @ [t] else past"] Cons.prems step by simp
  then show ?case
    using a step(1) by simp
qed simp

lemma queue_of_new: "queue_of (new_limiter w m) [] t"
  by (simp add: queue_of_def new_limiter_def)

lemma window_grants_bound:
  assumes "sorted (t0 # ts)" and "\<forall>g \<in> set past. g \<le> t0"
    and "\<And>s. length (filter (\<lambda>g. s \<le> g \<and> g \<le> s + w) past) \<le> m"
  shows "length (filter (\<lambda>g. s \<le> g \<and> g \<le> s + w) (past @ window_grants w m past ts)) \<le> m"
  using assms
proof (induction ts arbitrary: past t0)
  case (Cons t ts)
  show ?case
  proof (cases "length (filter (\<lambda>g. t - g \<le> w) past) < m")
    case True
    have below: "\<forall>g \<in> set past. g \<le> t"
      using Cons.prems by fastforce
    have "length (filter (\<lambda>g. s \<le> g \<and> g \<le> s + w) (past @ [t])) \<le> m" for s
    proof (cases "s \<le> t \<and> t \<le> s + w")
      case inside: True
      have "length (filter (\<lambda>g. s \<le> g \<and> g \<le> s + w) past) \<le> length (filter (\<lambda>g. t - g \<le> w) past)"
        using inside below by (auto simp: length_filter_conv_card intro!: card_mono)
      then show ?thesis using True inside by simp
    qed (use Cons.prems(3) in auto)
    then have "length (filter (\<lambda>g. s \<le> g \<and> g \<le> s + w) ((past @ [t]) @ window_grants w m (past @ [t]) ts)) \<le> m"
      using Cons.IH [of t "past @ [t]"] Cons.prems(1) below by simp
    then show ?thesis using True by simp
  next
    case False
    then show ?thesis
      using Cons.IH [of t0 past] Cons.prems by simp
  qed
qed simp

section \<open>Properties\<close>

text \<open>
  C36. The queue-based limiter decides exactly as its specification does on every sequence of attempts of
  a monotonic clock: an attempt is let through if and only if fewer than \<open>max\<close> earlier attempts were let
  through within the last \<open>window\<close>.
\<close>

theorem rate_limiter_exact:
  assumes "sorted ts" and "0 \<le> w"
  shows "grants (new_limiter w m) ts = window_grants w m [] ts"
proof (cases ts)
  case (Cons t ts')
  then show ?thesis
    using grants_window [of t ts "new_limiter w m" "[]"] assms queue_of_new [of w m t]
    by (simp add: new_limiter_def)
qed simp

theorem rate_limiter_exact_witness:
  "grants (new_limiter 10 2) [0, 5, 10, 11] = window_grants 10 2 [] [0, 5, 10, 11]"
  by (rule rate_limiter_exact) simp_all

text \<open>
  C37. No interval of the length of the window, wherever it starts, contains more than \<open>max\<close> attempts that
  were let through: at most 60 uploads and 10 calls or credential requests in any minute and at most 40
  typing frames in any ten seconds of a connection.
\<close>

theorem rate_limiter_bound:
  assumes "sorted ts" and "0 \<le> w"
  shows "length (filter (\<lambda>g. s \<le> g \<and> g \<le> s + w) (grants (new_limiter w m) ts)) \<le> m"
proof (cases ts)
  case (Cons t ts')
  then show ?thesis
    using grants_window [of t ts "new_limiter w m" "[]"] assms queue_of_new [of w m t]
      window_grants_bound [of t ts "[]" w m s]
    by (simp add: new_limiter_def)
qed simp

theorem rate_limiter_bound_witness:
  "length (filter (\<lambda>g. 0 \<le> g \<and> g \<le> 0 + TYPING_RL_WINDOW)
     (grants (new_limiter TYPING_RL_WINDOW TYPING_RL_MAX) [0, 1, 2])) \<le> TYPING_RL_MAX"
  by (rule rate_limiter_bound) (simp_all add: TYPING_RL_WINDOW_def)

end
