(* ===== verification/Sig.thy ===== *)
theory Sig
  imports Crates
begin

text \<open>
  \<open>crypto/src/sig.rs\<close>: the domain-separated inputs that clients sign, and their verification. Ed25519 and
  base64 are crates; the random nonce is an argument of the handlers.
\<close>

definition NONCE_LEN :: nat where
  "NONCE_LEN = 32"

definition CHALLENGE_DOMAIN_TAG :: bytes where
  "CHALLENGE_DOMAIN_TAG = byte_string ''littlelove.v0.2.challenge''"

definition INVITE_CONSUME_DOMAIN_TAG :: bytes where
  "INVITE_CONSUME_DOMAIN_TAG = byte_string ''littlelove.v0.2.invite-consume''"

definition signing_input :: "bytes \<Rightarrow> bytes \<Rightarrow> bytes" where
  "signing_input tag payload = tag @ [0] @ payload"

definition challenge_signing_input :: "bytes \<Rightarrow> bytes" where
  "challenge_signing_input nonce = signing_input CHALLENGE_DOMAIN_TAG nonce"

definition invite_consume_signing_input :: "bytes \<Rightarrow> bytes" where
  "invite_consume_signing_input token = signing_input INVITE_CONSUME_DOMAIN_TAG token"

datatype auth_error = BadPubkey nat | BadSignature nat | InvalidBase64 | Mismatch

definition decode_b64 :: "crates \<Rightarrow> string \<Rightarrow> auth_error + bytes" where
  "decode_b64 C s = (case b64_decode C s of None \<Rightarrow> Inl InvalidBase64 | Some bs \<Rightarrow> Inr bs)"

definition encode_b64 :: "crates \<Rightarrow> bytes \<Rightarrow> string" where
  "encode_b64 C bs = b64_encode C bs"

definition verify_domain_separated ::
    "crates \<Rightarrow> bytes \<Rightarrow> bytes \<Rightarrow> bytes \<Rightarrow> auth_error + unit" where
  "verify_domain_separated C pub_key input signature =
    (if length pub_key \<noteq> 32 then Inl (BadPubkey (length pub_key))
     else if length signature \<noteq> 64 then Inl (BadSignature (length signature))
     else if \<not> ed_from_bytes_ok C pub_key then Inl (BadPubkey 32)
     else if ed_verify_strict C pub_key input signature then Inr () else Inl Mismatch)"

definition verify_signature :: "crates \<Rightarrow> bytes \<Rightarrow> bytes \<Rightarrow> bytes \<Rightarrow> auth_error + unit" where
  "verify_signature C pub_key nonce signature =
    verify_domain_separated C pub_key (challenge_signing_input nonce) signature"

definition verify_invite_consume_signature ::
    "crates \<Rightarrow> bytes \<Rightarrow> bytes \<Rightarrow> bytes \<Rightarrow> auth_error + unit" where
  "verify_invite_consume_signature C pub_key token signature =
    verify_domain_separated C pub_key (invite_consume_signing_input token) signature"

section \<open>The contract of a tag\<close>

text \<open>
  Two tags are separated when they differ at a position inside both; then no payloads whatever make
  their signing inputs coincide.
\<close>

locale separated_tags =
  fixes tag1 tag2 :: bytes and pos :: nat
  assumes inside: "pos < length tag1" "pos < length tag2"
    and differ: "tag1 ! pos \<noteq> tag2 ! pos"
begin

lemma inputs_differ: "signing_input tag1 x \<noteq> signing_input tag2 y"
proof
  assume "signing_input tag1 x = signing_input tag2 y"
  then have "signing_input tag1 x ! pos = signing_input tag2 y ! pos" by simp
  with inside differ show False by (simp add: signing_input_def nth_append)
qed

end

interpretation challenge_vs_invite: separated_tags CHALLENGE_DOMAIN_TAG INVITE_CONSUME_DOMAIN_TAG 16
  by unfold_locales
    (simp_all add: CHALLENGE_DOMAIN_TAG_def INVITE_CONSUME_DOMAIN_TAG_def byte_string_def char_byte_def)

lemma signing_input_inj: "signing_input tag x = signing_input tag y \<longleftrightarrow> x = y"
  by (simp add: signing_input_def)

lemma verify_domain_separated_Inr_iff:
  "verify_domain_separated C k m s = Inr u \<longleftrightarrow>
    length k = 32 \<and> length s = 64 \<and> ed_from_bytes_ok C k \<and> ed_verify_strict C k m s"
  by (simp add: verify_domain_separated_def)

section \<open>Properties\<close>

text \<open>
  C33. Domain separation: whatever the nonce and the token are, the bytes signed for a login challenge
  never equal the bytes signed to consume an invite, and within one protocol the payload is
  determined by the signed bytes (58 and 63 bytes for 32-byte payloads).
\<close>

theorem signing_domains_disjoint:
  "challenge_signing_input nonce \<noteq> invite_consume_signing_input token \<and>
   (challenge_signing_input nonce = challenge_signing_input nonce' \<longleftrightarrow> nonce = nonce') \<and>
   (invite_consume_signing_input token = invite_consume_signing_input token' \<longleftrightarrow> token = token') \<and>
   length (challenge_signing_input nonce) = 26 + length nonce \<and>
   length (invite_consume_signing_input token) = 31 + length token"
  unfolding challenge_signing_input_def invite_consume_signing_input_def
  by (simp add: challenge_vs_invite.inputs_differ signing_input_inj)
     (simp add: signing_input_def CHALLENGE_DOMAIN_TAG_def INVITE_CONSUME_DOMAIN_TAG_def)

text \<open>
  What verification accepts and how it fails: a login signature is accepted exactly when the key has
  32 bytes, the signature 64, the key decodes and strict Ed25519 verification succeeds over the tagged
  nonce; the failures are reported in the order key length, signature length, key, mismatch.
\<close>

theorem verify_signature_exact:
  "(verify_signature C key nonce s = Inr () \<longleftrightarrow>
      length key = 32 \<and> length s = 64 \<and> ed_from_bytes_ok C key \<and>
      ed_verify_strict C key (challenge_signing_input nonce) s) \<and>
   (verify_signature C key nonce s = Inl (BadSignature n) \<longleftrightarrow>
      length key = 32 \<and> n = length s \<and> n \<noteq> 64) \<and>
   (verify_signature C key nonce s = Inl (BadPubkey m) \<longleftrightarrow>
      m = length key \<and> (if m = 32 then length s = 64 \<and> \<not> ed_from_bytes_ok C key else True)) \<and>
   (verify_signature C key nonce s = Inl Mismatch \<longleftrightarrow>
      length key = 32 \<and> length s = 64 \<and> ed_from_bytes_ok C key \<and>
      \<not> ed_verify_strict C key (challenge_signing_input nonce) s)"
  unfolding verify_signature_def verify_domain_separated_def by auto

end
