(* ===== verification/Push.thy ===== *)
theory Push
  imports Prelude
begin

text \<open>
  \<open>server/src/push.rs\<close>: what is sent to APNs and what its answer means. The \<open>a2\<close> client is a parameter
  (\<open>a2\<close>); a notification is the data the code hands to it.
\<close>

definition PUSH_TITLE :: string where
  "PUSH_TITLE = ''Little Love''"

text \<open>The UTF-8 bytes of a purple heart, then the text.\<close>

definition PUSH_BODY :: string where
  "PUSH_BODY = map char_of [240, 159, 146, 156 :: nat] @ '' Your partner sent you a message''"

datatype push_kind = Alert | Voip

record push_message =
  pm_token :: string
  pm_environment :: string
  pm_room_id :: string
  pm_badge :: "32 word"
  pm_push_type :: push_kind
  pm_call_id :: "string option"
  pm_video :: bool

datatype a2_push_type = A2Alert | A2Voip

definition apns_push_type :: "push_kind \<Rightarrow> a2_push_type" where
  "apns_push_type k = (case k of Alert \<Rightarrow> A2Alert | Voip \<Rightarrow> A2Voip)"

datatype send_outcome = Delivered | DropToken | Transient

definition classify :: "u16 \<Rightarrow> string option \<Rightarrow> send_outcome" where
  "classify code reason =
    (if code = 200 then Delivered
     else if code = 410 then DropToken
     else if code = 400 \<and> (reason = Some ''BadDeviceToken'' \<or> reason = Some ''DeviceTokenNotForTopic'')
     then DropToken
     else Transient)"

section \<open>The APNs transport\<close>

text \<open>The visible part of an alert, and one notification.\<close>

record alert_content =
  al_title :: string
  al_body :: string
  al_sound :: string
  al_badge :: "32 word"
  al_mutable :: bool

datatype custom_value = CString string | CBool bool

record notification =
  nt_token :: string
  nt_topic :: string
  nt_push_type :: a2_push_type
  nt_collapse_id :: "string option"
  nt_alert :: "alert_content option"
  nt_custom :: "(string \<times> custom_value) list"

datatype apns_reply = ApnsOk u16 | ApnsResponseError u16 "string option" | ApnsFailure

record a2 =
  a2_collapse_id :: "string \<Rightarrow> string option"
  a2_custom_ok :: "string \<Rightarrow> custom_value \<Rightarrow> bool"

record apns_sender =
  as_sandbox :: "notification \<Rightarrow> apns_reply"
  as_production :: "notification \<Rightarrow> apns_reply"
  as_topic :: string
  as_voip_topic :: string

definition topic_for :: "apns_sender \<Rightarrow> push_kind \<Rightarrow> string" where
  "topic_for S k = (case k of Alert \<Rightarrow> as_topic S | Voip \<Rightarrow> as_voip_topic S)"

definition client_for :: "apns_sender \<Rightarrow> string \<Rightarrow> notification \<Rightarrow> apns_reply" where
  "client_for S environment = (if environment = ''production'' then as_production S else as_sandbox S)"

definition build_payload :: "a2 \<Rightarrow> apns_sender \<Rightarrow> push_message \<Rightarrow> notification" where
  "build_payload L S msg =
    (case pm_push_type msg of
       Alert \<Rightarrow> \<lparr>nt_token = pm_token msg, nt_topic = topic_for S Alert,
         nt_push_type = apns_push_type Alert, nt_collapse_id = a2_collapse_id L (pm_room_id msg),
         nt_alert = Some \<lparr>al_title = PUSH_TITLE, al_body = PUSH_BODY, al_sound = ''default'',
           al_badge = pm_badge msg, al_mutable = True\<rparr>, nt_custom = []\<rparr>
     | Voip \<Rightarrow> \<lparr>nt_token = pm_token msg, nt_topic = topic_for S Voip,
         nt_push_type = apns_push_type Voip, nt_collapse_id = None, nt_alert = None, nt_custom = []\<rparr>)"

text \<open>\<open>payload.add_custom_data(key, value)\<close>.\<close>

definition add_custom_data :: "a2 \<Rightarrow> string \<Rightarrow> custom_value \<Rightarrow> notification \<Rightarrow> notification option" where
  "add_custom_data L k v n = (if a2_custom_ok L k v then Some (n\<lparr>nt_custom := nt_custom n @ [(k, v)]\<rparr>) else None)"

definition custom_payload :: "a2 \<Rightarrow> push_message \<Rightarrow> notification \<Rightarrow> notification option" where
  "custom_payload L msg n =
    (case add_custom_data L ''room_id'' (CString (pm_room_id msg)) n of None \<Rightarrow> None
     | Some n1 \<Rightarrow> (case pm_call_id msg of None \<Rightarrow> Some n1
        | Some call \<Rightarrow> (case add_custom_data L ''call_id'' (CString call) n1 of None \<Rightarrow> None
           | Some n2 \<Rightarrow> add_custom_data L ''video'' (CBool (pm_video msg)) n2)))"

definition apns_send :: "a2 \<Rightarrow> apns_sender \<Rightarrow> push_message \<Rightarrow> send_outcome" where
  "apns_send L S msg =
    (case custom_payload L msg (build_payload L S msg) of
       None \<Rightarrow> Transient
     | Some payload \<Rightarrow>
        (case client_for S (pm_environment msg) payload of
           ApnsOk code \<Rightarrow> classify code None
         | ApnsResponseError code reason \<Rightarrow> classify code reason
         | ApnsFailure \<Rightarrow> Transient))"

section \<open>Properties\<close>

text \<open>
  A token is dropped only on APNs' own word: a send asks for the token's deletion exactly when APNs
  answered 410, or answered 400 with one of the two reasons that condemn the token, to the notification
  that was built for it; a payload that cannot be built and a transport failure never cost a token.
\<close>

theorem drop_token_iff:
  "apns_send L S msg = DropToken \<longleftrightarrow>
    (\<exists>n. custom_payload L msg (build_payload L S msg) = Some n \<and>
       (client_for S (pm_environment msg) n = ApnsOk 410 \<or>
        (\<exists>reason. client_for S (pm_environment msg) n = ApnsResponseError 410 reason) \<or>
        (\<exists>reason \<in> {''BadDeviceToken'', ''DeviceTokenNotForTopic''}.
           client_for S (pm_environment msg) n = ApnsResponseError 400 (Some reason))))"
proof -
  have "classify code reason = DropToken \<longleftrightarrow> code = 410 \<or>
      (code = 400 \<and> (reason = Some ''BadDeviceToken'' \<or> reason = Some ''DeviceTokenNotForTopic''))" for code reason
    by (simp add: classify_def)
  then show ?thesis
    by (auto simp: apns_send_def split: option.splits apns_reply.splits)
qed

end
