(* ===== verification/Config.thy ===== *)
theory Config
  imports Prelude
begin

text \<open>
  \<open>server/src/config.rs\<close>: the configuration read from the environment. The environment is a map from names to
  values; a variable whose value is not Unicode is absent, as \<open>env::var(..).ok()\<close> makes it. The parser is
  \<open>str::parse\<close> of Rust's unsigned integers: an optional plus sign, then decimal digits, within the width.
\<close>

type_synonym environment = "string \<rightharpoonup> string"

definition parse_unsigned :: "nat \<Rightarrow> string \<Rightarrow> nat option" where
  "parse_unsigned bits s =
    (let ds = (case s of [] \<Rightarrow> [] | c # cs \<Rightarrow> if c = CHR ''+'' then cs else s)
     in if ds = [] then None
        else (case digits_value 0 ds of None \<Rightarrow> None | Some n \<Rightarrow> if n < 2 ^ bits then Some n else None))"

text \<open>\<open>env::var(k).ok().filter(|s| !s.is_empty())\<close>.\<close>

definition non_empty :: "environment \<Rightarrow> string \<Rightarrow> string option" where
  "non_empty env k = (case env k of None \<Rightarrow> None | Some s \<Rightarrow> if s = [] then None else Some s)"

definition or_else :: "'a option \<Rightarrow> 'a \<Rightarrow> 'a" where
  "or_else v dflt = (case v of None \<Rightarrow> dflt | Some x \<Rightarrow> x)"

record r2_config =
  rc_account_id :: string
  rc_bucket :: string
  rc_access_key_id :: string
  rc_secret_access_key :: string
  rc_endpoint :: "string option"

record apns_config =
  ac_key_p8 :: string
  ac_key_id :: string
  ac_team_id :: string
  ac_topic :: string
  ac_voip_topic :: string
  ac_environment :: string

record turn_config =
  tc_key_id :: string
  tc_api_token :: string
  tc_ttl_secs :: u64
  tc_ice_override :: "string option"

record sentry_config =
  se_dsn :: string
  se_environment :: string

record server_config =
  sc_port :: u16
  sc_database_url :: "string option"
  sc_r2 :: "r2_config option"
  sc_apns :: "apns_config option"
  sc_turn :: "turn_config option"
  sc_sentry :: "sentry_config option"

definition sentry_from_env :: "environment \<Rightarrow> sentry_config option" where
  "sentry_from_env env =
    (case non_empty env ''SENTRY_DSN'' of None \<Rightarrow> None
     | Some d \<Rightarrow> Some \<lparr>se_dsn = d, se_environment = or_else (non_empty env ''SENTRY_ENVIRONMENT'') ''production''\<rparr>)"

definition turn_from_env :: "environment \<Rightarrow> turn_config option" where
  "turn_from_env env =
    (case non_empty env ''TURN_KEY_ID'' of None \<Rightarrow> None
     | Some key \<Rightarrow> (case non_empty env ''TURN_API_TOKEN'' of None \<Rightarrow> None
        | Some tok \<Rightarrow> Some \<lparr>tc_key_id = key, tc_api_token = tok,
            tc_ttl_secs = (case non_empty env ''TURN_TTL_SECS'' of None \<Rightarrow> 7200
              | Some s \<Rightarrow> (case parse_unsigned 64 s of None \<Rightarrow> 7200 | Some n \<Rightarrow> of_nat n)),
            tc_ice_override = non_empty env ''TURN_ICE_OVERRIDE''\<rparr>))"

definition apns_from_env :: "environment \<Rightarrow> apns_config option" where
  "apns_from_env env =
    (case non_empty env ''APNS_TOPIC'' of None \<Rightarrow> None
     | Some topic \<Rightarrow>
        (let voip = or_else (non_empty env ''APNS_VOIP_TOPIC'') (topic @ ''.voip'') in
         case (non_empty env ''APNS_KEY_P8'', non_empty env ''APNS_KEY_ID'', non_empty env ''APNS_TEAM_ID'') of
           (Some p8, Some key, Some team) \<Rightarrow> Some \<lparr>ac_key_p8 = p8, ac_key_id = key, ac_team_id = team,
             ac_topic = topic, ac_voip_topic = voip,
             ac_environment = or_else (non_empty env ''APNS_ENV'') ''sandbox''\<rparr>
         | _ \<Rightarrow> None))"

definition r2_from_env :: "environment \<Rightarrow> r2_config option" where
  "r2_from_env env =
    (case (non_empty env ''R2_ACCOUNT_ID'', non_empty env ''R2_BUCKET'', non_empty env ''R2_ACCESS_KEY_ID'',
        non_empty env ''R2_SECRET_ACCESS_KEY'') of
       (Some acc, Some bucket, Some key, Some secret) \<Rightarrow> Some \<lparr>rc_account_id = acc, rc_bucket = bucket,
         rc_access_key_id = key, rc_secret_access_key = secret, rc_endpoint = non_empty env ''R2_ENDPOINT''\<rparr>
     | _ \<Rightarrow> None)"

definition from_env :: "environment \<Rightarrow> server_config" where
  "from_env env =
    \<lparr>sc_port = (case env ''PORT'' of None \<Rightarrow> 7707
       | Some s \<Rightarrow> (case parse_unsigned 16 s of None \<Rightarrow> 7707 | Some n \<Rightarrow> of_nat n)),
     sc_database_url = non_empty env ''DATABASE_URL'', sc_r2 = r2_from_env env, sc_apns = apns_from_env env,
     sc_turn = turn_from_env env, sc_sentry = sentry_from_env env\<rparr>"

lemma non_empty_None_iff: "non_empty env k = None \<longleftrightarrow> env k \<in> {None, Some []}"
  by (auto simp: non_empty_def split: option.splits)

section \<open>Properties\<close>

text \<open>
  A feature is configured exactly when all its required variables are set and not empty; an empty variable
  counts as unset, optional ones fall back to their defaults, and a port that is not a number of 16 bits
  silently becomes the default port.
\<close>

theorem features_configured:
  "(sc_r2 (from_env env) \<noteq> None \<longleftrightarrow>
     {env ''R2_ACCOUNT_ID'', env ''R2_BUCKET'', env ''R2_ACCESS_KEY_ID'', env ''R2_SECRET_ACCESS_KEY''} \<inter> {None, Some []} = {}) \<and>
   (sc_apns (from_env env) \<noteq> None \<longleftrightarrow>
     {env ''APNS_TOPIC'', env ''APNS_KEY_P8'', env ''APNS_KEY_ID'', env ''APNS_TEAM_ID''} \<inter> {None, Some []} = {}) \<and>
   (sc_turn (from_env env) \<noteq> None \<longleftrightarrow> {env ''TURN_KEY_ID'', env ''TURN_API_TOKEN''} \<inter> {None, Some []} = {}) \<and>
   (sc_sentry (from_env env) \<noteq> None \<longleftrightarrow> {env ''SENTRY_DSN''} \<inter> {None, Some []} = {}) \<and>
   (unat (sc_port (from_env env)) = (case env ''PORT'' of None \<Rightarrow> 7707
      | Some s \<Rightarrow> (case parse_unsigned 16 s of None \<Rightarrow> 7707 | Some n \<Rightarrow> n)))"
proof -
  have r2: "r2_from_env env \<noteq> None \<longleftrightarrow> None \<notin> non_empty env `
      {''R2_ACCOUNT_ID'', ''R2_BUCKET'', ''R2_ACCESS_KEY_ID'', ''R2_SECRET_ACCESS_KEY''}"
    by (auto simp: r2_from_env_def split: option.split)
  have apns: "apns_from_env env \<noteq> None \<longleftrightarrow> None \<notin> non_empty env `
      {''APNS_TOPIC'', ''APNS_KEY_P8'', ''APNS_KEY_ID'', ''APNS_TEAM_ID''}"
    by (auto simp: apns_from_env_def Let_def split: option.split)
  have turn: "turn_from_env env \<noteq> None \<longleftrightarrow> None \<notin> non_empty env ` {''TURN_KEY_ID'', ''TURN_API_TOKEN''}"
    by (auto simp: turn_from_env_def split: option.split)
  have sentry: "sentry_from_env env \<noteq> None \<longleftrightarrow> None \<notin> non_empty env ` {''SENTRY_DSN''}"
    by (auto simp: sentry_from_env_def split: option.split)
  have set_iff: "None \<notin> non_empty env ` K \<longleftrightarrow> env ` K \<inter> {None, Some []} = {}" for K
    using non_empty_None_iff [of env] by (auto simp: image_iff) metis+
  have "n < 2 ^ 16" if "parse_unsigned 16 s = Some n" for s n
    using that by (auto simp: parse_unsigned_def Let_def split: if_splits option.splits)
  then have port: "unat (sc_port (from_env env)) = (case env ''PORT'' of None \<Rightarrow> 7707
      | Some s \<Rightarrow> (case parse_unsigned 16 s of None \<Rightarrow> 7707 | Some n \<Rightarrow> n))"
    by (auto simp: from_env_def unsigned_of_nat take_bit_nat_eq_self split: option.split)
  have parts: "sc_r2 (from_env env) = r2_from_env env" "sc_apns (from_env env) = apns_from_env env"
    "sc_turn (from_env env) = turn_from_env env" "sc_sentry (from_env env) = sentry_from_env env"
    by (simp_all add: from_env_def)
  show ?thesis
    using r2 apns turn sentry unfolding port parts set_iff by simp
qed

end
