(* ===== verification/World.thy ===== *)
theory World
  imports Frames Store Registry Pairing Invites Routing Calls RateLimit Sig Push Config
begin

text \<open>
  The state a handler of \<open>server/src/ws.rs\<close> works on (\<open>AppState\<close> and what it points to) and the effects it
  uses: a statement on the pool, a frame on a channel, a frame to all sessions of a user.

  A statement on the pool can fail without being executed, and it can be executed and yet be reported as
  failed, when the connection dies before the answer arrives. Which of the two happens to each statement
  is decided by the list \<open>w_faults\<close>, which every property quantifies over; the empty list is a database
  that works.
\<close>

datatype fault = Serve | Refuse | LoseAck

record world =
  w_db :: db
  w_routing :: routing
  w_chans :: chans
  w_calls :: pending_calls
  w_faults :: "fault list"
  w_pushed :: "push_message list"
  w_tasks :: "(account_id \<times> string) list"

text \<open>
  The fixed part of \<open>AppState\<close>: whether there is a store, the presigner, the push sender, and the
  TURN configuration together with the answer of its service. A push sender may answer every message
  differently; it is given the number of messages sent before. \<open>json_read\<close> and \<open>json_text\<close> are the parser and the
  printer of \<open>serde_json\<close> between text and JSON, \<open>json_value\<close> the parser at its type \<open>Value\<close>, \<open>codec\<close> the texts of times
  and UUIDs. What \<open>serde\<close> makes of a frame that is not an object but the array of its fields is \<open>auth_array\<close> and
  \<open>room_array\<close>.
\<close>

record r2_presigner =
  presign_put :: "string \<Rightarrow> int \<Rightarrow> string"
  presign_get :: "string \<Rightarrow> int \<Rightarrow> string"

record app =
  lib :: crates
  uni :: unicode
  has_store :: bool
  r2 :: "r2_presigner option"
  push :: "(nat \<Rightarrow> push_message \<Rightarrow> send_outcome) option"
  turn :: "turn_config option"
  json_value :: "string \<Rightarrow> json option"
  cloudflare :: "turn_config \<Rightarrow> json option"
  json_read :: "string \<Rightarrow> json option"
  json_text :: "json \<Rightarrow> string option"
  codec :: codecs
  auth_array :: "json list \<Rightarrow> auth_client_frame option"
  room_array :: "json list \<Rightarrow> room_client_frame option"

text \<open>\<open>serde_json::from_str\<close> at the two types of client frames, \<open>serde_json::to_string\<close> at those of the server.\<close>

definition parse_auth :: "app \<Rightarrow> string \<Rightarrow> auth_client_frame option" where
  "parse_auth A t = (case json_read A t of
       Some (JObject kvs) \<Rightarrow> auth_client_of kvs | Some (JArray vs) \<Rightarrow> auth_array A vs | _ \<Rightarrow> None)"

definition parse_room :: "app \<Rightarrow> string \<Rightarrow> room_client_frame option" where
  "parse_room A t = (case json_read A t of
       Some (JObject kvs) \<Rightarrow> room_client_of (codec A) kvs | Some (JArray vs) \<Rightarrow> room_array A vs | _ \<Rightarrow> None)"

definition auth_text :: "app \<Rightarrow> auth_server_frame \<Rightarrow> string option" where
  "auth_text A f = json_text A (auth_server_json f)"

definition room_text :: "app \<Rightarrow> room_server_frame \<Rightarrow> string option" where
  "room_text A f = json_text A (room_server_json (codec A) f)"

text \<open>
  What the outside supplies while one frame is handled: the next ULID, the bytes of the random
  generator, the successive readings of the wall clock, and the monotonic clock.
\<close>

record env =
  ev_ulid :: string
  ev_random :: bytes
  ev_now :: "nat \<Rightarrow> timestamp"
  ev_instant :: int

section \<open>Effects\<close>

definition db_exec :: "'a sql \<Rightarrow> world \<Rightarrow> (db_error + 'a) \<times> world" where
  "db_exec q w =
    (case w_faults w of
       [] \<Rightarrow> (case q (w_db w) of (r, d) \<Rightarrow> (r, w\<lparr>w_db := d\<rparr>))
     | Serve # fs \<Rightarrow> (case q (w_db w) of (r, d) \<Rightarrow> (r, w\<lparr>w_db := d, w_faults := fs\<rparr>))
     | Refuse # fs \<Rightarrow> (Inl DbDown, w\<lparr>w_faults := fs\<rparr>)
     | LoseAck # fs \<Rightarrow> (Inl DbDown, w\<lparr>w_db := snd (q (w_db w)), w_faults := fs\<rparr>))"

text \<open>\<open>match q.await { Err(e) => ..., Ok(x) => ... }\<close>.\<close>

definition db_call :: "'a sql \<Rightarrow> (db_error \<Rightarrow> world \<Rightarrow> 'b) \<Rightarrow> ('a \<Rightarrow> world \<Rightarrow> 'b) \<Rightarrow> world \<Rightarrow> 'b" where
  "db_call q on_err on_ok w = (case db_exec q w of (Inl e, w') \<Rightarrow> on_err e w' | (Inr x, w') \<Rightarrow> on_ok x w')"

text \<open>\<open>let _ = tx.send(frame)\<close>.\<close>

definition send_frame :: "sender \<Rightarrow> room_server_frame \<Rightarrow> world \<Rightarrow> world" where
  "send_frame tx f w = w\<lparr>w_chans := snd (chan_send tx f (w_chans w))\<rparr>"

definition send_error :: "sender \<Rightarrow> string \<Rightarrow> string \<Rightarrow> world \<Rightarrow> world" where
  "send_error tx code message w = send_frame tx (Error code message) w"

definition deliver :: "string \<Rightarrow> room_server_frame \<Rightarrow> world \<Rightarrow> world" where
  "deliver u f w = w\<lparr>w_chans := snd (deliver_to u f (w_routing w) (w_chans w))\<rparr>"

section \<open>What a frame leaves alone\<close>

lemma send_frame_db [simp]: "w_db (send_frame tx f w) = w_db w"
  "w_routing (send_frame tx f w) = w_routing w" "w_calls (send_frame tx f w) = w_calls w"
  "w_faults (send_frame tx f w) = w_faults w" "w_tasks (send_frame tx f w) = w_tasks w"
  "w_pushed (send_frame tx f w) = w_pushed w"
  by (simp_all add: send_frame_def)

lemma send_error_db [simp]: "w_db (send_error tx c m w) = w_db w"
  "w_routing (send_error tx c m w) = w_routing w" "w_calls (send_error tx c m w) = w_calls w"
  "w_faults (send_error tx c m w) = w_faults w" "w_tasks (send_error tx c m w) = w_tasks w"
  "w_pushed (send_error tx c m w) = w_pushed w"
  by (simp_all add: send_error_def)

lemma deliver_db [simp]: "w_db (deliver u f w) = w_db w"
  "w_routing (deliver u f w) = w_routing w" "w_calls (deliver u f w) = w_calls w"
  "w_faults (deliver u f w) = w_faults w" "w_tasks (deliver u f w) = w_tasks w"
  "w_pushed (deliver u f w) = w_pushed w"
  by (simp_all add: deliver_def)

section \<open>Who gets frames\<close>

text \<open>
  \<open>emits P w w'\<close>: from \<open>w\<close> to \<open>w'\<close> every channel only had frames appended, every appended frame satisfies
  \<open>P\<close> for its channel, and no session came or went.
\<close>

definition emits :: "(sender \<Rightarrow> room_server_frame \<Rightarrow> bool) \<Rightarrow> world \<Rightarrow> world \<Rightarrow> bool" where
  "emits P w w' \<longleftrightarrow> w_routing w' = w_routing w \<and>
     (\<forall>c. ch_open (w_chans w' c) = ch_open (w_chans w c) \<and>
        (\<exists>fs. ch_queue (w_chans w' c) = ch_queue (w_chans w c) @ fs \<and> list_all (P c) fs))"

lemma emits_same: "w_routing w' = w_routing w \<Longrightarrow> w_chans w' = w_chans w \<Longrightarrow> emits P w w'"
  by (simp add: emits_def)

lemma emits_refl [simp]: "emits P w w"
  by (simp add: emits_same)

lemma emits_trans:
  assumes "emits P w w1" and "emits P w1 w2"
  shows "emits P w w2"
  unfolding emits_def
proof (intro conjI allI)
  show "w_routing w2 = w_routing w"
    using assms by (simp add: emits_def)
  fix c
  show "ch_open (w_chans w2 c) = ch_open (w_chans w c)"
    using assms by (simp add: emits_def)
  obtain fs gs where "ch_queue (w_chans w1 c) = ch_queue (w_chans w c) @ fs" "list_all (P c) fs"
    "ch_queue (w_chans w2 c) = ch_queue (w_chans w1 c) @ gs" "list_all (P c) gs"
    using assms unfolding emits_def by blast
  then have "ch_queue (w_chans w2 c) = ch_queue (w_chans w c) @ (fs @ gs) \<and> list_all (P c) (fs @ gs)"
    by simp
  then show "\<exists>fs. ch_queue (w_chans w2 c) = ch_queue (w_chans w c) @ fs \<and> list_all (P c) fs"
    by blast
qed

lemma emits_routing: "emits P w w' \<Longrightarrow> w_routing w' = w_routing w"
  by (simp add: emits_def)

lemma emits_weaken: "emits P w w' \<Longrightarrow> (\<And>c f. P c f \<Longrightarrow> Q c f) \<Longrightarrow> emits Q w w'"
  unfolding emits_def by (meson list.pred_mono_strong)

lemma emits_send_frame: "P tx f \<Longrightarrow> emits P w (send_frame tx f w)"
  by (auto simp: emits_def send_frame_def chan_send_def)

lemma emits_send_error: "P tx (Error code message) \<Longrightarrow> emits P w (send_error tx code message w)"
  by (simp add: send_error_def emits_send_frame)

lemma send_all_emits:
  "send_all cs f n ch = (m, ch') \<Longrightarrow>
    \<exists>fs. ch_queue (ch' c) = ch_queue (ch c) @ fs \<and> set fs \<subseteq> {f} \<and> (fs \<noteq> [] \<longrightarrow> c \<in> set cs) \<and>
      ch_open (ch' c) = ch_open (ch c)"
proof (induction cs arbitrary: n ch)
  case (Cons c0 cs)
  obtain ok ch1 where s: "chan_send c0 f ch = (ok, ch1)" by fastforce
  then have rest: "send_all cs f (if ok then n + 1 else n) ch1 = (m, ch')"
    using Cons.prems by simp
  obtain fs where fs: "ch_queue (ch' c) = ch_queue (ch1 c) @ fs" "set fs \<subseteq> {f}" "fs \<noteq> [] \<longrightarrow> c \<in> set cs"
      "ch_open (ch' c) = ch_open (ch1 c)"
    using Cons.IH [OF rest] by blast
  have "ch1 c = ch c \<or> (c = c0 \<and> ch1 c = (ch c)\<lparr>ch_queue := ch_queue (ch c) @ [f]\<rparr>)"
    using s by (auto simp: chan_send_def split: if_splits)
  then show ?case
  proof
    assume "ch1 c = ch c"
    then show ?thesis using fs by auto
  next
    assume "c = c0 \<and> ch1 c = (ch c)\<lparr>ch_queue := ch_queue (ch c) @ [f]\<rparr>"
    then show ?thesis using fs by (intro exI [of _ "[f] @ fs"]) auto
  qed
qed simp

lemma emits_deliver:
  assumes "\<And>c. c \<in> set (sessions_of (w_routing w) u) \<Longrightarrow> P c f"
  shows "emits P w (deliver u f w)"
proof -
  obtain m ch' where s: "send_all (sessions_of (w_routing w) u) f 0 (w_chans w) = (m, ch')"
    by fastforce
  have "\<exists>fs. ch_queue (ch' c) = ch_queue (w_chans w c) @ fs \<and> list_all (P c) fs" for c
    using send_all_emits [OF s, of c] assms by (auto simp: list_all_iff)
  then show ?thesis
    using send_all_emits [OF s] s by (auto simp: emits_def deliver_def deliver_sessions)
qed

lemma emits_fold:
  assumes "\<And>x w'. x \<in> set xs \<Longrightarrow> emits P w w' \<Longrightarrow> emits P w' (h x w')"
  shows "emits P w (fold h xs w)"
proof -
  have "emits P w w' \<Longrightarrow> emits P w (fold h xs w')" if "\<And>x w'. x \<in> set xs \<Longrightarrow> emits P w w' \<Longrightarrow> emits P w' (h x w')" for xs w'
    using that
  proof (induction xs arbitrary: w')
    case (Cons x xs)
    have "emits P w' (h x w')" by (rule Cons.prems(2)) (use Cons.prems(1) in simp_all)
    then show ?case
      using Cons.prems by (auto intro!: Cons.IH intro: emits_trans)
  qed simp
  then show ?thesis using assms by simp
qed

lemma db_exec_frame:
  "db_exec q w = (r, w') \<Longrightarrow> w_routing w' = w_routing w \<and> w_chans w' = w_chans w \<and> w_calls w' = w_calls w
     \<and> w_pushed w' = w_pushed w \<and> w_tasks w' = w_tasks w"
  by (auto simp: db_exec_def split: list.splits fault.splits prod.splits)

lemma emits_db_call:
  assumes "\<And>e w'. db_exec q w = (Inl e, w') \<Longrightarrow> emits P w' (on_err e w')"
    and "\<And>x w'. db_exec q w = (Inr x, w') \<Longrightarrow> emits P w' (on_ok x w')"
  shows "emits P w (db_call q on_err on_ok w)"
proof (cases "db_exec q w")
  case (Pair r w')
  then have "emits P w w'"
    using db_exec_frame by (intro emits_same) auto
  then show ?thesis
    using Pair assms by (cases r) (auto simp: db_call_def intro: emits_trans)
qed

lemma db_exec_read:
  "db_exec (sql_read f) w = (r, w') \<Longrightarrow> w_db w' = w_db w \<and> (\<forall>x. r = Inr x \<longrightarrow> x = f (w_db w))"
  by (auto simp: db_exec_def split: list.splits fault.splits)

text \<open>The two shapes of a call, for a continuation that depends on the database and the routing table only.\<close>

lemma emits_db_read:
  assumes "\<And>e w'. w_db w' = w_db w \<Longrightarrow> w_routing w' = w_routing w \<Longrightarrow> emits P w' (on_err e w')"
    and "\<And>w'. w_db w' = w_db w \<Longrightarrow> w_routing w' = w_routing w \<Longrightarrow> emits P w' (on_ok (f (w_db w)) w')"
  shows "emits P w (db_call (sql_read f) on_err on_ok w)"
proof (rule emits_db_call)
  fix e w' assume "db_exec (sql_read f) w = (Inl e, w')"
  then show "emits P w' (on_err e w')"
    using assms(1) db_exec_read db_exec_frame by blast
next
  fix x w' assume h: "db_exec (sql_read f) w = (Inr x, w')"
  then have "x = f (w_db w)" "w_db w' = w_db w" "w_routing w' = w_routing w"
    using db_exec_read [OF h] db_exec_frame [OF h] by auto
  then show "emits P w' (on_ok x w')"
    using assms(2) by blast
qed

lemma db_exec_outcome:
  "db_exec q w = (r, w') \<Longrightarrow> w_db w' = w_db w \<or> w_db w' = snd (q (w_db w))"
  by (auto simp: db_exec_def split: list.splits fault.splits prod.splits)

lemma emits_db_write:
  assumes "\<And>e w'. w_routing w' = w_routing w \<Longrightarrow> w_db w' = w_db w \<or> w_db w' = snd (q (w_db w)) \<Longrightarrow>
      emits P w' (on_err e w')"
    and "\<And>x w'. w_routing w' = w_routing w \<Longrightarrow> w_db w' = w_db w \<or> w_db w' = snd (q (w_db w)) \<Longrightarrow>
      emits P w' (on_ok x w')"
  shows "emits P w (db_call q on_err on_ok w)"
  by (rule emits_db_call) (use assms db_exec_frame db_exec_outcome in blast)+

section \<open>A database that works\<close>

lemma db_call_served:
  "w_faults w = [] \<Longrightarrow> db_call q on_err on_ok w =
    (case q (w_db w) of (Inl e, d) \<Rightarrow> on_err e (w\<lparr>w_db := d\<rparr>) | (Inr x, d) \<Rightarrow> on_ok x (w\<lparr>w_db := d\<rparr>))"
  by (auto simp: db_call_def db_exec_def split: prod.splits sum.splits)

lemma db_call_read [simp]:
  "w_faults w = [] \<Longrightarrow> db_call (sql_read f) on_err on_ok w = on_ok (f (w_db w)) w"
  by (simp add: db_call_served)

text \<open>What a frame changes on one channel.\<close>

lemma queue_send_frame:
  "ch_queue (w_chans (send_frame tx f w) c) =
    ch_queue (w_chans w c) @ (if c = tx \<and> ch_open (w_chans w tx) then [f] else [])"
  by (auto simp: send_frame_def chan_send_def)

lemma queue_deliver:
  "distinct (sessions_of (w_routing w) u) \<Longrightarrow> ch_queue (w_chans (deliver u f w) c) =
    ch_queue (w_chans w c) @
      (if c \<in> set (sessions_of (w_routing w) u) \<and> ch_open (w_chans w c) then [f] else [])"
  by (simp add: deliver_def deliver_sessions send_all_exact)

lemma open_send_frame [simp]: "ch_open (w_chans (send_frame tx f w) c) = ch_open (w_chans w c)"
  by (auto simp: send_frame_def chan_send_def)

lemma open_deliver [simp]: "ch_open (w_chans (deliver u f w) c) = ch_open (w_chans w c)"
proof -
  have "emits (\<lambda>_ _. True) w (deliver u f w)" by (rule emits_deliver) simp
  then show ?thesis by (simp add: emits_def)
qed

section \<open>A concrete instance\<close>

text \<open>The JSON parser of the sample: a text \<open>name:signature\<close> stands for the frame that identifies with them.\<close>

definition sample_json_read :: "string \<Rightarrow> json option" where
  "sample_json_read t = Some (JObject [(''kind'', JString ''Identify''),
     (''username'', JString (takeWhile (\<lambda>c. c \<noteq> CHR '':'') t)),
     (''signature'', JString (tl (dropWhile (\<lambda>c. c \<noteq> CHR '':'') t)))])"

definition sample_presigner :: r2_presigner where
  "sample_presigner = \<lparr>presign_put = (\<lambda>key ttl. ''put:'' @ key), presign_get = (\<lambda>key ttl. ''get:'' @ key)\<rparr>"

definition sample_app :: app where
  "sample_app = \<lparr>lib = sample_crates, uni = ascii_only, has_store = True, r2 = Some sample_presigner,
     push = Some (\<lambda>n msg. Delivered), turn = None, json_value = (\<lambda>s. None), cloudflare = (\<lambda>c. None),
     json_read = sample_json_read, json_text = (\<lambda>v. Some []), codec = sample_codecs,
     auth_array = (\<lambda>vs. None), room_array = (\<lambda>vs. None)\<rparr>"

definition sample_env :: env where
  "sample_env = \<lparr>ev_ulid = ''01J'', ev_random = replicate 8 0, ev_now = (\<lambda>k. 1000 + int k), ev_instant = 1000\<rparr>"

definition sample_world :: "db \<Rightarrow> world" where
  "sample_world d = \<lparr>w_db = d, w_routing = new_routing, w_chans = (\<lambda>c. \<lparr>ch_queue = [], ch_open = False\<rparr>),
     w_calls = new_pending_calls, w_faults = [], w_pushed = [], w_tasks = []\<rparr>"

lemma sample_app_simps [simp]:
  "lib sample_app = sample_crates" "uni sample_app = ascii_only" "has_store sample_app"
  "r2 sample_app = Some sample_presigner" "push sample_app = Some (\<lambda>n msg. Delivered)" "turn sample_app = None"
  "json_read sample_app = sample_json_read" "json_text sample_app = (\<lambda>v. Some [])" "codec sample_app = sample_codecs"
  by (simp_all add: sample_app_def)

lemma sample_texts [simp]: "auth_text sample_app f = Some []" "room_text sample_app g = Some []"
  by (simp_all add: auth_text_def room_text_def)

lemma sample_parse_auth: "parse_auth sample_app t = Some (Identify
    \<lparr>id_username = takeWhile (\<lambda>c. c \<noteq> CHR '':'') t, id_signature = tl (dropWhile (\<lambda>c. c \<noteq> CHR '':'') t)\<rparr>)"
  by (simp add: parse_auth_def sample_json_read_def auth_client_of_def tagged_variant identify_of_def field_defs)

lemma sample_world_simps [simp]:
  "w_db (sample_world d) = d" "w_routing (sample_world d) = new_routing" "w_faults (sample_world d) = []"
  "w_calls (sample_world d) = new_pending_calls" "w_pushed (sample_world d) = []" "w_tasks (sample_world d) = []"
  "w_chans (sample_world d) = (\<lambda>c. \<lparr>ch_queue = [], ch_open = False\<rparr>)"
  by (simp_all add: sample_world_def)

end
