(* ===== verification/Ws.thy ===== *)
theory Ws
  imports World
begin

text \<open>
  The frame handlers of \<open>server/src/ws.rs\<close> that a session runs after it has authenticated. A handler is a
  function on the world with the parameters of the source: \<open>A\<close> is \<open>AppState\<close>, \<open>E\<close> what the outside supplies
  while the handler runs, \<open>me\<close> the account of the session and \<open>tx\<close> its channel. Log messages are left
  out. A \<open>HashMap\<close> that a handler iterates is iterated in the order of insertion, one of the orders Rust
  may choose; the loop of \<open>handle_mark_read\<close> is the only one, and each of its iterations sends to another
  user.
\<close>

definition MAX_ROOM_NAME_CHARS :: nat where "MAX_ROOM_NAME_CHARS = 64"
definition MAX_SEND_RECIPIENTS :: nat where "MAX_SEND_RECIPIENTS = 16"
definition MAX_BODY_BYTES :: nat where "MAX_BODY_BYTES = 98304"
definition MAX_ATTACHMENT_BYTES :: int where "MAX_ATTACHMENT_BYTES = 256 * 1024 * 1024"
definition PRESIGN_TTL :: int where "PRESIGN_TTL = 600 * 1000000"

section \<open>Push\<close>

definition send_push ::
  "(nat \<Rightarrow> push_message \<Rightarrow> send_outcome) \<Rightarrow> account_id \<Rightarrow> push_message \<Rightarrow> string \<Rightarrow> world \<Rightarrow> world" where
  "send_push snd_fn i msg token w =
    (let outcome = snd_fn (length (w_pushed w)) msg; w1 = w\<lparr>w_pushed := w_pushed w @ [msg]\<rparr> in
     if outcome = DropToken
     then db_call (delete_token_value i token) (\<lambda>e w. w) (\<lambda>_ w. w) w1 else w1)"

definition notify_call :: "(nat \<Rightarrow> push_message \<Rightarrow> send_outcome) \<Rightarrow> account_id \<Rightarrow> string \<Rightarrow> string \<Rightarrow> bool \<Rightarrow> world \<Rightarrow> world" where
  "notify_call sender callee rid call video =
    db_call (voip_tokens_for callee) (\<lambda>e w. w) (\<lambda>tokens.
      fold (\<lambda>t. send_push sender callee
        \<lparr>pm_token = dt_apns_token t, pm_environment = dt_environment t, pm_room_id = rid, pm_badge = 0,
          pm_push_type = Voip, pm_call_id = Some call, pm_video = video\<rparr> (dt_apns_token t)) tokens)"

text \<open>The badge is \<open>max(0)\<close> of the count, cut to 32 bits.\<close>

definition notify_recipient :: "(nat \<Rightarrow> push_message \<Rightarrow> send_outcome) \<Rightarrow> account_id \<Rightarrow> string \<Rightarrow> world \<Rightarrow> world" where
  "notify_recipient sender recipient rid =
    db_call (tokens_for_account recipient) (\<lambda>e w. w) (\<lambda>tokens.
      let fan_out = (\<lambda>count. fold (\<lambda>t. send_push sender recipient
        \<lparr>pm_token = dt_apns_token t, pm_environment = dt_environment t, pm_room_id = rid,
          pm_badge = of_int (max count 0), pm_push_type = Alert, pm_call_id = None, pm_video = False\<rparr>
        (dt_apns_token t)) tokens)
      in db_call (unread_count recipient) (\<lambda>e. fan_out 0) fan_out)"

section \<open>Calls\<close>

definition frame_room_id :: "room_server_frame \<Rightarrow> string option" where
  "frame_room_id f =
    (case f of CallInvite rid _ _ _ _ \<Rightarrow> Some rid | CallAnswer rid _ _ \<Rightarrow> Some rid
     | CallIce rid _ _ \<Rightarrow> Some rid | CallHangup rid _ _ \<Rightarrow> Some rid | _ \<Rightarrow> None)"

definition frame_kind :: "room_server_frame \<Rightarrow> string" where
  "frame_kind f =
    (case f of CallInvite _ _ _ _ _ \<Rightarrow> ''CallInvite'' | CallAnswer _ _ _ \<Rightarrow> ''CallAnswer''
     | CallIce _ _ _ \<Rightarrow> ''CallIce'' | CallHangup _ _ _ \<Rightarrow> ''CallHangup'' | _ \<Rightarrow> ''other'')"

definition ice_servers_from_override :: "app \<Rightarrow> string \<Rightarrow> json option" where
  "ice_servers_from_override A raw = json_value A raw"

definition ice_servers :: "app \<Rightarrow> turn_config \<Rightarrow> json option" where
  "ice_servers A cfg =
    (case tc_ice_override cfg of Some raw \<Rightarrow> ice_servers_from_override A raw | None \<Rightarrow> cloudflare A cfg)"

definition empty_ice :: json where
  "empty_ice = JObject [(''iceServers'', JArray [])]"

definition handle_call_turn_request :: "app \<Rightarrow> account_record \<Rightarrow> string \<Rightarrow> sender \<Rightarrow> world \<Rightarrow> world" where
  "handle_call_turn_request A me call tx =
    (let grant = (\<lambda>ice. send_frame tx (CallTurnGrant call ice));
         decide = (\<lambda>paired. if \<not> paired then grant empty_ice
           else (case turn A of
                   Some cfg \<Rightarrow> (case ice_servers A cfg of Some v \<Rightarrow> grant v | None \<Rightarrow> grant empty_ice)
                 | None \<Rightarrow> grant empty_ice))
     in if has_store A
        then db_call (partner_account_id_for (me_id me)) (\<lambda>e. decide False) (\<lambda>p. decide (p \<noteq> None))
        else decide False)"

definition forward_to_partner :: "account_record \<Rightarrow> room_server_frame \<Rightarrow> world \<Rightarrow> world" where
  "forward_to_partner me frame =
    db_call (partner_username_for (me_id me)) (\<lambda>e w. w)
      (\<lambda>p. case p of Some partner \<Rightarrow> deliver partner frame | None \<Rightarrow> (\<lambda>w. w))"

definition forward_call_to_partner :: "app \<Rightarrow> account_record \<Rightarrow> room_server_frame \<Rightarrow> world \<Rightarrow> world" where
  "forward_call_to_partner A me frame =
    (if \<not> has_store A then (\<lambda>w. w)
     else (case frame_room_id frame of
             None \<Rightarrow> forward_to_partner me frame
           | Some rid \<Rightarrow> db_call (is_member rid (me_id me)) (\<lambda>e w. w)
               (\<lambda>m. if m then forward_to_partner me frame else (\<lambda>w. w))))"

definition hold_call :: "int \<Rightarrow> account_id \<Rightarrow> pending \<Rightarrow> world \<Rightarrow> world" where
  "hold_call now callee p w = w\<lparr>w_calls := insert_pending callee p (expire_due now (w_calls w))\<rparr>"

definition handle_call_invite ::
  "app \<Rightarrow> env \<Rightarrow> account_record \<Rightarrow> string \<Rightarrow> string \<Rightarrow> string \<Rightarrow> bool \<Rightarrow> world \<Rightarrow> world" where
  "handle_call_invite A E me rid call offer video =
    (if \<not> has_store A then (\<lambda>w. w)
     else db_call (is_member rid (me_id me)) (\<lambda>e w. w) (\<lambda>m.
       if \<not> m then (\<lambda>w. w)
       else db_call (partner_account_id_for (me_id me)) (\<lambda>e w. w) (\<lambda>p. case p of None \<Rightarrow> (\<lambda>w. w)
         | Some partner \<Rightarrow> db_call (partner_username_for (me_id me)) (\<lambda>e w. w) (\<lambda>u. case u of None \<Rightarrow> (\<lambda>w. w)
           | Some partner_name \<Rightarrow> (\<lambda>w.
              let w1 = hold_call (ev_instant E) partner \<lparr>pc_call_id = call, pc_room_id = rid,
                    pc_from = me_username me, pc_offer = offer, pc_video = video,
                    pc_expires_at = ev_instant E + PENDING_TTL\<rparr> w;
                  w2 = deliver partner_name (CallInvite rid call (me_username me) offer video) w1
              in case push A of None \<Rightarrow> w2 | Some sender \<Rightarrow> notify_call sender partner rid call video w2)))))"

definition drop_held_call :: "account_id \<Rightarrow> string \<Rightarrow> world \<Rightarrow> world" where
  "drop_held_call callee call w = w\<lparr>w_calls := remove_pending callee call (w_calls w)\<rparr>"

definition handle_call_hangup ::
  "app \<Rightarrow> account_record \<Rightarrow> string \<Rightarrow> string \<Rightarrow> string \<Rightarrow> world \<Rightarrow> world" where
  "handle_call_hangup A me rid call reason =
    (if \<not> has_store A then (\<lambda>w. w)
     else (\<lambda>w. forward_call_to_partner A me (CallHangup rid call reason)
       (db_call (partner_account_id_for (me_id me)) (\<lambda>e w. w)
         (\<lambda>p. case p of Some partner \<Rightarrow> drop_held_call partner call | None \<Rightarrow> (\<lambda>w. w)) w)))"

definition deliver_pending_calls :: "env \<Rightarrow> account_record \<Rightarrow> sender \<Rightarrow> world \<Rightarrow> world" where
  "deliver_pending_calls E me tx w =
    (case take_for (me_id me) (ev_instant E) (w_calls w) of (ps, calls) \<Rightarrow>
      fold (\<lambda>p. send_frame tx (CallInvite (pc_room_id p) (pc_call_id p) (pc_from p) (pc_offer p) (pc_video p)))
        ps (w\<lparr>w_calls := calls\<rparr>))"

section \<open>Invites\<close>

definition qr_or_empty :: "app \<Rightarrow> string \<Rightarrow> string" where
  "qr_or_empty A code = (case qr_png_base64 (lib A) code of Inr s \<Rightarrow> s | Inl e \<Rightarrow> [])"

definition handle_create_invite :: "app \<Rightarrow> env \<Rightarrow> account_record \<Rightarrow> sender \<Rightarrow> world \<Rightarrow> world" where
  "handle_create_invite A E me tx =
    (if \<not> has_store A then send_error tx ''Internal'' ''store unavailable''
     else db_call (partner_account_id_for (me_id me)) (\<lambda>e. send_error tx ''Internal'' '''') (\<lambda>p.
       if p \<noteq> None then send_error tx ALREADY_PAIRED ''''
       else (case generate_invite (lib A) (ev_random E) of (canonical, code, hash) \<Rightarrow>
         let expires = default_expiry (ev_now E 0)
         in db_call (create_invite_record (me_id me) hash expires None) (\<lambda>e. send_error tx ''Internal'' '''')
              (\<lambda>_. send_frame tx (InviteCreated code (qr_or_empty A code) expires)))))"

text \<open>The end of \<open>handle_consume_invite\<close>, after the partner link: find or make the room, join, consume, announce.\<close>

definition announce_joined :: "app \<Rightarrow> account_record \<Rightarrow> string \<Rightarrow> sender \<Rightarrow> world \<Rightarrow> world" where
  "announce_joined A me rid tx =
    db_call (room_detail rid) (\<lambda>e. send_error tx ''Internal'' '''') (\<lambda>det. case det of
        None \<Rightarrow> send_error tx ''Internal'' ''''
      | Some detail \<Rightarrow>
         (let wire = map (member_into_wire (lib A)) (rd_members detail);
              frame = RoomCreated (rd_room_id detail) (rd_name detail) wire None
          in (\<lambda>w. fold (\<lambda>m. if m_account_id m = me_id me then (\<lambda>w. w) else deliver (m_username m) frame)
               (rd_members detail)
               (send_frame tx (InviteConsumed (rd_room_id detail) (rd_name detail) wire) w))))"

definition join_invited_room ::
  "app \<Rightarrow> env \<Rightarrow> account_record \<Rightarrow> bytes \<Rightarrow> string \<Rightarrow> sender \<Rightarrow> world \<Rightarrow> world" where
  "join_invited_room A E me hash rid tx =
    db_call (insert_member rid (me_id me)) (\<lambda>e. send_error tx ''Internal'' '''') (\<lambda>_.
      db_call (mark_consumed hash (ev_now E 1)) (\<lambda>e. announce_joined A me rid tx)
        (\<lambda>_. announce_joined A me rid tx))"

definition after_link ::
  "app \<Rightarrow> env \<Rightarrow> account_record \<Rightarrow> account_id \<Rightarrow> bytes \<Rightarrow> sender \<Rightarrow> world \<Rightarrow> world" where
  "after_link A E me inviter hash tx =
    db_call (room_for_invite hash) (\<lambda>e. send_error tx ''Internal'' '''') (\<lambda>r. case r of
        Some rid \<Rightarrow> join_invited_room A E me hash rid tx
      | None \<Rightarrow> db_call (create_room_with_members (ev_ulid E) inviter None [])
          (\<lambda>e. send_error tx ''Internal'' '''') (\<lambda>rid. join_invited_room A E me hash rid tx))"

definition handle_consume_invite ::
  "app \<Rightarrow> env \<Rightarrow> account_record \<Rightarrow> string \<Rightarrow> string \<Rightarrow> sender \<Rightarrow> world \<Rightarrow> world" where
  "handle_consume_invite A E me code signature_b64 tx =
    (if \<not> has_store A then send_error tx ''Internal'' ''store unavailable''
     else (case decode_code (uni A) code of
       Inl _ \<Rightarrow> send_error tx BAD_CODE ''''
     | Inr canonical \<Rightarrow>
        let hash = sha256 (lib A) canonical
        in db_call (lookup_invite hash) (\<lambda>e. send_error tx ''Internal'' '''') (\<lambda>row. case row of
             None \<Rightarrow> send_error tx INVITE_NOT_FOUND ''''
           | Some invite \<Rightarrow>
              (case state invite (ev_now E 0) of
                 Expired \<Rightarrow> send_error tx INVITE_EXPIRED ''''
               | Consumed \<Rightarrow> send_error tx INVITE_CONSUMED ''''
               | Pending \<Rightarrow>
                  (case decode_b64 (lib A) signature_b64 of
                     Inl _ \<Rightarrow> send_error tx INVALID_SIGNATURE ''''
                   | Inr sig_bytes \<Rightarrow>
                      (case verify_invite_consume_signature (lib A) (me_ed25519_pub me) canonical sig_bytes of
                         Inl _ \<Rightarrow> send_error tx INVALID_SIGNATURE ''''
                       | Inr _ \<Rightarrow>
                          db_call (lookup_full_account_by_id (ir_inviter_id invite))
                            (\<lambda>e. send_error tx INVITE_NOT_FOUND '''') (\<lambda>acc. case acc of
                              None \<Rightarrow> send_error tx INVITE_NOT_FOUND ''''
                            | Some inviter \<Rightarrow>
                               (if me_id inviter = me_id me then send_error tx ALREADY_PAIRED ''self-invite''
                                else db_call (set_partner_link (me_id me) (me_id inviter))
                                  (\<lambda>e. if e = UniqueViolation
                                       then send_error tx MONOGAMY_VIOLATION ''you already have a partner''
                                       else send_error tx ''Internal'' '''')
                                  (\<lambda>linked. case linked of
                                     Inl WrongPartner \<Rightarrow>
                                       send_error tx MONOGAMY_VIOLATION ''you already have a partner''
                                   | Inr _ \<Rightarrow> after_link A E me (me_id inviter) hash tx)))))))))"

section \<open>Reading and writing messages\<close>

definition replay_row :: "sender \<Rightarrow> message_row \<Rightarrow> world \<Rightarrow> world" where
  "replay_row tx row = db_call (lookup_full_account_by_id (mr_from_account_id row)) (\<lambda>e w. w)
    (\<lambda>acc. case acc of None \<Rightarrow> (\<lambda>w. w)
     | Some a \<Rightarrow> send_frame tx (Message (mr_id row) (mr_room_id row) (me_username a) (mr_ts row)
         (mr_body row) True (mr_read row) None))"

definition read_backfill :: "account_record \<Rightarrow> string \<Rightarrow> sender \<Rightarrow> world \<Rightarrow> world" where
  "read_backfill me rid tx =
    db_call (read_sent_message_ids rid (me_id me)) (\<lambda>e w. w) (\<lambda>ids.
      if ids = [] then (\<lambda>w. w)
      else db_call (partner_username_for (me_id me)) (\<lambda>e w. w)
        (\<lambda>p. case p of Some reader \<Rightarrow> send_frame tx (Read rid ids reader) | None \<Rightarrow> (\<lambda>w. w)))"

definition read_marker :: "account_record \<Rightarrow> string \<Rightarrow> sender \<Rightarrow> world \<Rightarrow> world" where
  "read_marker me rid tx =
    db_call (newest_read_incoming_ts rid (me_id me)) (\<lambda>e w. w)
      (\<lambda>t. case t of Some upto_ts \<Rightarrow> send_frame tx (ReadMarker rid upto_ts) | None \<Rightarrow> (\<lambda>w. w))"

definition handle_subscribe ::
  "app \<Rightarrow> account_record \<Rightarrow> string \<Rightarrow> string option \<Rightarrow> sender \<Rightarrow> world \<Rightarrow> world" where
  "handle_subscribe A me rid since tx =
    (if \<not> has_store A then send_error tx ''Internal'' ''store unavailable''
     else db_call (is_member rid (me_id me)) (\<lambda>e. send_error tx ''Internal'' '''') (\<lambda>m.
       if \<not> m then send_error tx UNKNOWN_ROOM ''''
       else db_call (messages_for_recipient rid (me_id me) since) (\<lambda>e. send_error tx ''Internal'' '''') (\<lambda>rows.
         (\<lambda>w. read_marker me rid tx (read_backfill me rid tx (fold (replay_row tx) rows w))))))"

text \<open>\<open>by_sender.entry(from).or_default().push(id)\<close>.\<close>

fun push_by_sender :: "account_id \<Rightarrow> string \<Rightarrow> (account_id \<times> string list) list \<Rightarrow> (account_id \<times> string list) list" where
  "push_by_sender from mid [] = [(from, [mid])]"
| "push_by_sender from mid ((s, ids) # rest) =
    (if s = from then (s, ids @ [mid]) # rest else (s, ids) # push_by_sender from mid rest)"

definition group_by_sender :: "(string \<times> account_id) list \<Rightarrow> (account_id \<times> string list) list" where
  "group_by_sender flipped = fold (\<lambda>(mid, from). push_by_sender from mid) flipped []"

definition relay_read :: "account_record \<Rightarrow> string \<Rightarrow> account_id \<times> string list \<Rightarrow> world \<Rightarrow> world" where
  "relay_read me rid g =
    db_call (lookup_full_account_by_id (fst g)) (\<lambda>e w. w) (\<lambda>acc. case acc of None \<Rightarrow> (\<lambda>w. w)
      | Some a \<Rightarrow> deliver (me_username a) (Read rid (snd g) (me_username me)))"

definition handle_mark_read ::
  "app \<Rightarrow> account_record \<Rightarrow> string \<Rightarrow> string \<Rightarrow> sender \<Rightarrow> world \<Rightarrow> world" where
  "handle_mark_read A me rid up_to tx =
    (if \<not> has_store A then send_error tx ''Internal'' ''store unavailable''
     else db_call (is_member rid (me_id me)) (\<lambda>e. send_error tx ''Internal'' '''') (\<lambda>m.
       if \<not> m then send_error tx UNKNOWN_ROOM ''''
       else db_call (mark_read rid (me_id me) up_to) (\<lambda>e. send_error tx ''Internal'' '''') (\<lambda>flipped.
         fold (relay_read me rid) (group_by_sender flipped))))"

definition deliver_others :: "account_record \<Rightarrow> room_server_frame \<Rightarrow> member list \<Rightarrow> world \<Rightarrow> world" where
  "deliver_others me frame = fold (\<lambda>m. if m_account_id m = me_id me then (\<lambda>w. w) else deliver (m_username m) frame)"

text \<open>\<open>unwrap_or(false)\<close> and \<open>unwrap_or_default()\<close>: a failed read counts as no member and as an empty roster.\<close>

definition handle_typing :: "app \<Rightarrow> account_record \<Rightarrow> string \<Rightarrow> bool \<Rightarrow> world \<Rightarrow> world" where
  "handle_typing A me rid typing =
    (if \<not> has_store A then (\<lambda>w. w)
     else db_call (is_member rid (me_id me)) (\<lambda>e w. w) (\<lambda>m.
       if \<not> m then (\<lambda>w. w)
       else (let relay = deliver_others me (Typing rid (me_username me) typing)
             in db_call (members_for_room rid) (\<lambda>e. relay []) relay)))"

section \<open>Sending\<close>

definition body_keys :: "bodies \<Rightarrow> string set" where
  "body_keys bodies = set (map fst bodies)"

definition fan_out_rows :: "crates \<Rightarrow> account_record \<Rightarrow> string \<Rightarrow> string \<Rightarrow> timestamp \<Rightarrow> bodies \<Rightarrow> member list \<Rightarrow> message_row list" where
  "fan_out_rows C me rid mid ts bodies members =
    List.map_filter (\<lambda>m. if m_account_id m = me_id me then None
      else map_option (\<lambda>body. \<lparr>mr_id = mid, mr_room_id = rid, mr_from_account_id = me_id me,
        mr_recipient_account_id = m_account_id m, mr_body = body, mr_ts = ts, mr_read = False\<rparr>)
        (map_of bodies (b64_encode C (m_x25519_pub m)))) members"

definition self_row :: "crates \<Rightarrow> account_record \<Rightarrow> string \<Rightarrow> string \<Rightarrow> timestamp \<Rightarrow> bodies \<Rightarrow> message_row list" where
  "self_row C me rid mid ts bodies =
    (case map_of bodies (b64_encode C (me_x25519_pub me)) of None \<Rightarrow> []
     | Some body \<Rightarrow> [\<lparr>mr_id = mid, mr_room_id = rid, mr_from_account_id = me_id me,
        mr_recipient_account_id = me_id me, mr_body = body, mr_ts = ts, mr_read = False\<rparr>])"

definition spawn_notify :: "app \<Rightarrow> account_id \<Rightarrow> string \<Rightarrow> world \<Rightarrow> world" where
  "spawn_notify A i rid w =
    (if push A \<noteq> None \<and> has_store A then w\<lparr>w_tasks := w_tasks w @ [(i, rid)]\<rparr> else w)"

definition deliver_message ::
  "app \<Rightarrow> account_record \<Rightarrow> string \<Rightarrow> string \<Rightarrow> timestamp \<Rightarrow> bodies \<Rightarrow> member \<Rightarrow> world \<Rightarrow> world" where
  "deliver_message A me rid mid ts bodies m =
    (if m_account_id m = me_id me then (\<lambda>w. w)
     else (case map_of bodies (b64_encode (lib A) (m_x25519_pub m)) of None \<Rightarrow> (\<lambda>w. w)
       | Some body \<Rightarrow> (\<lambda>w. spawn_notify A (m_account_id m) rid
           (deliver (m_username m) (Message mid rid (me_username me) ts body False False None) w))))"

definition echo_self ::
  "app \<Rightarrow> account_record \<Rightarrow> string \<Rightarrow> string \<Rightarrow> timestamp \<Rightarrow> bodies \<Rightarrow> uuid \<Rightarrow> world \<Rightarrow> world" where
  "echo_self A me rid mid ts bodies client_msg_id =
    (case map_of bodies (b64_encode (lib A) (me_x25519_pub me)) of None \<Rightarrow> (\<lambda>w. w)
     | Some body \<Rightarrow> deliver (me_username me)
         (Message mid rid (me_username me) ts body False False (Some client_msg_id)))"

definition handle_send ::
  "app \<Rightarrow> env \<Rightarrow> account_record \<Rightarrow> string \<Rightarrow> bodies \<Rightarrow> uuid \<Rightarrow> sender \<Rightarrow> world \<Rightarrow> world" where
  "handle_send A E me rid bodies client_msg_id tx =
    (if \<not> has_store A then send_error tx ''Internal'' ''store unavailable''
     else if length bodies > MAX_SEND_RECIPIENTS then send_error tx BODY_TOO_LARGE ''too many recipients''
     else if list_ex (\<lambda>b. length (snd b) > MAX_BODY_BYTES) bodies
     then send_error tx BODY_TOO_LARGE ''ciphertext too large''
     else db_call (is_member rid (me_id me)) (\<lambda>e. send_error tx ''Internal'' '''') (\<lambda>m.
       if \<not> m then send_error tx UNKNOWN_ROOM ''''
       else db_call (members_for_room rid) (\<lambda>e. send_error tx ''Internal'' '''') (\<lambda>members.
         let self_key = b64_encode (lib A) (me_x25519_pub me);
             expected = set (map (\<lambda>m. b64_encode (lib A) (m_x25519_pub m))
               (filter (\<lambda>m. m_account_id m \<noteq> me_id me) members));
             provided = body_keys bodies;
             has_self_copy = self_key \<in> provided;
             required = (if has_self_copy then insert self_key expected else expected);
             mid = ev_ulid E; ts = ev_now E 0
         in if required \<noteq> provided then send_error tx FAN_OUT_MISMATCH ''''
            else db_call (insert_many (fan_out_rows (lib A) me rid mid ts bodies members @
                (if has_self_copy then self_row (lib A) me rid mid ts bodies else [])))
              (\<lambda>e. send_error tx ''Internal'' '''')
              (\<lambda>_ w. let w1 = fold (deliver_message A me rid mid ts bodies) members w
                 in if has_self_copy then echo_self A me rid mid ts bodies client_msg_id w1 else w1))))"

section \<open>Profile and presence\<close>

definition handle_publish_profile ::
  "app \<Rightarrow> account_record \<Rightarrow> string \<Rightarrow> string option \<Rightarrow> sender \<Rightarrow> world \<Rightarrow> world" where
  "handle_publish_profile A me envelope_b64 avatar tx =
    (if \<not> has_store A then (\<lambda>w. w)
     else (case b64_decode (lib A) envelope_b64 of None \<Rightarrow> send_error tx BAD_CODE ''''
       | Some envelope \<Rightarrow>
          db_call (upsert_profile (me_id me) envelope avatar) (\<lambda>e. send_error tx ''Internal'' '''') (\<lambda>_.
            db_call (partner_username_for (me_id me)) (\<lambda>e w. w) (\<lambda>p. case p of
                Some partner \<Rightarrow> deliver partner (Profile (me_username me) envelope_b64 avatar)
              | None \<Rightarrow> (\<lambda>w. w)))))"

definition replay_profile :: "app \<Rightarrow> account_record \<Rightarrow> string \<Rightarrow> sender \<Rightarrow> world \<Rightarrow> world" where
  "replay_profile A me partner tx =
    db_call (partner_account_id_for (me_id me)) (\<lambda>e w. w) (\<lambda>pid. case pid of None \<Rightarrow> (\<lambda>w. w)
      | Some p \<Rightarrow> db_call (profile_for_account p) (\<lambda>e w. w) (\<lambda>prof. case prof of None \<Rightarrow> (\<lambda>w. w)
        | Some sp \<Rightarrow> send_frame tx (Profile partner (b64_encode (lib A) (sp_envelope sp)) (sp_avatar_key sp))))"

text \<open>\<open>k\<close> is what follows once the partner's last-seen stamp is known.\<close>

definition partner_last_seen :: "account_record \<Rightarrow> bool \<Rightarrow> (timestamp option \<Rightarrow> world \<Rightarrow> world) \<Rightarrow> world \<Rightarrow> world" where
  "partner_last_seen me online k =
    (if online then k None
     else db_call (partner_account_id_for (me_id me)) (\<lambda>e. k None) (\<lambda>pid. case pid of None \<Rightarrow> k None
       | Some p \<Rightarrow> db_call (last_seen_for p) (\<lambda>e. k None) k))"

definition exchange_presence :: "app \<Rightarrow> account_record \<Rightarrow> sender \<Rightarrow> world \<Rightarrow> world" where
  "exchange_presence A me tx =
    db_call (partner_username_for (me_id me)) (\<lambda>e w. w) (\<lambda>p. case p of None \<Rightarrow> (\<lambda>w. w)
      | Some partner \<Rightarrow> (\<lambda>w.
         let w1 = deliver partner (Presence (me_username me) True None) w;
             online = is_online partner (w_routing w1)
         in partner_last_seen me online
              (\<lambda>seen w2. replay_profile A me partner tx (send_frame tx (Presence partner online seen) w2)) w1))"

definition announce_presence_on_connect :: "app \<Rightarrow> account_record \<Rightarrow> sender \<Rightarrow> world \<Rightarrow> world" where
  "announce_presence_on_connect A me tx =
    (if \<not> has_store A then (\<lambda>w. w)
     else db_call (touch_last_seen (me_id me)) (\<lambda>e. exchange_presence A me tx) (\<lambda>_. exchange_presence A me tx))"

definition tell_offline :: "account_record \<Rightarrow> world \<Rightarrow> world" where
  "tell_offline me =
    (let tell = (\<lambda>seen. db_call (partner_username_for (me_id me)) (\<lambda>e w. w) (\<lambda>p. case p of
            Some partner \<Rightarrow> deliver partner (Presence (me_username me) False seen)
          | None \<Rightarrow> (\<lambda>w. w)))
     in db_call (last_seen_for (me_id me)) (\<lambda>e. tell None) tell)"

definition announce_presence_on_disconnect :: "app \<Rightarrow> account_record \<Rightarrow> world \<Rightarrow> world" where
  "announce_presence_on_disconnect A me w =
    (if is_online (me_username me) (w_routing w) then w
     else if \<not> has_store A then w
     else db_call (touch_last_seen (me_id me)) (\<lambda>e. tell_offline me) (\<lambda>_. tell_offline me) w)"

section \<open>Attachments\<close>

definition handle_request_upload ::
  "app \<Rightarrow> env \<Rightarrow> account_record \<Rightarrow> uuid \<Rightarrow> string \<Rightarrow> int \<Rightarrow> sender \<Rightarrow> world \<Rightarrow> world" where
  "handle_request_upload A E me request rid byte_size tx =
    (case (has_store A, r2 A) of
       (True, Some presigner) \<Rightarrow>
         (if byte_size \<le> 0 \<or> byte_size > MAX_ATTACHMENT_BYTES then send_error tx BLOB_TOO_LARGE ''''
          else db_call (is_member rid (me_id me)) (\<lambda>e. send_error tx ''Internal'' '''') (\<lambda>m.
            if \<not> m then send_error tx UNKNOWN_ROOM ''''
            else db_call (insert_attachment (ev_ulid E) rid (me_id me) byte_size)
              (\<lambda>e. send_error tx ''Internal'' '''')
              (\<lambda>_. send_frame tx (UploadGranted request (ev_ulid E)
                 (presign_put presigner (ev_ulid E) PRESIGN_TTL) (ev_now E 0 + PRESIGN_TTL)))))
     | _ \<Rightarrow> send_error tx R2_UNAVAILABLE '''')"

definition handle_request_download :: "app \<Rightarrow> env \<Rightarrow> account_record \<Rightarrow> string \<Rightarrow> sender \<Rightarrow> world \<Rightarrow> world" where
  "handle_request_download A E me key tx =
    (case (has_store A, r2 A) of
       (True, Some presigner) \<Rightarrow>
         db_call (attachment_room key) (\<lambda>e. send_error tx ''Internal'' '''') (\<lambda>r. case r of
             None \<Rightarrow> send_error tx UNKNOWN_BLOB ''''
           | Some rid \<Rightarrow> db_call (is_member rid (me_id me)) (\<lambda>e. send_error tx UNKNOWN_BLOB '''') (\<lambda>m.
               if m then send_frame tx (DownloadGranted key (presign_get presigner key PRESIGN_TTL)
                 (ev_now E 0 + PRESIGN_TTL))
               else send_error tx UNKNOWN_BLOB ''''))
     | _ \<Rightarrow> send_error tx R2_UNAVAILABLE '''')"

section \<open>Rooms\<close>

definition deliver_all :: "room_server_frame \<Rightarrow> member list \<Rightarrow> world \<Rightarrow> world" where
  "deliver_all frame = fold (\<lambda>m. deliver (m_username m) frame)"

definition announce_room :: "app \<Rightarrow> string \<Rightarrow> pending_invite option \<Rightarrow> sender \<Rightarrow> world \<Rightarrow> world" where
  "announce_room A rid pend tx =
    db_call (room_detail rid) (\<lambda>e. send_error tx ''Internal'' '''') (\<lambda>det. case det of
        None \<Rightarrow> send_error tx ''Internal'' ''''
      | Some detail \<Rightarrow> deliver_all (RoomCreated (rd_room_id detail) (rd_name detail)
          (map (member_into_wire (lib A)) (rd_members detail)) pend) (rd_members detail))"

definition create_room_for ::
  "app \<Rightarrow> env \<Rightarrow> account_record \<Rightarrow> string \<Rightarrow> bool \<Rightarrow> account_id option \<Rightarrow> sender \<Rightarrow> world \<Rightarrow> world" where
  "create_room_for A E me nm invite_partner auto_partner tx =
    db_call (create_room_with_members (ev_ulid E) (me_id me) auto_partner nm)
      (\<lambda>e. send_error tx ''Internal'' '''') (\<lambda>rid.
        if invite_partner \<and> auto_partner = None
        then (case generate_invite (lib A) (ev_random E) of (canonical, code, hash) \<Rightarrow>
          let expires = default_expiry (ev_now E 0)
          in db_call (create_invite_record (me_id me) hash expires (Some rid))
               (\<lambda>e. send_error tx ''Internal'' '''')
               (\<lambda>_. announce_room A rid (Some \<lparr>pi_code = code, pi_qr_png_base64 = qr_or_empty A code,
                  pi_expires_at = expires\<rparr>) tx))
        else announce_room A rid None tx)"

definition handle_create_room ::
  "app \<Rightarrow> env \<Rightarrow> account_record \<Rightarrow> string option \<Rightarrow> bool \<Rightarrow> sender \<Rightarrow> world \<Rightarrow> world" where
  "handle_create_room A E me name_opt invite_partner tx =
    (if \<not> has_store A then send_error tx ''Internal'' ''store unavailable''
     else (let nm = (case name_opt of None \<Rightarrow> [] | Some n \<Rightarrow> n) in
       if utf8_chars nm > MAX_ROOM_NAME_CHARS then send_error tx ''BadName'' ''name too long''
       else if invite_partner
       then db_call (partner_account_id_for (me_id me)) (\<lambda>e. send_error tx ''Internal'' '''')
         (\<lambda>p. create_room_for A E me nm invite_partner p tx)
       else create_room_for A E me nm invite_partner None tx))"

definition handle_rename_room ::
  "app \<Rightarrow> account_record \<Rightarrow> string \<Rightarrow> string \<Rightarrow> sender \<Rightarrow> world \<Rightarrow> world" where
  "handle_rename_room A me rid nm tx =
    (if \<not> has_store A then send_error tx ''Internal'' ''store unavailable''
     else db_call (is_member rid (me_id me)) (\<lambda>e. send_error tx UNKNOWN_ROOM '''') (\<lambda>m.
       if \<not> m then send_error tx UNKNOWN_ROOM ''''
       else if utf8_chars nm > MAX_ROOM_NAME_CHARS then send_error tx ''BadName'' ''name too long''
       else db_call (rename_room rid nm) (\<lambda>e. send_error tx ''Internal'' '''') (\<lambda>_.
         db_call (members_for_room rid) (\<lambda>e. deliver_all (RoomRenamed rid nm) [])
           (deliver_all (RoomRenamed rid nm)))))"

definition handle_leave_room :: "app \<Rightarrow> account_record \<Rightarrow> string \<Rightarrow> sender \<Rightarrow> world \<Rightarrow> world" where
  "handle_leave_room A me rid tx =
    (if \<not> has_store A then send_error tx ''Internal'' ''store unavailable''
     else db_call (is_member rid (me_id me)) (\<lambda>e. send_error tx UNKNOWN_ROOM '''') (\<lambda>m.
       if \<not> m then send_error tx UNKNOWN_ROOM ''''
       else (let go = (\<lambda>before. db_call (leave_room rid (me_id me)) (\<lambda>e. send_error tx ''Internal'' '''')
               (\<lambda>_. deliver_others me (MemberLeft rid (me_username me)) before))
             in db_call (members_for_room rid) (\<lambda>e. go []) go)))"

end
