(* ===== verification/Session.thy ===== *)
theory Session
  imports Ws
begin

text \<open>
  The life of a WebSocket session (\<open>handshake\<close> and \<open>handle_socket\<close> of \<open>server/src/ws.rs\<close>): the challenge and
  its answer, the start of a session, its loop and its end. A socket is the messages still to come in,
  the messages sent so far, and, for each message sent, whether sending it succeeds. \<open>tokio::select!\<close> may
  take any branch that is ready, so the loop runs over an arbitrary list of events.
\<close>

definition CLOSE_AUTH_FAILED :: u16 where "CLOSE_AUTH_FAILED = 4001"
definition PING_INTERVAL :: int where "PING_INTERVAL = 15 * 1000000"
definition LIVENESS_TIMEOUT :: int where "LIVENESS_TIMEOUT = 40 * 1000000"

datatype ws_message = Text string | Close "(u16 \<times> string) option" | Ping bytes | Other_msg

record socket =
  sk_inbox :: "ws_message list"
  sk_sent :: "ws_message list"
  sk_ok :: "nat \<Rightarrow> bool"

definition sock_send :: "ws_message \<Rightarrow> socket \<Rightarrow> bool \<times> socket" where
  "sock_send m s = (sk_ok s (length (sk_sent s)), s\<lparr>sk_sent := sk_sent s @ [m]\<rparr>)"

definition sock_next :: "socket \<Rightarrow> ws_message option \<times> socket" where
  "sock_next s = (case sk_inbox s of [] \<Rightarrow> (None, s) | m # ms \<Rightarrow> (Some m, s\<lparr>sk_inbox := ms\<rparr>))"

section \<open>Handshake\<close>

definition close_auth_failed :: "socket \<Rightarrow> socket" where
  "close_auth_failed s = snd (sock_send (Close (Some (CLOSE_AUTH_FAILED, ''auth failed''))) s)"

text \<open>The answer to the challenge, once a text message has arrived.\<close>

definition authenticate ::
  "app \<Rightarrow> bytes \<Rightarrow> string \<Rightarrow> socket \<Rightarrow> world \<Rightarrow> (account_record option \<times> socket) \<times> world" where
  "authenticate A nonce raw s =
    (let fail = (\<lambda>w. ((None, close_auth_failed s), w)) in
     (case parse_auth A raw of
        None \<Rightarrow> fail
      | Some (Identify p) \<Rightarrow>
         if \<not> has_store A then fail
         else db_call (lookup_ed25519_pub (id_username p)) (\<lambda>e. fail) (\<lambda>key. case key of None \<Rightarrow> fail
           | Some pub_key \<Rightarrow>
              (case decode_b64 (lib A) (id_signature p) of
                 Inl _ \<Rightarrow> fail
               | Inr sig_bytes \<Rightarrow>
                  (case verify_signature (lib A) pub_key nonce sig_bytes of
                     Inl _ \<Rightarrow> fail
                   | Inr _ \<Rightarrow> db_call (lookup_full_account (id_username p)) (\<lambda>e. fail) (\<lambda>acc. case acc of
                        None \<Rightarrow> fail
                      | Some account \<Rightarrow> (\<lambda>w.
                         case auth_text A Authenticated of
                           None \<Rightarrow> ((None, s), w)
                         | Some ok \<Rightarrow> (case sock_send (Text ok) s of (sent, s') \<Rightarrow>
                             ((if sent then Some account else None, s'), w)))))))))"

definition handshake :: "app \<Rightarrow> bytes \<Rightarrow> socket \<Rightarrow> world \<Rightarrow> (account_record option \<times> socket) \<times> world" where
  "handshake A nonce s w =
    (case auth_text A (Challenge (encode_b64 (lib A) nonce)) of
       None \<Rightarrow> ((None, s), w)
     | Some challenge \<Rightarrow>
        (case sock_send (Text challenge) s of (sent, s1) \<Rightarrow>
          if \<not> sent then ((None, s1), w)
          else (case sock_next s1 of
                  (Some (Text raw), s2) \<Rightarrow> authenticate A nonce raw s2 w
                | (_, s2) \<Rightarrow> ((None, close_auth_failed s2), w))))"

section \<open>The loop\<close>

record session =
  se_me :: account_record
  se_tx :: sender
  upload_rl :: rate_limiter
  typing_rl :: rate_limiter
  turn_rl :: rate_limiter
  call_rl :: rate_limiter
  last_seen :: int

definition limited :: "bool \<Rightarrow> (world \<Rightarrow> world) \<Rightarrow> (world \<Rightarrow> world) \<Rightarrow> world \<Rightarrow> world" where
  "limited ok h refused = (if ok then h else refused)"

definition register_push :: "app \<Rightarrow> account_record \<Rightarrow> string \<Rightarrow> string \<Rightarrow> string \<Rightarrow> string \<Rightarrow> world \<Rightarrow> world" where
  "register_push A me device token environment kind =
    (if has_store A
     then db_call (upsert_token (me_id me) device token environment kind) (\<lambda>e w. w) (\<lambda>_ w. w) else (\<lambda>w. w))"

definition unregister_push :: "app \<Rightarrow> account_record \<Rightarrow> string \<Rightarrow> world \<Rightarrow> world" where
  "unregister_push A me device =
    (if has_store A then db_call (delete_token (me_id me) device) (\<lambda>e w. w) (\<lambda>_ w. w) else (\<lambda>w. w))"

text \<open>The match on a parsed frame.\<close>

definition handle_frame :: "app \<Rightarrow> env \<Rightarrow> room_client_frame \<Rightarrow> session \<Rightarrow> world \<Rightarrow> session \<times> world" where
  "handle_frame A E f ss w =
    (let me = se_me ss; tx = se_tx ss; now = ev_instant E; keep = (\<lambda>h. (ss, h w)) in
     case f of
       CreateInvite \<Rightarrow> keep (handle_create_invite A E me tx)
     | ConsumeInvite code signature \<Rightarrow> keep (handle_consume_invite A E me code signature tx)
     | Subscribe rid since \<Rightarrow> keep (handle_subscribe A me rid since tx)
     | Send rid bodies client_msg_id \<Rightarrow> keep (handle_send A E me rid bodies client_msg_id tx)
     | CreateRoom nm invite_partner \<Rightarrow> keep (handle_create_room A E me nm invite_partner tx)
     | RenameRoom rid nm \<Rightarrow> keep (handle_rename_room A me rid nm tx)
     | LeaveRoom rid \<Rightarrow> keep (handle_leave_room A me rid tx)
     | MarkRead rid up_to \<Rightarrow> keep (handle_mark_read A me rid up_to tx)
     | Typing_req rid typing \<Rightarrow> (case allow now (typing_rl ss) of (ok, rl) \<Rightarrow>
         (ss\<lparr>typing_rl := rl\<rparr>, limited ok (handle_typing A me rid typing) (\<lambda>w. w) w))
     | PublishProfile envelope avatar \<Rightarrow> keep (handle_publish_profile A me envelope avatar tx)
     | RequestUpload request rid byte_size \<Rightarrow> (case allow now (upload_rl ss) of (ok, rl) \<Rightarrow>
         (ss\<lparr>upload_rl := rl\<rparr>, limited ok (handle_request_upload A E me request rid byte_size tx)
            (send_error tx RATE_LIMITED '''') w))
     | RequestDownload key \<Rightarrow> keep (handle_request_download A E me key tx)
     | RegisterPush device token environment kind \<Rightarrow> keep (register_push A me device token environment kind)
     | UnregisterPush device \<Rightarrow> keep (unregister_push A me device)
     | CallTurnRequest call \<Rightarrow> (case allow now (turn_rl ss) of (ok, rl) \<Rightarrow>
         (ss\<lparr>turn_rl := rl\<rparr>, limited ok (handle_call_turn_request A me call tx)
            (send_error tx RATE_LIMITED '''') w))
     | CallInvite_req rid call offer video \<Rightarrow> (case allow now (call_rl ss) of (ok, rl) \<Rightarrow>
         (ss\<lparr>call_rl := rl\<rparr>, limited ok (handle_call_invite A E me rid call offer video)
            (send_error tx RATE_LIMITED '''') w))
     | CallAnswer_req rid call answer \<Rightarrow> keep (forward_call_to_partner A me (CallAnswer rid call answer))
     | CallIce_req rid call candidate \<Rightarrow> keep (forward_call_to_partner A me (CallIce rid call candidate))
     | CallHangup_req rid call reason \<Rightarrow> keep (handle_call_hangup A me rid call reason))"

datatype loop_event = Outbound | Ping_tick int | Inbound "ws_message option" env

text \<open>One turn of the loop; the flag tells whether it goes on.\<close>

definition relay_outbound :: "app \<Rightarrow> session \<Rightarrow> socket \<Rightarrow> world \<Rightarrow> bool \<times> session \<times> socket \<times> world" where
  "relay_outbound A ss s w =
    (let tx = se_tx ss; ch = w_chans w in
     case ch_queue (ch tx) of
       [] \<Rightarrow> (True, ss, s, w)
     | f # fs \<Rightarrow>
        (let w' = w\<lparr>w_chans := ch(tx := (ch tx)\<lparr>ch_queue := fs\<rparr>)\<rparr> in
         case room_text A f of
           None \<Rightarrow> (True, ss, s, w')
         | Some text \<Rightarrow> (case sock_send (Text text) s of (sent, s') \<Rightarrow> (sent, ss, s', w'))))"

definition session_step :: "app \<Rightarrow> loop_event \<Rightarrow> session \<Rightarrow> socket \<Rightarrow> world \<Rightarrow> bool \<times> session \<times> socket \<times> world" where
  "session_step A ev ss s w =
    (case ev of
       Outbound \<Rightarrow> relay_outbound A ss s w
     | Ping_tick now \<Rightarrow>
        (if duration_since now (last_seen ss) > LIVENESS_TIMEOUT then (False, ss, s, w)
         else (case sock_send (Ping []) s of (sent, s') \<Rightarrow> (sent, ss, s', w)))
     | Inbound msg E \<Rightarrow>
        (let ss' = ss\<lparr>last_seen := ev_instant E\<rparr> in
         case msg of
           None \<Rightarrow> (False, ss', s, w)
         | Some (Text t) \<Rightarrow>
            (case parse_room A t of
               None \<Rightarrow> (True, ss', s, w)
             | Some f \<Rightarrow> (case handle_frame A E f ss' w of (ss'', w') \<Rightarrow> (True, ss'', s, w')))
         | Some (Close _) \<Rightarrow> (False, ss', s, w)
         | Some _ \<Rightarrow> (True, ss', s, w)))"

fun session_loop :: "app \<Rightarrow> loop_event list \<Rightarrow> session \<Rightarrow> socket \<Rightarrow> world \<Rightarrow> bool \<times> session \<times> socket \<times> world" where
  "session_loop A [] ss s w = (True, ss, s, w)"
| "session_loop A (ev # evs) ss s w =
    (case session_step A ev ss s w of (go, ss', s', w') \<Rightarrow>
      if go then session_loop A evs ss' s' w' else (False, ss', s', w'))"

section \<open>Start and end\<close>

definition open_channel :: "sender \<Rightarrow> world \<Rightarrow> world" where
  "open_channel tx w = w\<lparr>w_chans := (w_chans w)(tx := \<lparr>ch_queue = [], ch_open = True\<rparr>)\<rparr>"

definition send_rooms :: "app \<Rightarrow> account_record \<Rightarrow> sender \<Rightarrow> world \<Rightarrow> world" where
  "send_rooms A me tx =
    (if has_store A
     then db_call (list_rooms_for_account (me_id me)) (\<lambda>e. send_frame tx (Rooms []))
       (\<lambda>rs. send_frame tx (Rooms (map (room_detail_into_wire (lib A)) rs)))
     else send_frame tx (Rooms []))"

definition start_session :: "app \<Rightarrow> env \<Rightarrow> account_record \<Rightarrow> sender \<Rightarrow> world \<Rightarrow> session \<times> world" where
  "start_session A E me tx w =
    (let w1 = open_channel tx w;
         w2 = w1\<lparr>w_routing := register (me_username me) tx (w_routing w1)\<rparr>;
         w3 = send_rooms A me tx w2;
         w4 = announce_presence_on_connect A me tx w3;
         w5 = deliver_pending_calls E me tx w4
     in (\<lparr>se_me = me, se_tx = tx, upload_rl = new_limiter UPLOAD_RL_WINDOW UPLOAD_RL_MAX,
          typing_rl = new_limiter TYPING_RL_WINDOW TYPING_RL_MAX,
          turn_rl = new_limiter TURN_RL_WINDOW TURN_RL_MAX,
          call_rl = new_limiter TURN_RL_WINDOW TURN_RL_MAX, last_seen = ev_instant E\<rparr>, w5))"

text \<open>The end of \<open>handle_socket\<close>; the receiving end of the channel goes with the function.\<close>

definition end_session :: "app \<Rightarrow> session \<Rightarrow> world \<Rightarrow> world" where
  "end_session A ss w =
    (let me = se_me ss; tx = se_tx ss;
         w1 = w\<lparr>w_routing := unregister (me_username me) tx (w_routing w)\<rparr>;
         w2 = announce_presence_on_disconnect A me w1
     in w2\<lparr>w_chans := (w_chans w2)(tx := (w_chans w2 tx)\<lparr>ch_open := False\<rparr>)\<rparr>)"

text \<open>A whole connection: if the events run out before the loop breaks, the session is still open.\<close>

definition handle_socket ::
  "app \<Rightarrow> env \<Rightarrow> bytes \<Rightarrow> sender \<Rightarrow> loop_event list \<Rightarrow> socket \<Rightarrow> world \<Rightarrow> session option \<times> world" where
  "handle_socket A E nonce tx evs s w =
    (case handshake A nonce s w of
       ((None, s1), w1) \<Rightarrow> (None, w1)
     | ((Some me, s1), w1) \<Rightarrow>
        (case start_session A E me tx w1 of (ss, w2) \<Rightarrow>
          (case session_loop A evs ss s1 w2 of (go, ss', s2, w3) \<Rightarrow>
            if go then (Some ss', w3) else (None, end_session A ss' w3))))"

section \<open>The handshake as an authentication\<close>

lemma authenticate_SomeD:
  assumes "authenticate A nonce raw s w = ((Some a, s'), w')"
  shows "has_store A \<and> w_routing w' = w_routing w \<and> w_db w' = w_db w \<and>
    (\<exists>p row sig_bytes. parse_auth A raw = Some (Identify p) \<and> account_by_name (id_username p) (w_db w) = Some row \<and>
      a = full_account_record row \<and> decode_b64 (lib A) (id_signature p) = Inr sig_bytes \<and>
      verify_signature (lib A) (acc_ed25519_pub row) nonce sig_bytes = Inr ())"
proof -
  obtain p where p: "parse_auth A raw = Some (Identify p)" and store: "has_store A"
    using assms by (auto simp: authenticate_def Let_def split: option.splits auth_client_frame.splits if_splits)
  obtain key w1 where key: "db_exec (lookup_ed25519_pub (id_username p)) w = (Inr (Some key), w1)"
    using assms p store by (auto simp: authenticate_def Let_def db_call_def
        split: prod.splits sum.splits option.splits)
  obtain sig_bytes where sb: "decode_b64 (lib A) (id_signature p) = Inr sig_bytes"
      and ok: "verify_signature (lib A) key nonce sig_bytes = Inr ()"
    using assms p store key by (auto simp: authenticate_def Let_def db_call_def split: sum.splits)
  obtain w2 where acc: "db_exec (lookup_full_account (id_username p)) w1 = (Inr (Some a), w2)" and w2: "w' = w2"
    using assms p store key sb ok by (auto simp: authenticate_def Let_def db_call_def sock_send_def
        split: prod.splits sum.splits option.splits if_splits)
  have w1_db: "w_db w1 = w_db w" and key': "Some key = map_option acc_ed25519_pub (account_by_name (id_username p) (w_db w))"
    using db_exec_read [OF key [unfolded lookup_ed25519_pub_def]] by auto
  have "w_db w2 = w_db w1" "Some a = map_option full_account_record (account_by_name (id_username p) (w_db w1))"
    using db_exec_read [OF acc [unfolded lookup_full_account_def]] by auto
  moreover obtain row where "account_by_name (id_username p) (w_db w) = Some row" "key = acc_ed25519_pub row"
    using key' by (auto simp: map_option_case split: option.splits)
  ultimately show ?thesis
    using p store sb ok w1_db w2 db_exec_frame [OF key] db_exec_frame [OF acc] by auto
qed

lemma handshake_SomeD:
  assumes "handshake A nonce s w = ((Some a, s'), w')"
  shows "\<exists>raw rest s2. sk_inbox s = Text raw # rest \<and> authenticate A nonce raw s2 w = ((Some a, s'), w')"
  using assms
  by (auto simp: handshake_def sock_next_def sock_send_def split: option.splits if_splits list.splits
      ws_message.splits)

text \<open>
  C1. The handshake authenticates: whatever the database does, a session is only opened for the account
  of a user name whose stored key verifies, under the challenge tag, a signature over this connection's
  nonce; and the account record the session acts with is the one stored under that name.
\<close>

theorem handshake_authenticates:
  assumes "handshake A nonce s w = ((Some a, s'), w')"
  shows "\<exists>raw rest p row sig_bytes. sk_inbox s = Text raw # rest \<and> parse_auth A raw = Some (Identify p) \<and>
    account_by_name (id_username p) (w_db w) = Some row \<and> a = full_account_record row \<and>
    me_username a = id_username p \<and> b64_decode (lib A) (id_signature p) = Some sig_bytes \<and>
    length sig_bytes = 64 \<and>
    ed_verify_strict (lib A) (acc_ed25519_pub row) (challenge_signing_input nonce) sig_bytes"
proof -
  obtain raw rest s2 where raw: "sk_inbox s = Text raw # rest"
    and auth: "authenticate A nonce raw s2 w = ((Some a, s'), w')"
    using handshake_SomeD [OF assms] by blast
  obtain p row sig_bytes where p: "parse_auth A raw = Some (Identify p)"
    and row: "account_by_name (id_username p) (w_db w) = Some row" and a: "a = full_account_record row"
    and sb: "decode_b64 (lib A) (id_signature p) = Inr sig_bytes"
    and ok: "verify_signature (lib A) (acc_ed25519_pub row) nonce sig_bytes = Inr ()"
    using authenticate_SomeD [OF auth] by blast
  have "b64_decode (lib A) (id_signature p) = Some sig_bytes"
    using sb by (auto simp: decode_b64_def split: option.splits)
  moreover have "length sig_bytes = 64 \<and>
      ed_verify_strict (lib A) (acc_ed25519_pub row) (challenge_signing_input nonce) sig_bytes"
    using ok by (simp add: verify_signature_def verify_domain_separated_Inr_iff challenge_signing_input_def)
  moreover have "me_username a = id_username p"
    using a account_by_name_SomeD [OF row] by (simp add: full_account_record_def)
  ultimately show ?thesis
    using raw p row a by blast
qed

definition signed_sig :: bytes where
  "signed_sig = 7 # replicate 63 58"

definition signed_nonce :: bytes where
  "signed_nonce = replicate 32 9"

definition signed_key :: bytes where
  "signed_key = 7 # replicate 31 0"

definition signed_world :: world where
  "signed_world = sample_world (snd (insert_account ''court'' signed_key [] empty_db))"

definition signed_socket :: socket where
  "signed_socket = \<lparr>sk_inbox = [Text (''court:'' @ sample_b64 signed_sig)], sk_sent = [], sk_ok = (\<lambda>_. True)\<rparr>"

lemma signed_verifies: "verify_signature sample_crates signed_key signed_nonce signed_sig = Inr ()"
proof -
  have "length (challenge_signing_input signed_nonce) = 58"
    unfolding signed_nonce_def challenge_signing_input_def signing_input_def CHALLENGE_DOMAIN_TAG_def
    by (simp only: length_append length_byte_string length_replicate list.size)
  moreover have "length signed_key = 32" "length signed_sig = 64"
    unfolding signed_key_def signed_sig_def by (simp_all only: list.size length_replicate)
  ultimately show ?thesis
    unfolding verify_signature_def verify_domain_separated_Inr_iff
    by (simp add: sample_crates_def) (simp add: signed_key_def signed_sig_def)
qed

text \<open>Whoever holds the key of the sample signature gets through, on any world whose database works.\<close>

lemma signed_handshake_in:
  assumes A: "lib A = sample_crates" "has_store A" "\<And>f. auth_text A f = Some []"
      "parse_auth A t = Some (Identify \<lparr>id_username = u, id_signature = sample_b64 signed_sig\<rparr>)"
    and row: "account_by_name u (w_db w) = Some row" "acc_ed25519_pub row = signed_key"
    and w: "w_faults w = []"
  shows "\<exists>s'. handshake A signed_nonce \<lparr>sk_inbox = [Text t], sk_sent = [], sk_ok = (\<lambda>_. True)\<rparr> w =
    ((Some (full_account_record row), s'), w)"
proof -
  have "decode_b64 sample_crates (sample_b64 signed_sig) = Inr signed_sig"
    using sample_b64_ok by (simp add: decode_b64_def b64_law_def sample_crates_def)
  then show ?thesis
    using assms signed_verifies
    by (simp add: Let_def handshake_def sock_send_def sock_next_def authenticate_def
        lookup_ed25519_pub_def lookup_full_account_def)
qed

lemma signed_row:
  "\<exists>row. account_by_name ''court'' (w_db signed_world) = Some row \<and> acc_ed25519_pub row = signed_key \<and> acc_username row = ''court''"
  by (simp add: signed_world_def insert_account_cases account_by_name_def empty_db_def account_ids_def)

lemma sample_identify: "parse_auth sample_app (''court:'' @ sample_b64 signed_sig) =
    Some (Identify \<lparr>id_username = ''court'', id_signature = sample_b64 signed_sig\<rparr>)"
  by (simp add: sample_parse_auth)

lemma signed_handshake:
  "\<exists>a s' w'. handshake sample_app signed_nonce signed_socket signed_world = ((Some a, s'), w') \<and> me_username a = ''court''"
proof -
  obtain row where row: "account_by_name ''court'' (w_db signed_world) = Some row" "acc_ed25519_pub row = signed_key"
    "acc_username row = ''court''"
    using signed_row by blast
  have "w_faults signed_world = []"
    by (simp add: signed_world_def)
  from signed_handshake_in [OF _ _ _ sample_identify row(1,2) this] row(3)
  show ?thesis by (auto simp: full_account_record_def signed_socket_def)
qed

theorem handshake_authenticates_witness:
  "\<exists>sig_bytes. length sig_bytes = 64 \<and>
     ed_verify_strict sample_crates signed_key (challenge_signing_input signed_nonce) sig_bytes"
proof -
  obtain a s' w' where h: "handshake sample_app signed_nonce signed_socket signed_world = ((Some a, s'), w')"
    "me_username a = ''court''"
    using signed_handshake by blast
  have "account_by_name ''court'' (w_db signed_world) = Some row \<Longrightarrow> acc_ed25519_pub row = signed_key" for row
    by (auto simp: signed_world_def insert_account_cases account_by_name_def empty_db_def
        account_ids_def)
  then show ?thesis
    using handshake_authenticates [OF h(1)] h(2) by force
qed

end
