(* ===== verification/Effects.thy ===== *)
theory Effects
  imports Session
begin

text \<open>
  What every handler does to the world, shown once for an arbitrary relation: if a relation on worlds is
  reflexive and transitive and contains the single effects (a frame sent, a call held, a statement
  executed), it contains the run of every handler, of every frame and of a whole connection. The two
  interpretations are that the database only moves along \<open>db_step\<close>, the transition relation of the
  statements and transactions of the code, and that no handler changes who is connected.
\<close>

section \<open>The transition relation of the database\<close>

text \<open>
  One constructor per statement or transaction that the code sends to Postgres, for arbitrary
  parameters, and the clock. Concurrent sessions interleave at these steps, so what follows from them alone holds
  whatever the handlers check; the conditions the handlers add are those of \<open>own_step\<close> in Authority.
\<close>

inductive db_step :: "db \<Rightarrow> db \<Rightarrow> bool" where
  step_insert_account: "db_step d (snd (insert_account u ed x d))"
| step_touch_last_seen: "db_step d (snd (touch_last_seen i d))"
| step_set_partner_link: "db_step d (snd (set_partner_link a b d))"
| step_create_room: "db_step d (snd (create_room_with_members rid host partner nm d))"
| step_insert_member: "db_step d (snd (insert_member rid i d))"
| step_rename_room: "db_step d (snd (rename_room rid nm d))"
| step_leave_room: "db_step d (snd (leave_room rid i d))"
| step_create_invite: "db_step d (snd (create_invite_record i h expires r d))"
| step_mark_consumed: "db_step d (snd (mark_consumed h at d))"
| step_insert_many: "db_step d (snd (insert_many rows d))"
| step_mark_read: "db_step d (snd (mark_read rid i up_to d))"
| step_upsert_token: "db_step d (snd (upsert_token i device token environment kind d))"
| step_delete_token: "db_step d (snd (delete_token i device d))"
| step_delete_token_value: "db_step d (snd (delete_token_value i token d))"
| step_upsert_profile: "db_step d (snd (upsert_profile i envelope avatar d))"
| step_insert_attachment: "db_step d (snd (insert_attachment key rid i bsize d))"
| step_clock: "db_now d \<le> t \<Longrightarrow> db_step d (d\<lparr>db_now := t\<rparr>)"

lemmas db_steps = step_insert_account step_touch_last_seen step_set_partner_link step_create_room
  step_insert_member step_rename_room step_leave_room step_create_invite step_mark_consumed
  step_insert_many step_mark_read step_upsert_token step_delete_token step_delete_token_value
  step_upsert_profile step_insert_attachment

abbreviation db_reach :: "db \<Rightarrow> db \<Rightarrow> bool" where
  "db_reach \<equiv> db_step\<^sup>*\<^sup>*"

section \<open>Relations that contain the effects\<close>

text \<open>The frames that carry a message body; only two handlers send them.\<close>

definition is_message :: "room_server_frame \<Rightarrow> bool" where
  "is_message f = (case f of Message _ _ _ _ _ _ _ _ \<Rightarrow> True | _ \<Rightarrow> False)"

lemma not_messages:
  "\<not> is_message (Rooms rs)" "\<not> is_message (InviteCreated code qr t)" "\<not> is_message (InviteConsumed rid nm ms)"
  "\<not> is_message (RoomCreated rid nm ms pend)" "\<not> is_message (RoomRenamed rid nm)" "\<not> is_message (MemberLeft rid u)"
  "\<not> is_message (Read rid ids u)" "\<not> is_message (ReadMarker rid t)" "\<not> is_message (Typing rid u b)"
  "\<not> is_message (Presence u b seen)" "\<not> is_message (Profile u envelope avatar)"
  "\<not> is_message (UploadGranted request key url t)" "\<not> is_message (DownloadGranted key url t)"
  "\<not> is_message (CallTurnGrant call ice)" "\<not> is_message (CallInvite rid call u offer video)"
  "\<not> is_message (CallAnswer rid call answer)" "\<not> is_message (CallIce rid call candidate)"
  "\<not> is_message (CallHangup rid call reason)" "\<not> is_message (Error code message)"
  by (simp_all add: is_message_def)

definition within :: "(world \<Rightarrow> world \<Rightarrow> bool) \<Rightarrow> (world \<Rightarrow> world) \<Rightarrow> bool" where
  "within R h \<longleftrightarrow> (\<forall>w. R w (h w))"

definition stmt_ok :: "(world \<Rightarrow> world \<Rightarrow> bool) \<Rightarrow> 'a sql \<Rightarrow> bool" where
  "stmt_ok R q \<longleftrightarrow> (\<forall>w. R w (w\<lparr>w_db := snd (q (w_db w))\<rparr>))"

lemma withinI: "(\<And>w. R w (h w)) \<Longrightarrow> within R h"
  by (simp add: within_def)

lemma withinD: "within R h \<Longrightarrow> R w (h w)"
  by (simp add: within_def)

lemma room_detail_reads: "snd (room_detail rid d) = d"
  by (simp add: room_detail_def sql_then_def members_for_room_def split: option.splits)

lemma room_details_reads: "snd (room_details rids d) = d"
proof (induction rids)
  case (Cons rid rids)
  then show ?case
    using room_detail_reads [of rid d]
    by (auto simp: sql_then_def split: prod.splits sum.splits)
qed simp

lemma list_rooms_reads: "snd (list_rooms_for_account i d) = d"
  by (simp add: list_rooms_for_account_def sql_then_def room_ids_for_account_def room_details_reads)

lemmas read_defs = members_for_room_def partner_account_id_for_def partner_username_for_def is_member_def
  lookup_ed25519_pub_def lookup_full_account_def lookup_full_account_by_id_def last_seen_for_def
  lookup_invite_def room_for_invite_def messages_for_recipient_def read_sent_message_ids_def
  newest_read_incoming_ts_def unread_count_def tokens_of_kind_def tokens_for_account_def voip_tokens_for_def
  profile_for_account_def attachment_room_def

locale handler_frame =
  fixes R :: "world \<Rightarrow> world \<Rightarrow> bool"
  assumes refl: "R w w"
    and trans: "R w w1 \<Longrightarrow> R w1 w2 \<Longrightarrow> R w w2"
    and faults: "R w (w\<lparr>w_faults := fs\<rparr>)"
    and sent: "\<not> is_message f \<Longrightarrow> R w (send_frame tx f w)"
    and delivered: "\<not> is_message f \<Longrightarrow> R w (deliver u f w)"
    and calls: "R w (w\<lparr>w_calls := cs\<rparr>)"
    and tasks: "R w (w\<lparr>w_tasks := ts\<rparr>)"
    and pushes: "R w (w\<lparr>w_pushed := ms\<rparr>)"
    and touch: "stmt_ok R (touch_last_seen i)"
    and link: "stmt_ok R (set_partner_link a b)"
    and new_room: "stmt_ok R (create_room_with_members rid host partner nm)"
    and join: "stmt_ok R (insert_member rid i)"
    and rename: "stmt_ok R (rename_room rid nm)"
    and leave: "stmt_ok R (leave_room rid i)"
    and invite: "stmt_ok R (create_invite_record i h expires r)"
    and consume: "stmt_ok R (mark_consumed h at)"
    and store: "list_all (\<lambda>row. length (mr_body row) \<le> MAX_BODY_BYTES) rows \<Longrightarrow> stmt_ok R (insert_many rows)"
    and flip: "stmt_ok R (mark_read rid i up_to)"
    and put_tok: "stmt_ok R (upsert_token i device token environment kind)"
    and del_tok: "stmt_ok R (delete_token i device)"
    and drop_tok: "stmt_ok R (delete_token_value i token)"
    and put_prof: "stmt_ok R (upsert_profile i envelope avatar)"
    and attach: "0 < bsize \<Longrightarrow> bsize \<le> MAX_ATTACHMENT_BYTES \<Longrightarrow> stmt_ok R (insert_attachment key rid i bsize)"
begin

lemma stmt_read: "stmt_ok R (sql_read f)"
  using refl by (simp add: stmt_ok_def)

lemma stmt_detail: "stmt_ok R (room_detail rid)"
  using refl by (simp add: stmt_ok_def room_detail_reads)

lemma stmt_rooms: "stmt_ok R (list_rooms_for_account i)"
  using refl by (simp add: stmt_ok_def list_rooms_reads)

lemma stmt_reads:
  "stmt_ok R (members_for_room rid)" "stmt_ok R (partner_account_id_for i)" "stmt_ok R (partner_username_for i)"
  "stmt_ok R (is_member rid i)" "stmt_ok R (lookup_ed25519_pub u)" "stmt_ok R (lookup_full_account u)"
  "stmt_ok R (lookup_full_account_by_id i)" "stmt_ok R (last_seen_for i)" "stmt_ok R (lookup_invite h)"
  "stmt_ok R (room_for_invite h)" "stmt_ok R (messages_for_recipient rid i since)"
  "stmt_ok R (read_sent_message_ids rid i)" "stmt_ok R (newest_read_incoming_ts rid i)"
  "stmt_ok R (unread_count i)" "stmt_ok R (tokens_for_account i)" "stmt_ok R (voip_tokens_for i)"
  "stmt_ok R (profile_for_account i)" "stmt_ok R (attachment_room key)"
  unfolding read_defs by (rule stmt_read)+

lemmas stmts = stmt_read stmt_detail stmt_rooms stmt_reads touch link new_room join rename leave invite consume
  store flip put_tok del_tok drop_tok put_prof attach

lemma exec_frame:
  assumes "stmt_ok R q" and "db_exec q w = (r, w')"
  shows "R w w'"
proof -
  have run: "R w (w\<lparr>w_db := snd (q (w_db w))\<rparr>)"
    using assms(1) by (simp add: stmt_ok_def)
  then have "R w (w\<lparr>w_db := snd (q (w_db w)), w_faults := fs\<rparr>)" for fs
    by (rule trans) (use faults [of "w\<lparr>w_db := snd (q (w_db w))\<rparr>" fs] in simp)
  then show ?thesis
    using assms(2) run faults [of w]
    by (auto simp: db_exec_def split: list.splits fault.splits prod.splits)
qed

lemma r_call:
  assumes "stmt_ok R q" and "\<And>e. within R (on_err e)" and "\<And>x. within R (on_ok x)"
  shows "within R (db_call q on_err on_ok)"
proof (rule withinI)
  fix w :: world
  obtain r w1 where e: "db_exec q w = (r, w1)" by fastforce
  show "R w (db_call q on_err on_ok w)"
    using exec_frame [OF assms(1) e] assms(2,3) e
    by (cases r) (auto simp: db_call_def within_def intro: trans)
qed

lemma r_id: "within R (\<lambda>w. w)"
  using refl by (simp add: within_def)

lemma r_send: "\<not> is_message f \<Longrightarrow> within R (send_frame tx f)"
  using sent by (simp add: within_def)

lemma r_error: "within R (send_error tx c m)"
  using sent not_messages by (simp add: within_def send_error_def)

lemma r_deliver: "\<not> is_message f \<Longrightarrow> within R (deliver u f)"
  using delivered by (simp add: within_def)

lemma r_comp: "within R h \<Longrightarrow> within R k \<Longrightarrow> within R (\<lambda>w. k (h w))"
  unfolding within_def using trans by blast

lemma r_if: "(b \<Longrightarrow> within R h) \<Longrightarrow> (\<not> b \<Longrightarrow> within R k) \<Longrightarrow> within R (if b then h else k)"
  by simp

lemma r_option: "within R h \<Longrightarrow> (\<And>x. within R (k x)) \<Longrightarrow> within R (case z of None \<Rightarrow> h | Some x \<Rightarrow> k x)"
  by (cases z) auto

lemma r_sum: "(\<And>e. within R (h e)) \<Longrightarrow> (\<And>x. within R (k x)) \<Longrightarrow> within R (case z of Inl e \<Rightarrow> h e | Inr x \<Rightarrow> k x)"
  by (cases z) auto

lemma r_prod: "(\<And>a b. within R (h a b)) \<Longrightarrow> within R (case p of (a, b) \<Rightarrow> h a b)"
  by (cases p) auto

lemma r_bool: "within R h \<Longrightarrow> within R k \<Longrightarrow> within R (case b of True \<Rightarrow> h | False \<Rightarrow> k)"
  by (cases b) auto

lemma r_state: "within R h \<Longrightarrow> within R k \<Longrightarrow> within R l \<Longrightarrow>
    within R (case s of Pending \<Rightarrow> h | Expired \<Rightarrow> k | Consumed \<Rightarrow> l)"
  by (cases s) auto

lemma r_monogamy: "within R h \<Longrightarrow> within R (case e of WrongPartner \<Rightarrow> h)"
  by (cases e) auto

lemma r_fold:
  assumes "\<And>x. within R (h x)"
  shows "within R (fold h xs)"
proof (induction xs)
  case Nil
  then show ?case using refl by (simp add: within_def)
next
  case (Cons x xs)
  then show ?case using r_comp [OF assms Cons.IH, of x] by (simp add: o_def)
qed

lemmas r_intros = r_call r_send r_error r_deliver r_if r_option r_sum r_prod r_bool r_state r_monogamy r_fold
  stmts r_id not_messages

section \<open>The handlers\<close>

lemma r_send_push: "within R (send_push s i msg token)"
proof (rule withinI)
  fix w :: world
  have "within R (db_call (delete_token_value i token) (\<lambda>e w. w) (\<lambda>_ w. w))"
    by (intro r_intros)
  then show "R w (send_push s i msg token w)"
    using pushes [of w "w_pushed w @ [msg]"]
    by (auto simp: send_push_def Let_def intro: trans withinD)
qed

lemma r_notify: "within R (notify_call s i rid call video)" "within R (notify_recipient s i rid)"
  unfolding notify_call_def notify_recipient_def Let_def by (intro r_intros r_send_push)+

lemma r_forward: "\<not> is_message frame \<Longrightarrow> within R (forward_call_to_partner A me frame)"
  unfolding forward_call_to_partner_def forward_to_partner_def by (intro r_intros)

lemma r_turn: "within R (handle_call_turn_request A me call tx)"
  unfolding handle_call_turn_request_def Let_def by (intro r_intros)

lemma r_hold: "within R (hold_call now callee p)" "within R (drop_held_call callee call)"
  using calls by (auto simp: within_def hold_call_def drop_held_call_def)

lemma r_call_invite: "within R (handle_call_invite A E me rid call offer video)"
proof -
  have run: "within R (\<lambda>w. let w1 = hold_call t callee p w; w2 = deliver u f w1 in
      case z of None \<Rightarrow> w2 | Some sender \<Rightarrow> notify_call sender callee rid call video w2)"
    if "\<not> is_message f" for t callee p u f z
    using that unfolding Let_def
    by (cases z) (auto intro: r_comp [OF r_comp [OF r_hold(1) r_deliver] r_notify(1)] r_comp [OF r_hold(1) r_deliver])
  show ?thesis
    unfolding handle_call_invite_def by (intro r_intros) (rule run not_messages)+
qed

lemma r_hangup: "within R (handle_call_hangup A me rid call reason)"
  unfolding handle_call_hangup_def
  by (intro r_if r_id r_comp [OF _ r_forward] r_intros r_hold)

lemma r_pending: "within R (deliver_pending_calls E me tx)"
proof (rule withinI)
  fix w :: world
  obtain ps cs where t: "take_for (me_id me) (ev_instant E) (w_calls w) = (ps, cs)" by fastforce
  have "R (w\<lparr>w_calls := cs\<rparr>) (deliver_pending_calls E me tx w)"
    unfolding deliver_pending_calls_def t prod.case by (rule withinD) (intro r_intros)
  then show "R w (deliver_pending_calls E me tx w)"
    using calls trans by blast
qed

lemma r_create_invite: "within R (handle_create_invite A E me tx)"
  unfolding handle_create_invite_def Let_def by (intro r_intros)

lemma r_announce_joined: "within R (announce_joined A me rid tx)"
  unfolding announce_joined_def Let_def
  by (intro r_call r_option r_intros r_comp [OF r_send] r_fold)

lemma r_join: "within R (join_invited_room A E me hash rid tx)"
  unfolding join_invited_room_def by (intro r_intros r_announce_joined)

lemma r_after_link: "within R (after_link A E me inviter hash tx)"
  unfolding after_link_def by (intro r_intros r_join)

lemma r_consume_invite: "within R (handle_consume_invite A E me code signature tx)"
  unfolding handle_consume_invite_def Let_def by (intro r_intros r_after_link)

lemma r_mark_read: "within R (handle_mark_read A me rid up_to tx)"
  unfolding handle_mark_read_def relay_read_def by (intro r_intros)

lemma r_deliver_others:
  "\<not> is_message f \<Longrightarrow> within R (deliver_others me f ms)" "\<not> is_message f \<Longrightarrow> within R (deliver_all f ms)"
  unfolding deliver_others_def deliver_all_def by (intro r_intros; assumption)+

lemma r_typing: "within R (handle_typing A me rid typing)"
  unfolding handle_typing_def Let_def by (intro r_intros r_deliver_others)

lemma r_spawn: "within R (spawn_notify A i rid)"
  using tasks refl by (simp add: within_def spawn_notify_def)

lemma r_profile: "within R (handle_publish_profile A me envelope avatar tx)"
  unfolding handle_publish_profile_def by (intro r_intros)

lemma r_replay_profile: "within R (replay_profile A me partner tx)"
  unfolding replay_profile_def by (intro r_intros)

lemma r_partner_last_seen:
  "(\<And>s. within R (k s)) \<Longrightarrow> within R (partner_last_seen me online k)"
  unfolding partner_last_seen_def by (intro r_intros)

lemma r_exchange: "within R (exchange_presence A me tx)"
proof -
  have seen: "within R (partner_last_seen me online
      (\<lambda>seen w2. replay_profile A me partner tx (send_frame tx (g seen) w2)))"
    if "\<And>s. \<not> is_message (g s)" for online partner g
    using that by (intro r_partner_last_seen r_comp [OF r_send r_replay_profile]) blast
  have run: "within R (\<lambda>w. let w1 = deliver partner f w; online = is_online partner (w_routing w1) in
      partner_last_seen me online (\<lambda>seen w2. replay_profile A me partner tx (send_frame tx (g online seen) w2)) w1)"
    if "\<not> is_message f" "\<And>b s. \<not> is_message (g b s)" for partner f g
    unfolding Let_def within_def using trans withinD [OF seen] delivered that by blast
  show ?thesis
    unfolding exchange_presence_def by (intro r_intros) (rule run not_messages)+
qed

lemma r_connect: "within R (announce_presence_on_connect A me tx)"
  unfolding announce_presence_on_connect_def by (intro r_intros r_exchange)

lemma r_disconnect: "within R (announce_presence_on_disconnect A me)"
proof -
  have "within R (tell_offline me)"
    unfolding tell_offline_def Let_def by (intro r_intros)
  then have "within R (db_call (touch_last_seen (me_id me)) (\<lambda>e. tell_offline me) (\<lambda>_. tell_offline me))"
    by (intro r_intros)
  then show ?thesis
    using refl by (auto simp: announce_presence_on_disconnect_def within_def)
qed

lemma r_upload: "within R (handle_request_upload A E me request rid bsize tx)"
  unfolding handle_request_upload_def by (intro r_intros) auto

lemma r_download: "within R (handle_request_download A E me key tx)"
  unfolding handle_request_download_def by (intro r_intros)

lemma r_announce_room: "within R (announce_room A rid pend tx)"
  unfolding announce_room_def by (intro r_intros r_deliver_others)

lemma r_create_room: "within R (handle_create_room A E me nm invite_partner tx)"
  unfolding handle_create_room_def create_room_for_def Let_def by (intro r_intros r_announce_room)

lemma r_rename_room: "within R (handle_rename_room A me rid nm tx)"
  unfolding handle_rename_room_def by (intro r_intros r_deliver_others)

lemma r_leave_room: "within R (handle_leave_room A me rid tx)"
  unfolding handle_leave_room_def Let_def by (intro r_intros r_deliver_others)

lemma r_tokens: "within R (register_push A me device token environment kind)"
    "within R (unregister_push A me device)"
  unfolding register_push_def unregister_push_def by (intro r_intros)+

lemmas r_handlers = r_create_invite r_consume_invite r_create_room r_rename_room
  r_leave_room r_mark_read r_profile r_download r_tokens r_forward [OF not_messages(16)] r_forward [OF not_messages(17)] r_hangup

lemma r_limited: "within R h \<Longrightarrow> within R k \<Longrightarrow> within R (limited ok h k)"
  by (simp add: limited_def)

text \<open>Every frame but the two that move message bodies.\<close>

lemma quiet_frame_kept:
  assumes "case f of Send _ _ _ \<Rightarrow> False | Subscribe _ _ \<Rightarrow> False | _ \<Rightarrow> True"
  shows "R w (snd (handle_frame A E f ss w))"
proof -
  have "R w (limited ok (handle_typing A me rid b) (\<lambda>w. w) w)"
    "R w (limited ok (handle_request_upload A E me req rid n tx) (send_error tx c m) w)"
    "R w (limited ok (handle_call_turn_request A me call tx) (send_error tx c m) w)"
    "R w (limited ok (handle_call_invite A E me rid call offer b) (send_error tx c m) w)"
    for ok me rid b req n tx c m call offer
    by (intro withinD [OF r_limited] r_typing r_upload r_turn r_call_invite r_id r_error)+
  then show ?thesis
    using assms
    by (cases f) (auto simp: handle_frame_def Let_def intro: withinD r_handlers split: prod.splits)
qed

lemma within_rooms: "within R (send_rooms A me tx)"
  unfolding send_rooms_def by (intro r_intros)

lemma task_kept: "R w (notify_recipient sender i rid w)"
  by (intro withinD r_notify)

end

text \<open>The two handlers that send message bodies, for a relation that contains those frames too.\<close>

locale message_frame = handler_frame +
  assumes sent_any: "R w (send_frame tx f w)"
    and delivered_any: "R w (deliver u f w)"
begin

lemma a_send: "within R (send_frame tx f)"
  using sent_any by (simp add: within_def)

lemma a_deliver: "within R (deliver u f)"
  using delivered_any by (simp add: within_def)

lemma r_subscribe: "within R (handle_subscribe A me rid since tx)"
proof -
  have rows: "within R (fold (replay_row tx) rows)" for rows
    unfolding replay_row_def by (intro a_send r_intros)
  have tail: "within R (read_backfill me rid tx)" "within R (read_marker me rid tx)"
    unfolding read_backfill_def read_marker_def by (intro r_intros)+
  show ?thesis
    unfolding handle_subscribe_def
    by (intro r_if r_call r_error stmts r_comp [OF r_comp [OF rows tail(1)] tail(2)])
qed

lemma r_deliver_message: "within R (deliver_message A me rid mid ts bodies m)"
  unfolding deliver_message_def by (intro r_if r_option r_id r_comp [OF a_deliver r_spawn])

lemma r_echo: "within R (echo_self A me rid mid ts bodies c)"
  unfolding echo_self_def by (intro a_deliver r_intros)

lemma short_rows:
  assumes "\<not> list_ex (\<lambda>b. length (snd b) > MAX_BODY_BYTES) bodies"
  shows "list_all (\<lambda>row. length (mr_body row) \<le> MAX_BODY_BYTES)
    (fan_out_rows C me rid mid ts bodies members @ (if own then self_row C me rid mid ts bodies else []))"
proof -
  have "length body \<le> MAX_BODY_BYTES" if "map_of bodies k = Some body" for k body
    using assms map_of_SomeD [OF that] by (auto simp: list_ex_iff)
  then show ?thesis
    by (auto simp: list_all_iff fan_out_rows_def self_row_def in_map_filter split: if_splits option.splits)
qed

lemma r_send_message: "within R (handle_send A E me rid bodies c tx)"
proof -
  have "within R (\<lambda>w. let w1 = fold (deliver_message A me rid mid ts bodies) members w
      in if b then echo_self A me rid mid ts bodies c w1 else w1)" for mid ts members b
    unfolding Let_def
    by (cases b) (auto intro: r_comp [OF r_fold [OF r_deliver_message] r_echo] r_fold [OF r_deliver_message])
  then show ?thesis
    unfolding handle_send_def Let_def by (intro r_intros) (use short_rows in blast)+
qed

lemma frame_kept: "R w (snd (handle_frame A E f ss w))"
proof (cases "case f of Send _ _ _ \<Rightarrow> False | Subscribe _ _ \<Rightarrow> False | _ \<Rightarrow> True")
  case True
  then show ?thesis by (rule quiet_frame_kept)
next
  case False
  then show ?thesis
    by (cases f) (simp_all add: handle_frame_def Let_def withinD [OF r_subscribe] withinD [OF r_send_message])
qed

end

text \<open>
  The loop of a session also takes frames off its channel, and the start of a connection opens the channel; a
  relation that does not look at the channels contains the loop as well.
\<close>

locale loop_frame = message_frame +
  assumes chans: "R w (w\<lparr>w_chans := c\<rparr>)"
begin

lemma step_kept: "session_step A ev ss s w = (go, ss', s', w') \<Longrightarrow> R w w'"
proof -
  assume step: "session_step A ev ss s w = (go, ss', s', w')"
  show "R w w'"
  proof (cases ev)
    case Outbound
    then show ?thesis
      using step refl chans [of w]
      by (auto simp: session_step_def relay_outbound_def Let_def split: list.splits option.splits prod.splits)
  next
    case (Ping_tick now)
    then show ?thesis
      using step refl by (auto simp: session_step_def split: if_splits prod.splits)
  next
    case (Inbound msg E)
    then show ?thesis
      using step refl frame_kept [of w A E]
      by (auto simp: session_step_def Let_def split: option.splits ws_message.splits prod.splits)
        (metis snd_conv)
  qed
qed

lemma loop_kept: "session_loop A evs ss s w = (go, ss', s', w') \<Longrightarrow> R w w'"
proof (induction evs arbitrary: ss s w)
  case Nil
  then show ?case using refl by simp
next
  case (Cons ev evs)
  obtain go1 ss1 s1 w1 where one: "session_step A ev ss s w = (go1, ss1, s1, w1)"
    by (metis prod_cases4)
  then show ?case
    using Cons step_kept [OF one] trans by (auto split: if_splits)
qed

lemma result_call:
  assumes "stmt_ok R q" and "\<And>e w. R w (snd (on_err e w))" and "\<And>x w. R w (snd (on_ok x w))"
  shows "R w (snd (db_call q on_err on_ok w))"
proof -
  obtain r w1 where e: "db_exec q w = (r, w1)" by fastforce
  show ?thesis
    using exec_frame [OF assms(1) e] assms(2,3) e
    by (cases r) (auto simp: db_call_def intro: trans)
qed

lemma authenticate_kept: "R w (snd (authenticate A nonce raw s w))"
  unfolding authenticate_def Let_def
  by (auto intro!: result_call stmts simp: refl split: option.splits auth_client_frame.splits sum.splits prod.splits)

lemma handshake_kept: "R w (snd (handshake A nonce s w))"
  using refl authenticate_kept
  by (auto simp: handshake_def split: option.splits prod.splits list.splits ws_message.splits)

lemma within_open: "within R (open_channel tx)"
  using chans by (simp add: within_def open_channel_def)

end

text \<open>A whole connection also comes and goes in the routing table.\<close>

locale connection_frame = loop_frame +
  assumes routes: "R w (w\<lparr>w_routing := r\<rparr>)"
begin

lemma start_kept: "R w (snd (start_session A E me tx w))"
proof -
  have "R w1 (w1\<lparr>w_routing := register u tx (w_routing w1)\<rparr>)" for w1 u
    by (rule routes)
  then show ?thesis
    unfolding start_session_def Let_def snd_conv
    using trans withinD [OF within_open] withinD [OF within_rooms] withinD [OF r_connect] withinD [OF r_pending]
    by meson
qed

lemma end_kept: "R w (end_session A ss w)"
  unfolding end_session_def Let_def
  using trans routes chans withinD [OF r_disconnect] by meson

end

section \<open>Handlers move the database along its transition relation\<close>

lemma stmt_ok_reach: "(\<And>d. db_step d (snd (q d))) \<Longrightarrow> stmt_ok (\<lambda>w w'. db_reach (w_db w) (w_db w')) q"
  by (simp add: stmt_ok_def r_into_rtranclp)

interpretation db_moves: connection_frame "\<lambda>w w'. db_reach (w_db w) (w_db w')"
proof (unfold_locales, goal_cases)
  case (2 w w1 w2)
  then show ?case by simp
qed (simp_all add: stmt_ok_reach db_steps)

section \<open>Handlers only append frames, and nobody comes or goes\<close>

lemma stmt_ok_emits: "stmt_ok (emits (\<lambda>_ _. True)) q"
  by (simp add: stmt_ok_def emits_same)

interpretation frame_log: message_frame "emits (\<lambda>_ _. True)"
proof (unfold_locales, goal_cases)
  case (2 w w1 w2)
  then show ?case by (rule emits_trans)
qed (simp_all add: stmt_ok_emits emits_same emits_send_frame emits_deliver)

text \<open>No message body leaves but through \<open>handle_send\<close> and \<open>handle_subscribe\<close>.\<close>

lemma stmt_ok_quiet: "stmt_ok (emits (\<lambda>_ f. \<not> is_message f)) q"
  by (simp add: stmt_ok_def emits_same)

interpretation quiet: handler_frame "emits (\<lambda>_ f. \<not> is_message f)"
proof (unfold_locales, goal_cases)
  case (2 w w1 w2)
  then show ?case by (rule emits_trans)
qed (simp_all add: stmt_ok_quiet emits_same emits_send_frame emits_deliver)

section \<open>Only the start and the end of a connection touch the routing table\<close>

lemma stmt_ok_routing: "stmt_ok (\<lambda>w w'. w_routing w' = w_routing w) q"
  by (simp add: stmt_ok_def)

interpretation same_routes: loop_frame "\<lambda>w w'. w_routing w' = w_routing w"
  by unfold_locales (simp_all add: stmt_ok_routing)

end
