(* ===== verification/Rest.thy ===== *)
theory Rest
  imports World
begin

text \<open>
  The REST handlers: \<open>create_account\<close> and \<open>get_account_by_username\<close> of \<open>server/src/accounts.rs\<close>,
  \<open>preview_invite\<close> of \<open>server/src/invites.rs\<close>, \<open>error_test\<close> of \<open>server/src/diag.rs\<close>. A response is its status
  and its body, the body kept as the value that is serialised.
\<close>

record create_account_request =
  ca_username :: string
  ca_ed25519_pub :: string
  ca_x25519_pub :: string

record account_summary =
  su_username :: string
  su_created_at :: timestamp

record account_full =
  af_username :: string
  af_ed25519_pub :: string
  af_x25519_pub :: string
  af_created_at :: timestamp

record invite_preview_response =
  pr_room_id :: string
  pr_name :: string
  pr_members :: "wire_member list"
  pr_expires_at :: timestamp

datatype http_body = Plain string | Summary account_summary | Full account_full
  | Preview invite_preview_response | No_body

type_synonym response = "nat \<times> http_body"

definition create_account :: "app \<Rightarrow> create_account_request \<Rightarrow> world \<Rightarrow> response \<times> world" where
  "create_account A req w =
    (if \<not> has_store A then ((500, Plain ''store unavailable''), w)
     else if \<not> username_ok (ca_username req) then ((400, Plain ''invalid username''), w)
     else (case decode_pubkey (lib A) (ca_ed25519_pub req) of
       None \<Rightarrow> ((400, Plain ''invalid ed25519_pub''), w)
     | Some ed \<Rightarrow> (case decode_pubkey (lib A) (ca_x25519_pub req) of
         None \<Rightarrow> ((400, Plain ''invalid x25519_pub''), w)
       | Some x \<Rightarrow> db_call (insert_account (ca_username req) ed x)
           (\<lambda>e w. if e = UniqueViolation then ((409, Plain ''username taken''), w) else ((500, Plain ''db error''), w))
           (\<lambda>created w. ((201, Summary \<lparr>su_username = ca_username req, su_created_at = created\<rparr>), w)) w)))"

definition get_account_by_username :: "app \<Rightarrow> string \<Rightarrow> world \<Rightarrow> response \<times> world" where
  "get_account_by_username A u w =
    (if \<not> has_store A then ((500, Plain ''store unavailable''), w)
     else db_call (select_account u) (\<lambda>e w. ((500, Plain ''db error''), w)) (\<lambda>row w. case row of
         Some (name, ed, x, created) \<Rightarrow> ((200, Full \<lparr>af_username = name, af_ed25519_pub = b64_encode (lib A) ed,
           af_x25519_pub = b64_encode (lib A) x, af_created_at = created\<rparr>), w)
       | None \<Rightarrow> ((404, Plain ''no such account''), w)) w)"

definition preview_invite :: "app \<Rightarrow> timestamp \<Rightarrow> string \<Rightarrow> world \<Rightarrow> response \<times> world" where
  "preview_invite A now code w =
    (if \<not> has_store A then ((500, Plain ''store unavailable''), w)
     else (case decode_code (uni A) code of
       Inl _ \<Rightarrow> ((404, Plain ''no such code''), w)
     | Inr canonical \<Rightarrow>
       (let hash = sha256 (lib A) canonical in
        db_call (lookup_invite hash) (\<lambda>e w. ((500, Plain ''db error''), w)) (\<lambda>row. case row of
            None \<Rightarrow> (\<lambda>w. ((404, Plain ''no such code''), w))
          | Some invite \<Rightarrow>
             (case state invite now of
                Expired \<Rightarrow> (\<lambda>w. ((410, Plain ''expired''), w))
              | Consumed \<Rightarrow> (\<lambda>w. ((410, Plain ''consumed''), w))
              | Pending \<Rightarrow>
                 db_call (room_for_invite hash) (\<lambda>e w. ((500, Plain ''db error''), w)) (\<lambda>r. case r of
                     None \<Rightarrow> (\<lambda>w. ((404, Plain ''invite not bound to a room''), w))
                   | Some rid \<Rightarrow>
                      db_call (room_detail rid) (\<lambda>e w. ((404, Plain ''room gone''), w)) (\<lambda>det w. case det of
                          None \<Rightarrow> ((404, Plain ''room gone''), w)
                        | Some detail \<Rightarrow> ((200, Preview \<lparr>pr_room_id = rd_room_id detail, pr_name = rd_name detail,
                            pr_members = map (member_into_wire (lib A)) (rd_members detail),
                            pr_expires_at = ir_expires_at invite\<rparr>), w))))) w)))"

section \<open>Diagnostics\<close>

definition ct_eq :: "bytes \<Rightarrow> bytes \<Rightarrow> bool" where
  "ct_eq a b =
    (if length a \<noteq> length b then False
     else foldl (\<lambda>diff (x, y). diff OR (x XOR y)) 0 (zip a b) = 0)"

text \<open>\<open>DIAG_TOKEN\<close> and the header, as far as they are present and text; the flag tells whether an event is captured.\<close>

definition error_test :: "string option \<Rightarrow> string option \<Rightarrow> nat \<times> bool" where
  "error_test diag_token header =
    (case diag_token of
       None \<Rightarrow> (404, False)
     | Some expected \<Rightarrow>
        if expected = [] then (404, False)
        else (let provided = (case header of None \<Rightarrow> [] | Some v \<Rightarrow> v) in
          if \<not> ct_eq (byte_string provided) (byte_string expected) then (404, False) else (200, True)))"

lemma fold_diff: "foldl (\<lambda>d (x, y). d OR (x XOR y)) d0 (zip a b) = 0 \<longleftrightarrow>
    d0 = 0 \<and> (\<forall>(x, y) \<in> set (zip a b). x = (y :: u8))"
proof (induction "zip a b" arbitrary: a b d0)
  case Nil
  then show ?case by (metis foldl_Nil empty_iff empty_set)
next
  case (Cons xy rest)
  obtain x a' y b' where ab: "a = x # a'" "b = y # b'" "rest = zip a' b'"
    using Cons.hyps(2) by (cases a; cases b) auto
  have "d0 OR (x XOR y) = 0 \<longleftrightarrow> d0 = 0 \<and> x = y"
  proof -
    have "x XOR y = 0 \<longleftrightarrow> x = y"
      by (metis xor.left_neutral xor.right_neutral xor_self_eq bit.xor_left_self)
    then show ?thesis by (simp add: or_eq_0_iff)
  qed
  then show ?case
    using Cons.hyps(1) [OF ab(3), of "d0 OR (x XOR y)"] ab by simp
qed

lemma ct_eq_iff: "ct_eq a b \<longleftrightarrow> a = b"
proof (cases "length a = length b")
  case True
  then have "(\<forall>(x, y) \<in> set (zip a b). x = y) \<longleftrightarrow> a = b"
    by (induction a b rule: list_induct2) auto
  then show ?thesis using True by (simp add: ct_eq_def fold_diff)
qed (auto simp: ct_eq_def)

lemma byte_string_inj: "byte_string s = byte_string t \<longleftrightarrow> s = t"
  unfolding byte_string_def by (metis list.map_comp list.map_id map_char_byte_inverse(2))

section \<open>Properties\<close>

text \<open>
  The diagnostic endpoint reports an event and answers 200 exactly when a non-empty token is
  configured and the request carries it; the comparison that does not branch on the bytes is equality.
\<close>

theorem error_test_exact:
  "error_test diag_token header = (200, True) \<longleftrightarrow> (\<exists>t. t \<noteq> [] \<and> diag_token = Some t \<and> header = Some t)"
proof -
  have "error_test diag_token header = (200, True) \<longleftrightarrow>
      (\<exists>t. t \<noteq> [] \<and> diag_token = Some t \<and> (case header of None \<Rightarrow> [] | Some v \<Rightarrow> v) = t)"
    by (auto simp: error_test_def ct_eq_iff byte_string_inj Let_def split: option.splits if_splits)
  then show ?thesis
    by (auto split: option.splits)
qed

text \<open>
  Creating an account on a database that works: 201 with the row inserted under the next id exactly
  when the name is valid and free and both keys are base64 of 32 bytes; a taken name is 409 and changes
  no row; an invalid request is 400 and reaches no table.
\<close>

theorem create_account_exact:
  assumes "has_store A" and "w_faults w = []" and "accounts_id_seq (w_db w) \<notin> account_ids (w_db w)"
    and "create_account A req w = ((status, body), w')"
  shows "status = (if \<not> username_ok (ca_username req) \<or> decode_pubkey (lib A) (ca_ed25519_pub req) = None
        \<or> decode_pubkey (lib A) (ca_x25519_pub req) = None then 400
      else if account_by_name (ca_username req) (w_db w) \<noteq> None then 409 else 201)
    \<and> accounts (w_db w') = (if status = 201
      then accounts (w_db w) @ [\<lparr>acc_id = accounts_id_seq (w_db w), acc_username = ca_username req,
        acc_ed25519_pub = the (decode_pubkey (lib A) (ca_ed25519_pub req)),
        acc_x25519_pub = the (decode_pubkey (lib A) (ca_x25519_pub req)), acc_created_at = db_now (w_db w),
        acc_partner_account_id = None, acc_last_seen_at = None\<rparr>]
      else accounts (w_db w))"
proof -
  have "account_by_name u d \<noteq> None \<longleftrightarrow> u \<in> acc_username ` set (accounts d)" for u d
    by (auto simp: account_by_name_def find_first_None_iff)
  then show ?thesis
    using assms
    by (cases "decode_pubkey (lib A) (ca_ed25519_pub req)"; cases "decode_pubkey (lib A) (ca_x25519_pub req)")
      (auto simp: create_account_def db_call_served insert_account_cases split: if_splits)
qed

definition key32 :: bytes where
  "key32 = replicate 32 1"

definition court_request :: create_account_request where
  "court_request = \<lparr>ca_username = ''court'', ca_ed25519_pub = sample_b64 key32, ca_x25519_pub = sample_b64 key32\<rparr>"

lemma key32_decodes: "decode_pubkey sample_crates (sample_b64 key32) = Some key32"
proof -
  have "length key32 = 32" unfolding key32_def by (rule length_replicate)
  then show ?thesis
    using sample_b64_ok by (simp add: decode_pubkey_def b64_law_def sample_crates_def)
qed

theorem create_account_exact_witness:
  "fst (fst (create_account sample_app court_request (sample_world empty_db))) = 201"
proof -
  have fresh: "accounts_id_seq empty_db \<notin> account_ids empty_db" "account_by_name ''court'' empty_db = None"
    by (simp_all add: empty_db_def account_ids_def account_by_name_def)
  have ok: "username_ok ''court''"
    by (simp add: username_ok_def is_ascii_lowercase_def is_ascii_digit_def less_eq_char_def)
  obtain status body w' where c: "create_account sample_app court_request (sample_world empty_db) = ((status, body), w')"
    by (metis surj_pair)
  show ?thesis
    using create_account_exact [OF _ _ _ c] fresh ok key32_decodes
    unfolding c by (simp add: court_request_def)
qed

end
