(* ===== verification/Safety.thy ===== *)
theory Safety
  imports Effects Rest
begin

text \<open>
  What holds of the database in every state that concurrent sessions can reach, and the server as a
  whole: sessions that come, handle frames and go, background pushes, the sweep of held calls, REST
  requests and a database that may fail at any statement.
\<close>

section \<open>Each step keeps the schema, the pairing and the identities\<close>

lemma keeps_pairing_stmts:
  "keeps pairing_ok (insert_account u ed x)" "keeps pairing_ok (touch_last_seen i)"
  "keeps pairing_ok (insert_member rid i)" "keeps pairing_ok (rename_room rid nm)"
  "keeps pairing_ok (mark_consumed h at)" "keeps pairing_ok (mark_read rid i up_to)"
  "keeps pairing_ok (upsert_token i device token environment kind)" "keeps pairing_ok (delete_token i device)"
  "keeps pairing_ok (delete_token_value i token)" "keeps pairing_ok (upsert_profile i envelope avatar)"
  "keeps pairing_ok (insert_attachment key rid i bsize)" "keeps pairing_ok (insert_message row)"
  "keeps pairing_ok (insert_room rid nm)" "keeps pairing_ok (delete_member rid i)"
  "keeps pairing_ok (delete_room rid)" "keeps pairing_ok (delete_open_invites i)"
  "keeps pairing_ok (insert_invite h i expires r)"
  by (rule keeps_pairing; (rule keeps_insert_account keeps_touch_last_seen keeps_insert_member
      keeps_rename_room keeps_mark_consumed keeps_mark_read keeps_upsert_token keeps_delete_token
      keeps_upsert_profile keeps_insert_attachment keeps_insert keeps_insert_room keeps_delete_member
      keeps_delete_room keeps_delete_open_invites keeps_insert_invite links_frame_insert_account
      links_frame_touch links_frame_rooms)?;
      auto intro!: links_frameI simp: op_defs)+

lemma links_frame_stmts:
  "links_frame (mark_consumed h at)" "links_frame (mark_read rid i up_to)"
  "links_frame (upsert_token i device token environment kind)" "links_frame (delete_token i device)"
  "links_frame (delete_token_value i token)" "links_frame (upsert_profile i envelope avatar)"
  "links_frame (insert_attachment key rid i bsize)" "links_frame (insert_message row)"
  "links_frame (delete_open_invites i)" "links_frame (insert_invite h i expires r)"
  by (auto intro!: links_frameI simp: op_defs)

lemma links_frame_insert_many: "links_frame (insert_many rows)"
  unfolding links_frame_def using links_frame_stmts(8) by (auto intro!: keeps_insert_many simp: links_frame_def)

lemma links_frame_create_invite: "links_frame (create_invite_record i h expires r)"
  unfolding links_frame_def using links_frame_stmts(9,10) by (auto intro!: keeps_create_invite simp: links_frame_def)

lemma db_step_pairing: "db_step d d' \<Longrightarrow> pairing_ok d \<Longrightarrow> pairing_ok d'"
proof (induction rule: db_step.induct)
  case (step_clock d t)
  then show ?case
    unfolding pairing_ok_def schema_ok_def links_symmetric_def by (simp cong: option.case_cong)
qed (use keeps_pairing_stmts keeps_pairing_set_partner_link keeps_create_room [of pairing_ok]
      keeps_leave_room [of pairing_ok] keeps_create_invite [of pairing_ok] keeps_insert_many [of pairing_ok]
      in \<open>auto simp: keeps_def\<close>)

lemma db_step_links: "db_step d d' \<Longrightarrow> pairing_ok d \<Longrightarrow> links_kept d d'"
proof (induction rule: db_step.induct)
  case (step_set_partner_link d a b)
  then show ?case
    using keeps_links_set_partner_link [of d a b] by (simp add: keeps_def)
next
  case (step_clock d t)
  then show ?case by (auto intro: links_keptI)
qed (simp_all add: links_kept_cong links_frameD links_frame_insert_account links_frame_touch links_frame_rooms
      links_frame_create_room links_frame_leave_room links_frame_create_invite links_frame_insert_many
      links_frame_stmts)

lemma db_reach_pairing: "db_reach d d' \<Longrightarrow> pairing_ok d \<Longrightarrow> pairing_ok d' \<and> links_kept d d'"
proof (induction rule: rtranclp_induct)
  case (step d1 d2)
  then show ?case
    using db_step_pairing db_step_links links_kept_trans by blast
qed simp

section \<open>Properties\<close>

text \<open>
  C10. Monogamy: in every state of the database that any interleaving of the server's transactions can
  reach from an empty one, an account never has itself as its partner, the partner exists and has it as
  partner in turn, and so no two accounts share a partner.
\<close>

theorem monogamy:
  assumes "db_reach empty_db d" and "partner_of d a = Some b"
  shows "a \<noteq> b \<and> {a, b} \<subseteq> account_ids d \<and> partner_of d b = Some a \<and>
    (\<forall>c. partner_of d c = Some b \<longleftrightarrow> c = a)"
proof -
  have "pairing_ok d"
    using db_reach_pairing [OF assms(1)] by simp
  then have acc: "accounts_ok d" and sym: "links_symmetric d"
    by (auto simp: pairing_ok_def schema_ok_def)
  show ?thesis
    using accounts_ok_partner [OF acc] links_symmetricD [OF sym] partner_of_known assms(2) by blast
qed

definition couple :: db where
  "couple = snd (set_partner_link 1 2 two_accounts)"

lemma couple_reached: "db_reach empty_db couple"
proof -
  have "db_step empty_db (snd (insert_account ''court'' [1] [10] empty_db))"
    "db_step (snd (insert_account ''court'' [1] [10] empty_db)) two_accounts"
    unfolding two_accounts_def by (rule step_insert_account)+
  moreover have "db_step two_accounts couple"
    unfolding couple_def by (rule step_set_partner_link)
  ultimately show ?thesis
    by (meson converse_rtranclp_into_rtranclp rtranclp.rtrancl_refl)
qed

lemma couple_partners: "partner_of couple 1 = Some 2" "partner_of couple 2 = Some 1"
proof -
  have eq: "couple = link_both 1 2 two_accounts"
    unfolding couple_def using set_partner_link_eq [of two_accounts 1 2] pairing_two_accounts
    by (simp add: pairing_ok_def schema_ok_def) (simp add: two_accounts_eq partner_of_def account_ids_def)
  show "partner_of couple 1 = Some 2" "partner_of couple 2 = Some 1"
    unfolding eq by (simp_all add: two_accounts_eq link_both_def partner_of_def)
qed

theorem monogamy_witness: "partner_of couple 2 = Some 1 \<and> (\<forall>c. partner_of couple c = Some 2 \<longleftrightarrow> c = 1)"
  using monogamy [OF couple_reached couple_partners(1)] by blast

text \<open>
  C11. A pairing is for good: once two accounts are linked, no interleaving of the server's transactions
  ever changes or removes the link.
\<close>

theorem pairing_permanent:
  assumes "db_reach empty_db d" and "db_reach d d'" and "partner_of d a = Some b"
  shows "partner_of d' a = Some b"
  using db_reach_pairing [OF assms(1)] db_reach_pairing [OF assms(2)] assms(3) links_keptD by simp blast

theorem pairing_permanent_witness: "partner_of (snd (leave_room ''R'' 1 couple)) 1 = Some 2"
  by (rule pairing_permanent [OF couple_reached _ couple_partners(1)]) (simp add: r_into_rtranclp step_leave_room)

section \<open>The end of a connection\<close>

lemma handle_frame_keeps_self:
  "se_me (fst (handle_frame A E f ss w)) = se_me ss \<and> se_tx (fst (handle_frame A E f ss w)) = se_tx ss"
  by (cases f) (auto simp: handle_frame_def Let_def split: prod.splits)

lemma session_step_keeps_self:
  assumes "session_step A ev ss s w = (go, ss', s', w')"
  shows "se_me ss' = se_me ss \<and> se_tx ss' = se_tx ss"
proof (cases ev)
  case Outbound
  then show ?thesis
    using assms by (auto simp: session_step_def relay_outbound_def Let_def split: list.splits option.splits prod.splits)
next
  case (Ping_tick now)
  then show ?thesis
    using assms by (auto simp: session_step_def split: if_splits prod.splits)
next
  case (Inbound msg E)
  have "se_me ss2 = se_me ss1 \<and> se_tx ss2 = se_tx ss1"
    if "handle_frame A E f ss1 w = (ss2, w2)" for f and ss1 ss2 :: session and w2
    using that handle_frame_keeps_self [of A E f ss1 w] by simp
  then show ?thesis
    using Inbound assms
    by (auto simp: session_step_def Let_def split: option.splits ws_message.splits prod.splits)
qed

lemma session_loop_keeps_self:
  "session_loop A evs ss s w = (go, ss', s', w') \<Longrightarrow> se_me ss' = se_me ss \<and> se_tx ss' = se_tx ss"
proof (induction evs arbitrary: ss s w)
  case (Cons ev evs)
  obtain go1 ss1 s1 w1 where one: "session_step A ev ss s w = (go1, ss1, s1, w1)"
    by (metis prod_cases4)
  then show ?case
    using Cons session_step_keeps_self [OF one] by (auto split: if_splits)
qed simp

lemma start_session_routing:
  "w_routing (snd (start_session A E me tx w)) = register (me_username me) tx (w_routing w)"
proof -
  let ?w2 = "(open_channel tx w)\<lparr>w_routing := register (me_username me) tx (w_routing (open_channel tx w))\<rparr>"
  have "w_routing (deliver_pending_calls E me tx (announce_presence_on_connect A me tx (send_rooms A me tx ?w2))) =
      w_routing ?w2"
    using withinD [OF same_routes.r_pending] withinD [OF same_routes.r_connect]
      withinD [OF same_routes.within_rooms] by metis
  then show ?thesis
    unfolding start_session_def Let_def by (simp add: open_channel_def)
qed

lemma end_session_routing:
  "w_routing (end_session A ss w) = unregister (me_username (se_me ss)) (se_tx ss) (w_routing w)"
proof -
  have "w_routing (announce_presence_on_disconnect A me v) = w_routing v" for me v
    by (rule withinD [OF same_routes.r_disconnect])
  then show ?thesis
    unfolding end_session_def Let_def by simp
qed

text \<open>
  A connection leaves no trace in the routing table: when its session has ended, or never got through the
  handshake, every user has exactly the sessions they had before it came.
\<close>

theorem connection_unroutes:
  assumes "handle_socket A E nonce tx evs s w = (None, w')"
    and fresh: "\<forall>u. tx \<notin> set (sessions_of (w_routing w) u)"
  shows "sessions_of (w_routing w') u = sessions_of (w_routing w) u"
proof -
  obtain acc s1 w1 where h: "handshake A nonce s w = ((acc, s1), w1)" by (metis surj_pair)
  have r1: "w_routing w1 = w_routing w"
    using same_routes.handshake_kept h by (metis snd_conv)
  show ?thesis
  proof (cases acc)
    case None
    then show ?thesis using assms(1) r1 by (simp add: handle_socket_def h)
  next
    case (Some me)
    obtain ss w2 where st: "start_session A E me tx w1 = (ss, w2)" by fastforce
    obtain go ss' s2 w3 where lo: "session_loop A evs ss s1 w2 = (go, ss', s2, w3)" by (metis prod_cases4)
    have self: "se_me ss = me" "se_tx ss = tx"
      using st by (auto simp: start_session_def Let_def)
    have "w' = end_session A ss' w3"
      using assms(1) Some by (simp add: handle_socket_def h st lo split: if_splits)
    moreover have "w_routing w3 = register (me_username me) tx (w_routing w)"
      using same_routes.loop_kept [OF lo] start_session_routing [of A E me tx w1] st r1 by simp
    ultimately have "w_routing w' = unregister (me_username me) tx (register (me_username me) tx (w_routing w))"
      using session_loop_keeps_self [OF lo] self by (simp add: end_session_routing)
    moreover have "filter (\<lambda>c. c \<noteq> tx) (sessions_of (w_routing w) v) = sessions_of (w_routing w) v" for v
      using fresh by (auto simp: filter_id_conv)
    ultimately show ?thesis
      by (simp add: routes.reg_sessions routes.unreg_sessions)
  qed
qed

theorem connection_unroutes_witness:
  "sessions_of (w_routing (snd (handle_socket sample_app sample_env signed_nonce 3 [Inbound None sample_env]
     signed_socket signed_world))) ''court'' = []"
proof -
  obtain w' where "handle_socket sample_app sample_env signed_nonce 3 [Inbound None sample_env]
      signed_socket signed_world = (None, w')"
  proof -
    have "fst (handle_socket sample_app sample_env signed_nonce 3 [Inbound None sample_env] signed_socket signed_world) = None"
      by (auto simp: handle_socket_def session_step_def Let_def split: prod.splits option.splits)
    then show thesis
      using that by (metis prod.collapse)
  qed
  then show ?thesis
    using connection_unroutes [of sample_app sample_env signed_nonce 3 "[Inbound None sample_env]" signed_socket
        signed_world w' "''court''"]
    by (simp add: signed_world_def sessions_of_def new_routing_def)
qed

end
