(* ===== verification/Sample.thy ===== *)
theory Sample
  imports Safety
begin

text \<open>
  A couple and its room, at which the theorems about handlers are applied. The databases are reached by the
  server's own transactions, so they satisfy every invariant.
\<close>

definition home :: db where
  "home = snd (create_room_with_members ''R'' 1 (Some 2) ''us'' couple)"

definition court :: account_record where
  "court = \<lparr>me_id = 1, me_username = ''court'', me_ed25519_pub = [1], me_x25519_pub = [10],
     me_partner_account_id = Some 2\<rparr>"

definition kai :: account_record where
  "kai = \<lparr>me_id = 2, me_username = ''kai'', me_ed25519_pub = [2], me_x25519_pub = [20],
     me_partner_account_id = Some 1\<rparr>"

lemma partner_records [simp]:
  "me_id court = 1" "me_username court = ''court''" "me_ed25519_pub court = [1]" "me_x25519_pub court = [10]"
  "me_id kai = 2" "me_username kai = ''kai''" "me_ed25519_pub kai = [2]" "me_x25519_pub kai = [20]"
  by (simp_all add: court_def kai_def)

lemma couple_eq: "couple = empty_db\<lparr>accounts_id_seq := 3, accounts :=
    [\<lparr>acc_id = 1, acc_username = ''court'', acc_ed25519_pub = [1], acc_x25519_pub = [10], acc_created_at = 0,
      acc_partner_account_id = Some 2, acc_last_seen_at = None\<rparr>,
     \<lparr>acc_id = 2, acc_username = ''kai'', acc_ed25519_pub = [2], acc_x25519_pub = [20], acc_created_at = 0,
      acc_partner_account_id = Some 1, acc_last_seen_at = None\<rparr>]\<rparr>"
proof -
  have "set_partner_link 1 2 two_accounts = (Inr (Inr ()), link_both 1 2 two_accounts)"
    using set_partner_link_eq [of two_accounts 1 2] pairing_two_accounts
    by (simp add: pairing_ok_def schema_ok_def) (simp add: two_accounts_eq partner_of_def account_ids_def)
  then show ?thesis
    by (simp add: couple_def link_both_def two_accounts_eq)
qed

lemma home_eq: "home = couple\<lparr>rooms := [\<lparr>rm_id = ''R'', rm_name = ''us'', rm_created_at = 0\<rparr>],
    room_members := [\<lparr>mb_room_id = ''R'', mb_account_id = 1, mb_joined_at = 0\<rparr>,
      \<lparr>mb_room_id = ''R'', mb_account_id = 2, mb_joined_at = 0\<rparr>]\<rparr>"
  by (simp add: home_def couple_eq create_room_with_members_def transaction_def sql_then_def insert_room_def
      insert_member_def room_ids_def account_ids_def empty_db_def in_room_def utf8_chars_def
      utf8_continuation_def)

lemma home_reached: "db_reach empty_db home"
  unfolding home_def by (rule rtranclp.rtrancl_into_rtrancl [OF couple_reached step_create_room])

lemma home_ok [simp]: "pairing_ok home" "schema_ok home"
proof -
  show "pairing_ok home"
    using db_reach_pairing [OF home_reached pairing_empty] by blast
  then show "schema_ok home"
    by (simp add: pairing_ok_def)
qed

lemma home_messages [simp]: "messages home = []" "invites home = []" "attachments home = []"
  by (simp_all add: home_eq couple_eq empty_db_def)

lemma home_in_room [simp]: "in_room ''R'' 1 home" "in_room ''R'' 2 home"
  by (simp_all add: home_eq in_room_def)

lemma home_roster: "roster ''R'' home =
    [\<lparr>m_account_id = 1, m_username = ''court'', m_ed25519_pub = [1], m_x25519_pub = [10]\<rparr>,
     \<lparr>m_account_id = 2, m_username = ''kai'', m_ed25519_pub = [2], m_x25519_pub = [20]\<rparr>]"
  by (simp add: roster_def home_eq couple_eq account_by_id_def member_of_row_def List.map_filter_simps)

lemma home_partners: "partner_of home 1 = Some 2" "partner_of home 2 = Some 1"
  by (simp_all add: partner_of_def home_eq couple_eq)

end
