(* ===== verification/Guards.thy ===== *)
theory Guards
  imports Sample
begin

text \<open>
  What the handlers refuse, and to whom they may send: no handler acts in a room its sender is not a member
  of (a hangup still drops a held call of the sender's partner), an invite is consumed only by the holder of a valid signature, call and presence frames go to the
  partner only, and blobs are handed out to room members only. These hold for every script of database faults.
\<close>

section \<open>A refused frame\<close>

text \<open>The database is as before, and at most errors were queued, on the session's own channel.\<close>

definition refused :: "sender \<Rightarrow> world \<Rightarrow> world \<Rightarrow> bool" where
  "refused tx w w' \<longleftrightarrow> w_db w' = w_db w \<and> w_calls w' = w_calls w \<and> w_pushed w' = w_pushed w \<and> w_tasks w' = w_tasks w \<and>
     emits (\<lambda>c f. c = tx \<and> (\<exists>code message. f = Error code message)) w w'"

lemma refused_refl [simp]: "refused tx w w"
  by (simp add: refused_def)

lemma refused_trans: "refused tx w w1 \<Longrightarrow> refused tx w1 w2 \<Longrightarrow> refused tx w w2"
  by (auto simp: refused_def intro: emits_trans)

lemma refused_error [simp]: "refused tx w (send_error tx code message w)"
  by (simp add: refused_def emits_send_error)

lemma refused_read:
  assumes "\<And>e w'. w_db w' = w_db w \<Longrightarrow> refused tx w' (on_err e w')"
    and "\<And>w'. w_db w' = w_db w \<Longrightarrow> refused tx w' (on_ok (f (w_db w)) w')"
  shows "refused tx w (db_call (sql_read f) on_err on_ok w)"
proof -
  obtain r w' where h: "db_exec (sql_read f) w = (r, w')" by fastforce
  have same: "w_db w' = w_db w" and val: "r = Inr x \<Longrightarrow> x = f (w_db w)" for x
    using db_exec_read [OF h] by auto
  have "refused tx w w'"
    using same db_exec_frame [OF h] by (simp add: refused_def emits_same)
  moreover have "refused tx w' (case r of Inl e \<Rightarrow> on_err e w' | Inr x \<Rightarrow> on_ok x w')"
    using assms same val by (cases r) auto
  ultimately have "refused tx w (case r of Inl e \<Rightarrow> on_err e w' | Inr x \<Rightarrow> on_ok x w')"
    by (rule refused_trans)
  then show ?thesis
    by (simp add: db_call_def h)
qed

lemma refused_send:
  assumes "\<not> in_room rid (me_id me) (w_db w)"
  shows "refused tx w (handle_send A E me rid bodies c tx w)"
  unfolding handle_send_def is_member_def using assms by (auto intro!: refused_read)

lemma refused_subscribe:
  assumes "\<not> in_room rid (me_id me) (w_db w)"
  shows "refused tx w (handle_subscribe A me rid since tx w)"
  unfolding handle_subscribe_def is_member_def using assms by (auto intro!: refused_read)

lemma refused_mark_read:
  assumes "\<not> in_room rid (me_id me) (w_db w)"
  shows "refused tx w (handle_mark_read A me rid up_to tx w)"
  unfolding handle_mark_read_def is_member_def using assms by (auto intro!: refused_read)

lemma refused_rename:
  assumes "\<not> in_room rid (me_id me) (w_db w)"
  shows "refused tx w (handle_rename_room A me rid nm tx w)"
  unfolding handle_rename_room_def is_member_def using assms by (auto intro!: refused_read)

lemma refused_leave:
  assumes "\<not> in_room rid (me_id me) (w_db w)"
  shows "refused tx w (handle_leave_room A me rid tx w)"
  unfolding handle_leave_room_def is_member_def using assms by (auto intro!: refused_read)

lemma refused_typing:
  assumes "\<not> in_room rid (me_id me) (w_db w)"
  shows "refused tx w (handle_typing A me rid typing w)"
  unfolding handle_typing_def is_member_def using assms by (auto intro!: refused_read)

lemma refused_upload:
  assumes "\<not> in_room rid (me_id me) (w_db w)"
  shows "refused tx w (handle_request_upload A E me request rid byte_size tx w)"
  unfolding handle_request_upload_def is_member_def using assms
  by (auto intro!: refused_read split: option.split bool.split)

lemma refused_call:
  assumes "\<not> in_room rid (me_id me) (w_db w)"
  shows "refused tx w (handle_call_invite A E me rid call offer video w)"
    "frame_room_id f = Some rid \<Longrightarrow> refused tx w (forward_call_to_partner A me f w)"
  unfolding handle_call_invite_def forward_call_to_partner_def is_member_def
  using assms by (auto intro!: refused_read)

text \<open>
  A hangup is the exception: what it forwards is refused like the rest, but the call that is held for the sender's
  partner under the given id is dropped before the room is looked at.
\<close>

lemma refused_hangup:
  assumes "\<not> in_room rid (me_id me) (w_db w)"
  shows "\<exists>held. (held = w_calls w \<or> (\<exists>partner. partner_of (w_db w) (me_id me) = Some partner \<and>
      held = remove_pending partner call (w_calls w))) \<and>
    refused tx (w\<lparr>w_calls := held\<rparr>) (handle_call_hangup A me rid call reason w)"
proof (cases "has_store A")
  case False
  then show ?thesis
    by (intro exI [of _ "w_calls w"]) (simp add: handle_call_hangup_def)
next
  case True
  let ?drop = "\<lambda>p. case p of Some partner \<Rightarrow> drop_held_call partner call | None \<Rightarrow> (\<lambda>w. w)"
  obtain r w1 where e: "db_exec (partner_account_id_for (me_id me)) w = (r, w1)" by fastforce
  define v where "v = (case r of Inl e \<Rightarrow> w1 | Inr p \<Rightarrow> ?drop p w1)"
  have w1: "w_db w1 = w_db w" "\<And>p. r = Inr p \<Longrightarrow> p = partner_of (w_db w) (me_id me)"
    using db_exec_read [OF e [unfolded partner_account_id_for_def]] by (auto simp: partner_of_by_id)
  have "refused tx v (forward_call_to_partner A me (CallHangup rid call reason) v)"
    using assms w1(1) by (intro refused_call(2))
      (auto simp: v_def drop_held_call_def frame_room_id_def split: sum.split option.split)
  moreover have "refused tx (w\<lparr>w_calls := w_calls v\<rparr>) v"
    using w1(1) db_exec_frame [OF e]
    by (auto simp: v_def refused_def drop_held_call_def emits_same split: sum.split option.split)
  moreover have "w_calls v = w_calls w \<or> (\<exists>partner. partner_of (w_db w) (me_id me) = Some partner \<and>
      w_calls v = remove_pending partner call (w_calls w))"
    using w1(2) db_exec_frame [OF e] by (auto simp: v_def drop_held_call_def split: sum.split option.split)
  moreover have "handle_call_hangup A me rid call reason w = forward_call_to_partner A me (CallHangup rid call reason) v"
    using True by (simp add: handle_call_hangup_def db_call_def e v_def split: sum.split)
  ultimately show ?thesis
    using refused_trans by (intro exI [of _ "w_calls v"]) auto
qed

section \<open>Consuming an invite\<close>

text \<open>What a consumption has to show before anything changes.\<close>

definition consume_authorized ::
  "app \<Rightarrow> env \<Rightarrow> account_record \<Rightarrow> string \<Rightarrow> string \<Rightarrow> db \<Rightarrow> bool" where
  "consume_authorized A E me code signature_b64 d \<longleftrightarrow>
     (\<exists>canonical invite sig_bytes inviter.
        decode_code (uni A) code = Inr canonical \<and> invite_by_hash (sha256 (lib A) canonical) d = Some invite \<and>
        iv_consumed_at invite = None \<and> ev_now E 0 \<le> iv_expires_at invite \<and>
        b64_decode (lib A) signature_b64 = Some sig_bytes \<and>
        verify_invite_consume_signature (lib A) (me_ed25519_pub me) canonical sig_bytes = Inr () \<and>
        account_by_id (iv_inviter_id invite) d = Some inviter \<and> acc_id inviter \<noteq> me_id me)"

lemma consume_refused:
  assumes "\<not> consume_authorized A E me code signature_b64 (w_db w)"
  shows "refused tx w (handle_consume_invite A E me code signature_b64 tx w)"
proof (cases "decode_code (uni A) code")
  case (Inr canonical)
  have no: "\<not> (iv_consumed_at invite = None \<and> \<not> iv_expires_at invite < ev_now E 0 \<and>
      b64_decode (lib A) signature_b64 = Some sig_bytes \<and>
      verify_invite_consume_signature (lib A) (me_ed25519_pub me) canonical sig_bytes = Inr () \<and>
      account_by_id (iv_inviter_id invite) (w_db w) = Some inviter \<and> acc_id inviter \<noteq> me_id me)"
    if "invite_by_hash (sha256 (lib A) canonical) (w_db w) = Some invite" for invite sig_bytes inviter
    using assms Inr that unfolding consume_authorized_def not_less by blast
  show ?thesis
    unfolding handle_consume_invite_def Let_def Inr sum.case lookup_invite_def lookup_full_account_by_id_def
    by (auto intro!: refused_read simp: state_def invite_row_of_def full_account_record_def decode_b64_def
        split: option.splits sum.split invite_state.split if_splits) (use no in blast)+
qed (simp add: handle_consume_invite_def)

section \<open>Blobs\<close>

lemma download_served:
  assumes "has_store A" and "r2 A = Some presigner" and "w_faults w = []"
  shows "handle_request_download A E me key tx w =
    (case room_of_blob key (w_db w) of
       Some rid \<Rightarrow> if in_room rid (me_id me) (w_db w)
         then send_frame tx (DownloadGranted key (presign_get presigner key PRESIGN_TTL) (ev_now E 0 + PRESIGN_TTL)) w
         else send_error tx UNKNOWN_BLOB '''' w
     | None \<Rightarrow> send_error tx UNKNOWN_BLOB '''' w)"
  using assms by (simp add: handle_request_download_def attachment_room_def is_member_def split: option.split)

section \<open>Frames for the partner\<close>

text \<open>Queued on a session of my partner, or on my own connection.\<close>

definition to_partner :: "account_record \<Rightarrow> sender \<Rightarrow> world \<Rightarrow> sender \<Rightarrow> room_server_frame \<Rightarrow> bool" where
  "to_partner me tx w c f \<longleftrightarrow> c = tx \<or>
     (\<exists>partner. partner_username (me_id me) (w_db w) = Some partner \<and> c \<in> set (sessions_of (w_routing w) partner))"

lemma emits_hold: "emits P w (hold_call now callee p w)" "emits P w (drop_held_call callee call w)"
  by (simp_all add: hold_call_def drop_held_call_def emits_same)

lemma emits_send_push: "emits P w (send_push sender i msg token w)"
proof -
  let ?w = "w\<lparr>w_pushed := w_pushed w @ [msg]\<rparr>"
  have "emits P w ?w" by (simp add: emits_same)
  moreover have "emits P ?w (db_call (delete_token_value i token) (\<lambda>e w. w) (\<lambda>_ w. w) ?w)"
    by (rule emits_db_write) simp_all
  ultimately show ?thesis
    unfolding send_push_def Let_def using emits_trans by auto
qed

lemma emits_notify_call: "emits P w (notify_call sender callee rid call video w)"
  unfolding notify_call_def by (intro emits_db_write emits_fold emits_send_push) simp

lemma emits_forward:
  assumes "w_db v = w_db w" "w_routing v = w_routing w"
  shows "emits (to_partner me tx w) v (forward_call_to_partner A me f v)"
  using assms unfolding forward_call_to_partner_def forward_to_partner_def is_member_def partner_username_for_def
  by (auto intro!: emits_db_read emits_deliver simp: to_partner_def split: option.splits)

lemma emits_call_invite:
  "emits (to_partner me tx w) w (handle_call_invite A E me rid call offer video w)"
proof -
  have held: "emits (to_partner me tx w) v (deliver partner f (hold_call now callee p v))"
    if "partner_username (me_id me) (w_db w) = Some partner" "w_routing v = w_routing w" for v partner f now callee p
    using that by (intro emits_trans [OF emits_hold(1) emits_deliver]) (auto simp: to_partner_def hold_call_def)
  show ?thesis
    unfolding handle_call_invite_def is_member_def partner_account_id_for_def partner_username_for_def Let_def
    by (auto intro!: emits_db_read held emits_trans [OF held emits_notify_call] split: option.splits)
qed

lemma emits_hangup:
  "emits (to_partner me tx w) w (handle_call_hangup A me rid call reason w)"
proof -
  let ?v = "db_call (partner_account_id_for (me_id me)) (\<lambda>e w. w)
    (\<lambda>p. case p of Some partner \<Rightarrow> drop_held_call partner call | None \<Rightarrow> (\<lambda>w. w)) w"
  have v: "emits (to_partner me tx w) w ?v"
    by (rule emits_db_write) (auto intro!: emits_hold split: option.split)
  have "w_db ?v = w_db w"
  proof -
    obtain r w' where h: "db_exec (partner_account_id_for (me_id me)) w = (r, w')" by fastforce
    then have "w_db w' = w_db w"
      using db_exec_read unfolding partner_account_id_for_def by blast
    then show ?thesis
      by (simp add: db_call_def h drop_held_call_def split: sum.split option.split)
  qed
  then have "emits (to_partner me tx w) ?v (forward_call_to_partner A me (CallHangup rid call reason) ?v)"
    using emits_routing [OF v] by (rule emits_forward)
  then show ?thesis
    unfolding handle_call_hangup_def using emits_trans [OF v] by simp
qed

lemma account_by_id_touch:
  "account_by_id i (snd (touch_last_seen j d)) =
    map_option (\<lambda>a. if acc_id a = j then a\<lparr>acc_last_seen_at := Some (db_now d)\<rparr> else a) (account_by_id i d)"
  by (simp add: account_by_id_def touch_last_seen_def find_first_update_where)

lemma partner_username_touch [simp]:
  "partner_username i (snd (touch_last_seen j d)) = partner_username i d"
  unfolding partner_username_def account_by_id_touch
  by (auto simp: option.map_comp o_def intro!: option.map_cong split: option.split)

lemma partner_username_profiles [simp]:
  "partner_username i (snd (upsert_profile j envelope avatar d)) = partner_username i d"
  by (simp add: upsert_profile_def partner_username_def account_by_id_def split: option.split)

lemma emits_publish_profile:
  "emits (to_partner me tx w) w (handle_publish_profile A me envelope avatar tx w)"
  unfolding handle_publish_profile_def partner_username_for_def
  by (auto intro!: emits_db_write emits_db_read emits_deliver emits_send_error simp: to_partner_def
      split: option.splits)

lemma emits_replay_profile:
  "emits (to_partner me tx w) v (replay_profile A me partner tx v)"
  unfolding replay_profile_def
  by (auto intro!: emits_db_write emits_send_frame simp: to_partner_def split: option.splits)

lemma emits_last_seen:
  assumes "\<And>seen v'. w_routing v' = w_routing v \<Longrightarrow> emits P v' (k seen v')"
  shows "emits P v (partner_last_seen me online k v)"
  unfolding partner_last_seen_def using assms
  by (auto intro!: emits_db_write split: option.splits)

lemma emits_exchange:
  assumes "w_db v = w_db w \<or> w_db v = snd (touch_last_seen (me_id me) (w_db w))" "w_routing v = w_routing w"
  shows "emits (to_partner me tx w) v (exchange_presence A me tx v)"
proof -
  have name: "partner_username (me_id me) (w_db v) = partner_username (me_id me) (w_db w)"
    using assms(1) by auto
  have known: "emits (to_partner me tx w) v' (deliver partner f v')"
    if "partner_username (me_id me) (w_db w) = Some partner" "w_routing v' = w_routing w" for v' partner f
    using that by (intro emits_deliver) (auto simp: to_partner_def)
  have rest: "emits (to_partner me tx w) v' (replay_profile A me partner tx (send_frame tx f v'))" for v' partner f
    by (rule emits_trans [OF emits_send_frame emits_replay_profile]) (simp add: to_partner_def)
  have seen: "emits (to_partner me tx w) v' (partner_last_seen me online
      (\<lambda>seen w2. replay_profile A me partner tx (send_frame tx (Presence partner online seen) w2)) v')" for v' partner online
    by (rule emits_last_seen) (rule rest)
  show ?thesis
    unfolding exchange_presence_def partner_username_for_def
  proof (rule emits_db_read)
    fix v' :: world assume "w_db v' = w_db v" and r: "w_routing v' = w_routing v"
    show "emits (to_partner me tx w) v' ((case partner_username (me_id me) (w_db v) of None \<Rightarrow> (\<lambda>w. w)
      | Some partner \<Rightarrow> (\<lambda>w. let w1 = deliver partner (Presence (me_username me) True None) w;
          online = is_online partner (w_routing w1)
        in partner_last_seen me online
             (\<lambda>seen w2. replay_profile A me partner tx (send_frame tx (Presence partner online seen) w2)) w1)) v')"
    proof (cases "partner_username (me_id me) (w_db w)")
      case (Some partner)
      then show ?thesis
        unfolding name Let_def using emits_trans [OF known [OF Some] seen] r assms(2) by simp
    qed (simp add: name)
  qed simp
qed

lemma emits_presence_on_connect:
  "emits (to_partner me tx w) w (announce_presence_on_connect A me tx w)"
  unfolding announce_presence_on_connect_def by (auto intro!: emits_db_write emits_exchange)

lemma emits_presence_on_disconnect:
  "emits (to_partner me tx w) w (announce_presence_on_disconnect A me w)"
proof -
  have last: "emits (to_partner me tx w) v (tell_offline me v)"
    if "w_db v = w_db w \<or> w_db v = snd (touch_last_seen (me_id me) (w_db w))" "w_routing v = w_routing w" for v
    unfolding tell_offline_def partner_username_for_def last_seen_for_def Let_def
    using that by (auto intro!: emits_db_read emits_deliver simp: to_partner_def split: option.splits)
  show ?thesis
    unfolding announce_presence_on_disconnect_def by (auto intro!: emits_db_write last)
qed

section \<open>Properties\<close>

text \<open>
  C20. Outsiders get nowhere, whatever the database does: a frame that names a room its sender is not a member
  of does not change the database, hold a call, push a notification or reach anybody; at most the sender gets
  an error. The one effect is that of a hangup: it drops, before any look at the room, the call with the given id
  that is held for the sender's own partner.
\<close>

theorem outsiders_refused:
  "in_room rid (me_id me) (w_db w) \<or>
   (refused tx w (handle_send A E me rid bodies c tx w) \<and> refused tx w (handle_subscribe A me rid since tx w) \<and>
    refused tx w (handle_mark_read A me rid up_to tx w) \<and> refused tx w (handle_typing A me rid typing w) \<and>
    refused tx w (handle_rename_room A me rid nm tx w) \<and> refused tx w (handle_leave_room A me rid tx w) \<and>
    refused tx w (handle_request_upload A E me request rid byte_size tx w) \<and>
    refused tx w (handle_call_invite A E me rid call offer video w) \<and>
    refused tx w (forward_call_to_partner A me (CallAnswer rid call answer) w) \<and>
    refused tx w (forward_call_to_partner A me (CallIce rid call candidate) w) \<and>
    (\<exists>held. (held = w_calls w \<or> (\<exists>partner. partner_of (w_db w) (me_id me) = Some partner \<and>
        held = remove_pending partner call (w_calls w))) \<and>
      refused tx (w\<lparr>w_calls := held\<rparr>) (handle_call_hangup A me rid call reason w)))"
  by (cases "in_room rid (me_id me) (w_db w)")
    (simp_all add: frame_room_id_def refused_send refused_subscribe refused_mark_read refused_typing refused_rename
      refused_leave refused_upload refused_call refused_hangup)

text \<open>
  C21. An invite is consumed only with proof, whatever the database does: unless the code decodes to the token
  of a pending invite of another account and the signature over that token verifies under the sender's
  own key, the database is unchanged and at most an error is sent.
\<close>

theorem consume_needs_proof:
  "consume_authorized A E me code signature_b64 (w_db w) \<or>
   refused tx w (handle_consume_invite A E me code signature_b64 tx w)"
  using consume_refused by blast

text \<open>
  C24. Call signalling, presence and profiles are for the partner, whatever the database does: every frame that
  these handlers queue is on the session's own connection or on a session of the account's partner.
\<close>

theorem partner_frames_confined:
  "emits (to_partner me tx w) w (handle_call_invite A E me rid call offer video w) \<and>
   emits (to_partner me tx w) w (forward_call_to_partner A me f w) \<and>
   emits (to_partner me tx w) w (handle_call_hangup A me rid call reason w) \<and>
   emits (to_partner me tx w) w (handle_publish_profile A me envelope avatar tx w) \<and>
   emits (to_partner me tx w) w (announce_presence_on_connect A me tx w) \<and>
   emits (to_partner me tx w) w (announce_presence_on_disconnect A me w)"
  by (intro conjI emits_call_invite emits_forward emits_hangup emits_publish_profile emits_presence_on_connect
      emits_presence_on_disconnect refl)

text \<open>
  Blobs: a download URL is granted exactly to members of the room the blob was uploaded for, and a blob of
  a foreign room is answered exactly like a blob that does not exist.
\<close>

theorem blob_download_exact:
  assumes "has_store A" and "r2 A = Some presigner" and "w_faults w = []"
  shows "handle_request_download A E me key tx w =
    (case room_of_blob key (w_db w) of
       Some rid \<Rightarrow> if in_room rid (me_id me) (w_db w)
         then send_frame tx (DownloadGranted key (presign_get presigner key PRESIGN_TTL) (ev_now E 0 + PRESIGN_TTL)) w
         else send_error tx UNKNOWN_BLOB '''' w
     | None \<Rightarrow> send_error tx UNKNOWN_BLOB '''' w)"
  using assms by (rule download_served)

theorem blob_download_exact_witness:
  "handle_request_download sample_app sample_env court ''B'' 0 (sample_world home) =
     send_error 0 UNKNOWN_BLOB '''' (sample_world home)"
proof -
  have "room_of_blob ''B'' home = None"
    by (simp add: room_of_blob_def)
  then show ?thesis
    using blob_download_exact [of sample_app sample_presigner "sample_world home" sample_env court "''B''" 0] by simp
qed

end
