(* ===== verification/Joining.thy ===== *)
theory Joining
  imports Sample
begin

text \<open>
  The life cycle of a pairing on a database that works: creating an invite, consuming it, and leaving a room.
\<close>

section \<open>Leaving\<close>

lemma leave_room_cases:
  "leave_room rid i d =
    (if \<exists>m \<in> set (room_members d). mb_room_id m = rid \<and> mb_account_id m \<noteq> i
     then (Inr \<lparr>room_deleted = False\<rparr>, snd (delete_member rid i d))
     else if rid \<in> ms_room_id ` set (messages d) then (Inl ForeignKeyViolation, d)
     else (Inr \<lparr>room_deleted = True\<rparr>, snd (delete_room rid d)))"
proof -
  define d1 where "d1 = d\<lparr>room_members :=
     filter (\<lambda>m. \<not> (mb_room_id m = rid \<and> mb_account_id m = i)) (room_members d)\<rparr>"
  have del: "delete_member rid i d = (Inr (), d1)"
    by (simp add: delete_member_def d1_def)
  have none: "count_members rid d1 = 0 \<longleftrightarrow>
      \<not> (\<exists>m \<in> set (room_members d). mb_room_id m = rid \<and> mb_account_id m \<noteq> i)"
    by (auto simp: count_members_def d1_def filter_empty_conv)
  have room: "delete_room rid d1 = (if rid \<in> ms_room_id ` set (messages d) then (Inl ForeignKeyViolation, d1)
      else (Inr (), snd (delete_room rid d)))"
  proof -
    have "filter (\<lambda>m. mb_room_id m \<noteq> rid) (filter (\<lambda>m. \<not> (mb_room_id m = rid \<and> mb_account_id m = i)) ms) =
        filter (\<lambda>m. mb_room_id m \<noteq> rid) ms" for ms :: "room_member_row list"
      by (induction ms) auto
    then show ?thesis
      by (simp add: delete_room_def d1_def Let_def)
  qed
  show ?thesis
    using none by (auto simp: leave_room_def transaction_def sql_then_def del room)
qed

section \<open>Creating an invite\<close>

definition is_open_invite_of :: "account_id \<Rightarrow> invite_row_db \<Rightarrow> bool" where
  "is_open_invite_of i r \<longleftrightarrow> iv_inviter_id r = i \<and> iv_consumed_at r = None"

lemma create_invite_record_fresh:
  assumes "h \<notin> iv_token_hash ` set (invites d)" and "i \<in> account_ids d"
    and "case rid of None \<Rightarrow> True | Some r \<Rightarrow> r \<in> room_ids d"
  shows "create_invite_record i h expires rid d = (Inr (), d\<lparr>invites :=
    filter (\<lambda>r. \<not> is_open_invite_of i r) (invites d) @
      [\<lparr>iv_token_hash = h, iv_inviter_id = i, iv_expires_at = expires, iv_consumed_at = None, iv_room_id = rid\<rparr>]\<rparr>)"
  using assms
  by (auto simp: create_invite_record_def transaction_def sql_then_def delete_open_invites_def insert_invite_def
      is_open_invite_of_def split: option.splits)

section \<open>Consuming an invite\<close>

lemma invite_by_hash_frame:
  "invite_by_hash h (link_both a b d) = invite_by_hash h d"
  by (simp add: invite_by_hash_def)

lemma insert_member_ok:
  assumes "rid \<in> room_ids d" and "i \<in> account_ids d"
  shows "insert_member rid i d = (Inr (), snd (insert_member rid i d))"
    "in_room rid i (snd (insert_member rid i d))"
    "partner_of (snd (insert_member rid i d)) = partner_of d"
    "invites (snd (insert_member rid i d)) = invites d"
  using assms by (auto simp: insert_member_def in_room_def list_ex_iff)

lemma mark_consumed_ok:
  assumes "distinct (map iv_token_hash (invites d))" and "invite_by_hash h d = Some row" and "iv_consumed_at row = None"
  shows "invite_by_hash h (snd (mark_consumed h at d)) = Some (row\<lparr>iv_consumed_at := Some at\<rparr>)"
proof -
  have "find_first (\<lambda>i. iv_token_hash i = h) is = Some row \<Longrightarrow>
      find_first (\<lambda>i. iv_token_hash i = h) (update_where (\<lambda>i. iv_token_hash i = h \<and> iv_consumed_at i = None)
        (\<lambda>i. i\<lparr>iv_consumed_at := Some at\<rparr>) is) = Some (row\<lparr>iv_consumed_at := Some at\<rparr>)" for "is"
    using assms(3) by (induction "is") (auto split: if_splits)
  then show ?thesis
    using assms(2) by (simp add: invite_by_hash_def mark_consumed_def)
qed

lemma announce_joined_db: "w_db (announce_joined A me rid tx w) = w_db w"
proof -
  obtain r w1 where h: "db_exec (room_detail rid) w = (r, w1)" by fastforce
  have "w_db w1 = w_db w"
    using h room_detail_reads [of rid "w_db w"]
    by (auto simp: db_exec_def split: list.splits fault.splits prod.splits)
  moreover have "w_db (fold (\<lambda>m. if m_account_id m = me_id me then (\<lambda>w. w) else deliver (m_username m) f) ms v) = w_db v"
    for f v and ms :: "member list"
    by (induction ms arbitrary: v) auto
  ultimately show ?thesis
    by (auto simp: announce_joined_def db_call_def h Let_def split: sum.split option.split)
qed

lemma join_served:
  assumes faults: "w_faults w = []" and d: "w_db w = d" and ids: "rid \<in> room_ids d" "me_id me \<in> account_ids d"
    and dist: "distinct (map iv_token_hash (invites d))"
    and row: "invite_by_hash h d = Some row" "iv_consumed_at row = None"
  shows "partner_of (w_db (join_invited_room A E me h rid tx w)) = partner_of d \<and>
    in_room rid (me_id me) (w_db (join_invited_room A E me h rid tx w)) \<and>
    invite_by_hash h (w_db (join_invited_room A E me h rid tx w)) = Some (row\<lparr>iv_consumed_at := Some (ev_now E 1)\<rparr>)"
proof -
  obtain d1 where d1: "insert_member rid (me_id me) d = (Inr (), d1)" "in_room rid (me_id me) d1"
      "partner_of d1 = partner_of d" "invites d1 = invites d"
    using insert_member_ok [OF ids] by metis
  define d2 where "d2 = snd (mark_consumed h (ev_now E 1) d1)"
  have mark: "mark_consumed h (ev_now E 1) d1 = (Inr (), d2)"
    by (simp add: d2_def mark_consumed_def)
  have db: "w_db (join_invited_room A E me h rid tx w) = d2"
    using faults d d1(1) mark by (simp add: join_invited_room_def db_call_served announce_joined_db)
  have "invite_by_hash h d1 = Some row"
    using row(1) d1(4) by (simp add: invite_by_hash_def)
  then have "invite_by_hash h d2 = Some (row\<lparr>iv_consumed_at := Some (ev_now E 1)\<rparr>)"
    using mark_consumed_ok dist row(2) d1(4) by (simp add: d2_def)
  moreover have "partner_of d2 = partner_of d"
    using d1(3) by (simp add: d2_def mark_consumed_def)
  moreover have "in_room rid (me_id me) d2"
    using d1(2) by (simp add: d2_def mark_consumed_def in_room_def)
  ultimately show ?thesis
    unfolding db by blast
qed

lemma consume_served:
  assumes "has_store A" and "w_faults w = []" and "decode_code (uni A) code = Inr canonical"
    and "invite_by_hash (sha256 (lib A) canonical) (w_db w) = Some invite"
    and "iv_consumed_at invite = None" and "ev_now E 0 \<le> iv_expires_at invite"
    and "b64_decode (lib A) signature_b64 = Some sig_bytes"
    and "verify_invite_consume_signature (lib A) (me_ed25519_pub me) canonical sig_bytes = Inr ()"
    and "account_by_id (iv_inviter_id invite) (w_db w) = Some inviter" and "acc_id inviter \<noteq> me_id me"
  shows "handle_consume_invite A E me code signature_b64 tx w =
    (case set_partner_link (me_id me) (acc_id inviter) (w_db w) of
       (Inl e, d) \<Rightarrow> (if e = UniqueViolation then send_error tx MONOGAMY_VIOLATION ''you already have a partner''
          else send_error tx ''Internal'' '''') (w\<lparr>w_db := d\<rparr>)
     | (Inr (Inl WrongPartner), d) \<Rightarrow> send_error tx MONOGAMY_VIOLATION ''you already have a partner'' (w\<lparr>w_db := d\<rparr>)
     | (Inr (Inr _), d) \<Rightarrow> after_link A E me (acc_id inviter) (sha256 (lib A) canonical) tx (w\<lparr>w_db := d\<rparr>))"
proof -
  have pend: "state (invite_row_of invite) (ev_now E 0) = Pending"
    using assms(5,6) by (simp add: state_def invite_row_of_def)
  have key: "decode_b64 (lib A) signature_b64 = Inr sig_bytes"
    using assms(7) by (simp add: decode_b64_def)
  have rec: "ir_inviter_id (invite_row_of invite) = iv_inviter_id invite" "me_id (full_account_record inviter) = acc_id inviter"
    by (simp_all add: invite_row_of_def full_account_record_def)
  show ?thesis
    unfolding handle_consume_invite_def Let_def lookup_invite_def lookup_full_account_by_id_def assms(3) sum.case
    using assms(1,2,4,8,9,10)
    by (simp add: pend key rec db_call_served split: prod.split sum.split monogamy_error.split)
qed

lemma after_link_joins:
  assumes "w_faults w = []" and "invite_by_hash h (w_db w) = Some invite" and "iv_room_id invite = Some rid"
  shows "after_link A E me inviter h tx w = join_invited_room A E me h rid tx w"
  using assms by (simp add: after_link_def room_for_invite_def)

section \<open>Properties\<close>

text \<open>
  C22. Consuming a pending invite to a room with a valid signature: when both accounts are free (or already
  each other's partners) they end as partners, the consumer is in the room and the invite is consumed;
  when either has another partner, nothing changes and the consumer is told so.
\<close>

theorem consume_invite_exact:
  assumes A: "has_store A" "w_faults w = []" and ok: "pairing_ok (w_db w)" "me_id me \<in> account_ids (w_db w)"
    and code: "decode_code (uni A) code = Inr canonical"
    and row: "invite_by_hash (sha256 (lib A) canonical) (w_db w) = Some invite" "iv_consumed_at invite = None"
      "ev_now E 0 \<le> iv_expires_at invite" "iv_room_id invite = Some rid" "iv_inviter_id invite \<noteq> me_id me"
    and sig: "b64_decode (lib A) signature_b64 = Some sig_bytes"
      "verify_invite_consume_signature (lib A) (me_ed25519_pub me) canonical sig_bytes = Inr ()"
  shows "if partner_of (w_db w) (me_id me) = Some (iv_inviter_id invite) \<or>
      partner_of (w_db w) (me_id me) = None \<and> partner_of (w_db w) (iv_inviter_id invite) = None
    then let d = w_db (handle_consume_invite A E me code signature_b64 tx w) in
      partner_of d (me_id me) = Some (iv_inviter_id invite) \<and> partner_of d (iv_inviter_id invite) = Some (me_id me) \<and>
      in_room rid (me_id me) d \<and>
      invite_by_hash (sha256 (lib A) canonical) d = Some (invite\<lparr>iv_consumed_at := Some (ev_now E 1)\<rparr>)
    else handle_consume_invite A E me code signature_b64 tx w =
      send_error tx MONOGAMY_VIOLATION ''you already have a partner'' w"
proof -
  let ?d = "w_db w" and ?a = "me_id me" and ?b = "iv_inviter_id invite" and ?h = "sha256 (lib A) canonical"
  have acc: "accounts_ok ?d" and sym: "links_symmetric ?d" and inv: "invites_ok ?d"
    using ok(1) by (auto simp: pairing_ok_def schema_ok_def)
  have member: "invite \<in> set (invites ?d)"
    using row(1) find_first_SomeD unfolding invite_by_hash_def by metis
  have b: "?b \<in> account_ids ?d" and rid: "rid \<in> room_ids ?d"
    using inv member row(4) by (auto simp: invites_ok_def)
  obtain inviter where inviter: "account_by_id ?b ?d = Some inviter" "acc_id inviter = ?b"
    using b account_by_id_None_iff [of ?b ?d] account_by_id_SomeD by (cases "account_by_id ?b ?d") auto
  note served = consume_served [OF A code row(1,2,3) sig inviter(1) row(5) [folded inviter(2)], unfolded inviter(2)]
  note link = set_partner_link_eq [OF acc sym, of ?a ?b]
  have dist: "distinct (map iv_token_hash (invites ?d))"
    using inv by (simp add: invites_ok_def)
  show ?thesis
  proof (cases "partner_of ?d ?a = Some ?b \<or> partner_of ?d ?a = None \<and> partner_of ?d ?b = None")
    case True
    obtain d1 where d1: "set_partner_link ?a ?b ?d = (Inr (Inr ()), d1)" "partner_of d1 ?a = Some ?b"
        "partner_of d1 ?b = Some ?a" "room_ids d1 = room_ids ?d" "account_ids d1 = account_ids ?d"
        "invites d1 = invites ?d"
      using True ok(2) b row(5) link links_symmetricD [OF sym, of ?a ?b] partner_of_link_both [of ?a ?d ?b]
      by (cases "partner_of ?d ?a = Some ?b") auto
    let ?w = "w\<lparr>w_db := d1\<rparr>"
    have hash: "invite_by_hash ?h (w_db ?w) = Some invite"
      using row(1) d1(6) by (simp add: invite_by_hash_def)
    have eq: "handle_consume_invite A E me code signature_b64 tx w = join_invited_room A E me ?h rid tx ?w"
      using served d1(1) after_link_joins [of ?w, OF _ hash row(4)] A(2) by simp
    have "partner_of (w_db (join_invited_room A E me ?h rid tx ?w)) = partner_of d1 \<and>
        in_room rid ?a (w_db (join_invited_room A E me ?h rid tx ?w)) \<and>
        invite_by_hash ?h (w_db (join_invited_room A E me ?h rid tx ?w)) =
          Some (invite\<lparr>iv_consumed_at := Some (ev_now E 1)\<rparr>)"
      by (rule join_served) (use A(2) rid ok(2) dist hash row(2) d1(4,5,6) in auto)
    then show ?thesis
      using True d1(2,3) unfolding eq Let_def by simp
  next
    case False
    then have "set_partner_link ?a ?b ?d = (Inr (Inl WrongPartner), ?d)"
      using link by auto
    then show ?thesis
      using False served by simp
  qed
qed

text \<open>A free host with an open invite to a room, and a free guest who signs its token.\<close>

definition zero_token :: bytes where
  "zero_token = canonical_token_from_n44 0"

definition guest_sig :: bytes where
  "guest_sig = 7 # replicate 63 63"

definition guest :: account_record where
  "guest = \<lparr>me_id = 2, me_username = ''kai'', me_ed25519_pub = signed_key, me_x25519_pub = [20],
     me_partner_account_id = None\<rparr>"

definition invite_home :: db where
  "invite_home = snd (create_invite_record 1 zero_token 5000 (Some ''R'')
     (snd (create_room_with_members ''R'' 1 None ''us'' two_accounts)))"

lemma invite_home_ok: "pairing_ok invite_home"
proof -
  have "db_reach two_accounts invite_home"
    unfolding invite_home_def
    by (rule rtranclp.rtrancl_into_rtrancl, rule r_into_rtranclp, rule step_create_room, rule step_create_invite)
  then show ?thesis
    using db_reach_pairing pairing_two_accounts by blast
qed

lemma invite_home_eq:
  "invites invite_home = [\<lparr>iv_token_hash = zero_token, iv_inviter_id = 1, iv_expires_at = 5000,
     iv_consumed_at = None, iv_room_id = Some ''R''\<rparr>]"
  "accounts invite_home = accounts two_accounts"
proof -
  have "create_room_with_members ''R'' 1 None ''us'' two_accounts = (Inr ''R'', two_accounts\<lparr>
      rooms := [\<lparr>rm_id = ''R'', rm_name = ''us'', rm_created_at = 0\<rparr>],
      room_members := [\<lparr>mb_room_id = ''R'', mb_account_id = 1, mb_joined_at = 0\<rparr>]\<rparr>)"
    by (simp add: two_accounts_eq create_room_with_members_def transaction_def sql_then_def insert_room_def
        insert_member_def room_ids_def account_ids_def empty_db_def in_room_def utf8_chars_def utf8_continuation_def)
  then show "invites invite_home = [\<lparr>iv_token_hash = zero_token, iv_inviter_id = 1, iv_expires_at = 5000,
     iv_consumed_at = None, iv_room_id = Some ''R''\<rparr>]" "accounts invite_home = accounts two_accounts"
    by (simp_all add: invite_home_def create_invite_record_fresh two_accounts_eq empty_db_def account_ids_def
        room_ids_def)
qed

lemma guest_signature: "verify_invite_consume_signature sample_crates signed_key zero_token guest_sig = Inr ()"
proof -
  have "length (invite_consume_signing_input zero_token) = 63"
    unfolding zero_token_def invite_consume_signing_input_def signing_input_def INVITE_CONSUME_DOMAIN_TAG_def
    by (simp add: canonical_token_from_n44_def CANONICAL_TOKEN_LEN_def)
  moreover have "length signed_key = 32" "length guest_sig = 64"
    unfolding signed_key_def guest_sig_def by (simp_all only: list.size length_replicate)
  ultimately show ?thesis
    unfolding verify_invite_consume_signature_def verify_domain_separated_Inr_iff invite_consume_signing_input_def [symmetric]
    by (simp add: sample_crates_def) (simp add: signed_key_def guest_sig_def)
qed

theorem consume_invite_exact_witness:
  "partner_of (w_db (handle_consume_invite sample_app sample_env guest (encode_code zero_token)
     (sample_b64 guest_sig) 0 (sample_world invite_home))) 2 = Some 1"
proof -
  have code: "decode_code (uni sample_app) (encode_code zero_token) = Inr zero_token"
    using decode_encode [OF unicode_ascii_ascii_only] by (simp add: zero_token_def n44_of_canonical_token)
  have sig: "b64_decode (lib sample_app) (sample_b64 guest_sig) = Some guest_sig"
    using sample_b64_ok by (simp add: b64_law_def sample_crates_def)
  have free: "partner_of invite_home 2 = None" "partner_of invite_home 1 = None"
    by (simp_all add: partner_of_def invite_home_eq two_accounts_eq)
  have row: "invite_by_hash (sha256 (lib sample_app) zero_token) invite_home = Some \<lparr>iv_token_hash = zero_token,
      iv_inviter_id = 1, iv_expires_at = 5000, iv_consumed_at = None, iv_room_id = Some ''R''\<rparr>"
    by (simp add: invite_by_hash_def invite_home_eq sha256_def) (simp add: sample_crates_def)
  show ?thesis
    using consume_invite_exact [of sample_app "sample_world invite_home" guest "encode_code zero_token" zero_token _
        sample_env "''R''" "sample_b64 guest_sig" guest_sig 0, OF _ _ _ _ code _ _ _ _ _ sig]
      row guest_signature free invite_home_ok
    by (simp add: guest_def account_ids_def invite_home_eq two_accounts_eq sample_env_def Let_def)
qed

text \<open>
  Creating an invite, for a free account: every earlier open invite of the account is revoked, the new one is
  stored under the hash of its token without a room, and its code is sent to the session alone.
\<close>

theorem create_invite_exact:
  assumes "has_store A" and "w_faults w = []" and "me_id me \<in> account_ids (w_db w)"
    and "partner_of (w_db w) (me_id me) = None"
    and "generate_invite (lib A) (ev_random E) = (canonical, code, hash)"
    and "hash \<notin> iv_token_hash ` set (invites (w_db w))"
  shows "handle_create_invite A E me tx w =
    send_frame tx (InviteCreated code (qr_or_empty A code) (ev_now E 0 + 3600 * 1000000))
      (w\<lparr>w_db := (w_db w)\<lparr>invites := filter (\<lambda>r. \<not> is_open_invite_of (me_id me) r) (invites (w_db w)) @
        [\<lparr>iv_token_hash = hash, iv_inviter_id = me_id me, iv_expires_at = ev_now E 0 + 3600 * 1000000,
          iv_consumed_at = None, iv_room_id = None\<rparr>]\<rparr>\<rparr>)"
  using assms
  by (simp add: handle_create_invite_def Let_def db_call_served partner_account_id_for_eq create_invite_record_fresh
      default_expiry_def INVITE_TTL_SECONDS_def)

theorem create_invite_exact_witness:
  "length (invites (w_db (handle_create_invite sample_app sample_env guest 0 (sample_world two_accounts)))) = 1"
proof -
  obtain canonical code hash where g: "generate_invite (lib sample_app) (ev_random sample_env) = (canonical, code, hash)"
    by (metis prod_cases3)
  have "partner_of two_accounts 2 = None" "2 \<in> account_ids two_accounts" "invites two_accounts = []"
    by (simp_all add: partner_of_def account_ids_def two_accounts_eq empty_db_def)
  then show ?thesis
    using create_invite_exact [of sample_app "sample_world two_accounts" guest sample_env canonical code hash 0, OF _ _ _ _ g]
    by (simp add: guest_def)
qed

text \<open>
  C28. Leaving a room: while another member remains only the membership goes; the last member takes the
  room along with what hangs on it, unless the room has messages: their foreign key does not cascade,
  the transaction fails and the last member cannot leave.
\<close>

theorem leave_room_exact:
  "leave_room rid i d =
    (if \<exists>m \<in> set (room_members d). mb_room_id m = rid \<and> mb_account_id m \<noteq> i
     then (Inr \<lparr>room_deleted = False\<rparr>, d\<lparr>room_members :=
       filter (\<lambda>m. \<not> (mb_room_id m = rid \<and> mb_account_id m = i)) (room_members d)\<rparr>)
     else if rid \<in> ms_room_id ` set (messages d) then (Inl ForeignKeyViolation, d)
     else (Inr \<lparr>room_deleted = True\<rparr>, snd (delete_room rid d)))"
  unfolding leave_room_cases by (simp only: delete_member_def snd_conv)

end
