(* ===== verification/Scrub.thy ===== *)
theory Scrub
  imports Wire
begin

text \<open>
  \<open>server/src/scrub.rs\<close>: what is taken out of an error report. The \<open>regex\<close> crate is a parameter
  \<open>replace_all pattern text label\<close>. The events of the \<open>sentry\<close> crate, and the breadcrumbs, log entries and exceptions
  in them, are records of the fields that the code names and of one field more, of any type, for all the others
  that the crate gives them (a user, a request, contexts, the parameters of a log entry, and so on).
\<close>

type_synonym replacer = "string \<Rightarrow> string \<Rightarrow> string \<Rightarrow> string"

text \<open>A pattern, written with a tilde for each backslash.\<close>

definition rx :: "string \<Rightarrow> string" where
  "rx s = map (\<lambda>c. if c = CHR ''~'' then CHR 0x5C else c) s"

definition passes :: "(string \<times> string) list" where
  "passes = [
     (rx ''(?i)~b[a-z][a-z0-9+.~-]*://[^~s/@]+@~S+'', ''[uri]''),
     (rx ''(?i)~b[a-z0-9._%+~-]+@[a-z0-9.~-]+~.[a-z]{2,}~b'', ''[email]''),
     (rx ''~([^()]*~)=~([^()]*~)'', ''([redacted])=([redacted])''),
     (rx ''(?i)~b[0-9a-f]{8}-[0-9a-f]{4}-[0-9a-f]{4}-[0-9a-f]{4}-[0-9a-f]{12}~b'', ''[id]''),
     (rx ''~b[0-9A-HJKMNP-TV-Z]{26}~b'', ''[id]''),
     (rx ''(?i)~b(?:sk|rk|pk|key|tok|bearer)[-_][a-z0-9]{12,}~b'', ''[redacted]''),
     (rx ''(?i)~b[0-9a-f]{32,}~b'', ''[redacted]''),
     (rx ''~b[A-Za-z0-9+/]{32,}={0,2}~b'', ''[redacted]'')]"

definition redact :: "replacer \<Rightarrow> string \<Rightarrow> string" where
  "redact re input = foldl (\<lambda>out (p, label). re p out label) input passes"

definition SENSITIVE_KEYS :: "string list" where
  "SENSITIVE_KEYS = [''username'', ''user'', ''handle'', ''sender'', ''recipient'', ''partner'', ''account'',
     ''account_id'', ''accountid'', ''email'', ''token'', ''dsn'', ''auth'', ''authorization'', ''password'',
     ''secret'', ''apikey'', ''api_key'']"

definition is_sensitive_key :: "string \<Rightarrow> bool" where
  "is_sensitive_key key = list_ex (\<lambda>s. to_ascii_lowercase key = s) SENSITIVE_KEYS"

definition REDACTED :: string where
  "REDACTED = ''[redacted]''"

fun scrub_value :: "replacer \<Rightarrow> json \<Rightarrow> json"
  and scrub_values :: "replacer \<Rightarrow> json list \<Rightarrow> json list"
  and scrub_fields :: "replacer \<Rightarrow> (string \<times> json) list \<Rightarrow> (string \<times> json) list" where
  "scrub_value re (JString s) = JString (redact re s)"
| "scrub_value re (JArray a) = JArray (scrub_values re a)"
| "scrub_value re (JObject o') = JObject (scrub_fields re o')"
| "scrub_value re v = v"
| "scrub_values re [] = []"
| "scrub_values re (v # vs) = scrub_value re v # scrub_values re vs"
| "scrub_fields re [] = []"
| "scrub_fields re ((k, v) # kvs) =
    (k, if is_sensitive_key k then JString REDACTED else scrub_value re v) # scrub_fields re kvs"

definition scrub_kv :: "replacer \<Rightarrow> string \<Rightarrow> json \<Rightarrow> json" where
  "scrub_kv re key v = (if is_sensitive_key key then JString REDACTED else scrub_value re v)"

record 'b breadcrumb =
  bc_message :: "string option"
  bc_data :: "(string \<times> json) list"
  bc_others :: 'b

record 'l logentry =
  le_message :: string
  le_others :: 'l

record 'x exception =
  ex_value :: "string option"
  ex_others :: 'x

record ('l, 'x, 'b, 'e) event =
  ee_message :: "string option"
  ee_logentry :: "'l logentry option"
  ee_transaction :: "string option"
  ee_exceptions :: "'x exception list"
  ee_breadcrumbs :: "'b breadcrumb list"
  ee_extra :: "(string \<times> json) list"
  ee_tags :: "(string \<times> string) list"
  ee_server_name :: "string option"
  ee_others :: 'e

definition scrub_breadcrumb :: "replacer \<Rightarrow> 'b breadcrumb \<Rightarrow> 'b breadcrumb" where
  "scrub_breadcrumb re b = b\<lparr>bc_message := map_option (redact re) (bc_message b),
     bc_data := map (\<lambda>(k, v). (k, scrub_kv re k v)) (bc_data b)\<rparr>"

definition scrub_event :: "replacer \<Rightarrow> ('l, 'x, 'b, 'e) event \<Rightarrow> ('l, 'x, 'b, 'e) event" where
  "scrub_event re e = e\<lparr>
     ee_message := map_option (redact re) (ee_message e),
     ee_logentry := map_option (\<lambda>le. le\<lparr>le_message := redact re (le_message le)\<rparr>) (ee_logentry e),
     ee_transaction := map_option (redact re) (ee_transaction e),
     ee_exceptions := map (\<lambda>ex. ex\<lparr>ex_value := map_option (redact re) (ex_value ex)\<rparr>) (ee_exceptions e),
     ee_breadcrumbs := map (scrub_breadcrumb re) (ee_breadcrumbs e),
     ee_extra := map (\<lambda>(k, v). (k, scrub_kv re k v)) (ee_extra e),
     ee_tags := map (\<lambda>(k, v). (k, if is_sensitive_key k then REDACTED else redact re v)) (ee_tags e),
     ee_server_name := None\<rparr>"

section \<open>What is left in an event\<close>

text \<open>Every string in a value satisfies \<open>P\<close>, except that under a sensitive key there is only the placeholder.\<close>

fun clean_value :: "(string \<Rightarrow> bool) \<Rightarrow> json \<Rightarrow> bool"
  and clean_values :: "(string \<Rightarrow> bool) \<Rightarrow> json list \<Rightarrow> bool"
  and clean_fields :: "(string \<Rightarrow> bool) \<Rightarrow> (string \<times> json) list \<Rightarrow> bool" where
  "clean_value P (JString s) = P s"
| "clean_value P (JArray a) = clean_values P a"
| "clean_value P (JObject o') = clean_fields P o'"
| "clean_value P v = True"
| "clean_values P [] = True"
| "clean_values P (v # vs) = (clean_value P v \<and> clean_values P vs)"
| "clean_fields P [] = True"
| "clean_fields P ((k, v) # kvs) =
    ((if is_sensitive_key k then v = JString REDACTED else clean_value P v) \<and> clean_fields P kvs)"

definition clean_breadcrumb :: "(string \<Rightarrow> bool) \<Rightarrow> 'b breadcrumb \<Rightarrow> bool" where
  "clean_breadcrumb P b \<longleftrightarrow> pred_option P (bc_message b) \<and> clean_fields P (bc_data b)"

text \<open>This is of the named fields only; nothing is said of what the others hold.\<close>

definition clean_event :: "(string \<Rightarrow> bool) \<Rightarrow> ('l, 'x, 'b, 'e) event \<Rightarrow> bool" where
  "clean_event P e \<longleftrightarrow> pred_option P (ee_message e) \<and> pred_option (\<lambda>le. P (le_message le)) (ee_logentry e) \<and>
     pred_option P (ee_transaction e) \<and> list_all (\<lambda>ex. pred_option P (ex_value ex)) (ee_exceptions e) \<and>
     list_all (clean_breadcrumb P) (ee_breadcrumbs e) \<and> clean_fields P (ee_extra e) \<and>
     list_all (\<lambda>(k, v). if is_sensitive_key k then v = REDACTED else P v) (ee_tags e) \<and> ee_server_name e = None"

text \<open>What an event holds beside the fields the code names, and the shape of what it holds in them.\<close>

definition untouched :: "('l, 'x, 'b, 'e) event \<Rightarrow>
    'e \<times> 'l option \<times> 'x list \<times> (string list \<times> 'b) list \<times> string list \<times> string list" where
  "untouched e = (ee_others e, map_option le_others (ee_logentry e), map ex_others (ee_exceptions e),
     map (\<lambda>b. (map fst (bc_data b), bc_others b)) (ee_breadcrumbs e), map fst (ee_extra e), map fst (ee_tags e))"

lemma scrubbed_clean:
  "(\<And>s. P (redact re s)) \<Longrightarrow> clean_value P (scrub_value re v)"
  "(\<And>s. P (redact re s)) \<Longrightarrow> clean_values P (scrub_values re vs)"
  "(\<And>s. P (redact re s)) \<Longrightarrow> clean_fields P (scrub_fields re kvs)"
  by (induction re v and re vs and re kvs rule: scrub_value_scrub_values_scrub_fields.induct) auto

lemma scrub_fields_map: "scrub_fields re kvs = map (\<lambda>(k, v). (k, scrub_kv re k v)) kvs"
  by (induction kvs) (auto simp: scrub_kv_def)

lemma pred_option_map: "(\<And>s. P (f s)) \<Longrightarrow> pred_option P (map_option f x)"
  by (cases x) auto

lemma scrub_event_clean:
  assumes "\<And>s. P (redact re s)"
  shows "clean_event P (scrub_event re e)"
  using scrubbed_clean(3) [of P re] assms
  by (auto simp: clean_event_def scrub_event_def clean_breadcrumb_def scrub_breadcrumb_def list_all_iff
      pred_option_map scrub_fields_map split: prod.splits)

lemma scrub_event_untouched: "untouched (scrub_event re e) = untouched e"
  by (simp add: untouched_def scrub_event_def scrub_breadcrumb_def comp_def case_prod_unfold option.map_comp)

section \<open>Properties\<close>

text \<open>
  C40. What scrubbing an event does, and what it leaves: in the fields it names (message, message of the log entry,
  transaction, exception values, messages and data of breadcrumbs, extra data, tags) the value under a sensitive key
  is the placeholder, at every depth, and every other string is an output of the redaction; the server name is
  gone. The keys, the number of exceptions and breadcrumbs and every other field of the event, of its log entry,
  exceptions and breadcrumbs pass as they are: free text in those leaves the process unredacted.
\<close>

theorem event_scrubbed:
  "clean_event (\<lambda>s. s \<in> range (redact re)) (scrub_event re e) \<and> untouched (scrub_event re e) = untouched e"
  using scrub_event_clean [of "\<lambda>s. s \<in> range (redact re)" re e] scrub_event_untouched by blast

end
