(* ===== verification/Messaging.thy ===== *)
theory Messaging
  imports Sample
begin

text \<open>
  What sending, replaying and reading of messages guarantee: who may send, what is stored for whom, who
  sees which ciphertext, and that a stored message is replayed.
\<close>

section \<open>The roster\<close>

lemma roster_members:
  assumes "schema_ok d"
  shows "m \<in> set (roster rid d) \<longleftrightarrow>
    (\<exists>a \<in> set (accounts d). m = member_of_row a \<and> in_room rid (acc_id a) d)"
proof -
  have "m \<in> set (roster rid d) \<longleftrightarrow>
      (\<exists>r \<in> set (room_members d). mb_room_id r = rid \<and> map_option member_of_row (account_by_id (mb_account_id r) d) = Some m)"
    by (auto simp: roster_def in_map_filter)
  also have "\<dots> \<longleftrightarrow> (\<exists>a \<in> set (accounts d). m = member_of_row a \<and> in_room rid (acc_id a) d)"
  proof
    assume "\<exists>r \<in> set (room_members d). mb_room_id r = rid \<and> map_option member_of_row (account_by_id (mb_account_id r) d) = Some m"
    then obtain r a where r: "r \<in> set (room_members d)" "mb_room_id r = rid"
        "account_by_id (mb_account_id r) d = Some a" "m = member_of_row a" by blast
    then have "in_room rid (acc_id a) d" "a \<in> set (accounts d)"
      using account_by_id_SomeD [OF r(3)] by (auto simp: in_room_def list_ex_iff)
    then show "\<exists>a \<in> set (accounts d). m = member_of_row a \<and> in_room rid (acc_id a) d"
      using r(4) by blast
  next
    assume "\<exists>a \<in> set (accounts d). m = member_of_row a \<and> in_room rid (acc_id a) d"
    then obtain r a where "a \<in> set (accounts d)" "m = member_of_row a" "r \<in> set (room_members d)"
        "mb_room_id r = rid" "mb_account_id r = acc_id a"
      by (auto simp: in_room_def list_ex_iff)
    moreover from this have "account_by_id (mb_account_id r) d = Some a"
      using assms account_by_id_unique [of d a] by (simp add: schema_ok_def accounts_ok_def)
    ultimately show "\<exists>r \<in> set (room_members d). mb_room_id r = rid \<and>
        map_option member_of_row (account_by_id (mb_account_id r) d) = Some m" by auto
  qed
  finally show ?thesis .
qed

lemma map_filter_map: "List.map_filter (\<lambda>x. map_option g (f x)) xs = map g (List.map_filter f xs)"
  by (induction xs) (auto simp: List.map_filter_simps split: option.splits)

lemma distinct_roster:
  assumes "schema_ok d"
  shows "distinct (map m_account_id (roster rid d))"
proof -
  let ?ms = "sort_key mb_joined_at (filter (\<lambda>m. mb_room_id m = rid) (room_members d))"
  have "distinct (map (\<lambda>m. (mb_room_id m, mb_account_id m)) (room_members d))"
    using assms by (simp add: schema_ok_def members_ok_def)
  then have "distinct ?ms" and inj: "inj_on mb_account_id (set ?ms)"
    by (auto simp: distinct_map inj_on_def)
  then have dist: "distinct (map mb_account_id ?ms)"
    by (simp add: distinct_map)
  let ?f = "\<lambda>m. map_option member_of_row (account_by_id (mb_account_id m) d)"
  have below: "m_account_id y = mb_account_id x" if "?f x = Some y" for x y
    using that by (auto simp: member_of_row_def dest: account_by_id_SomeD)
  have "distinct (map mb_account_id xs) \<Longrightarrow> distinct (map m_account_id (List.map_filter ?f xs))" for xs
  proof (induction xs)
    case (Cons x xs)
    have "m_account_id y \<in> mb_account_id ` set xs" if "y \<in> set (List.map_filter ?f xs)" for y
      using that below unfolding in_map_filter by blast
    then show ?case
      using Cons below [of x] by (cases "?f x") (auto simp: List.map_filter_simps)
  qed (simp add: List.map_filter_simps)
  then show ?thesis
    unfolding roster_def using dist by blast
qed

section \<open>Sending\<close>

definition other_members :: "account_record \<Rightarrow> string \<Rightarrow> db \<Rightarrow> member list" where
  "other_members me rid d = filter (\<lambda>m. m_account_id m \<noteq> me_id me) (roster rid d)"

text \<open>The conditions under which a message is accepted: size, membership, and one body per key.\<close>

definition send_accepted :: "crates \<Rightarrow> account_record \<Rightarrow> string \<Rightarrow> bodies \<Rightarrow> db \<Rightarrow> bool" where
  "send_accepted C me rid bodies d \<longleftrightarrow>
     length bodies \<le> MAX_SEND_RECIPIENTS \<and> list_all (\<lambda>b. length (snd b) \<le> MAX_BODY_BYTES) bodies \<and>
     in_room rid (me_id me) d \<and>
     (let keys = (\<lambda>m. b64_encode C (m_x25519_pub m)) ` set (other_members me rid d);
          self = b64_encode C (me_x25519_pub me)
      in body_keys bodies = keys \<or> body_keys bodies = insert self keys)"

definition stored_row :: "account_record \<Rightarrow> string \<Rightarrow> string \<Rightarrow> timestamp \<Rightarrow> account_id \<Rightarrow> string \<Rightarrow> message_row_db" where
  "stored_row me rid mid ts recipient body = \<lparr>ms_id = mid, ms_room_id = rid, ms_from_account_id = me_id me,
     ms_recipient_account_id = recipient, ms_body = body, ms_ts = ts, ms_read_at = None\<rparr>"

text \<open>One row per other member with the body under their key, then the sender's own copy if there is one.\<close>

definition stored_rows :: "crates \<Rightarrow> account_record \<Rightarrow> string \<Rightarrow> string \<Rightarrow> timestamp \<Rightarrow> bodies \<Rightarrow> db \<Rightarrow> message_row_db list" where
  "stored_rows C me rid mid ts bodies d =
     map (\<lambda>m. stored_row me rid mid ts (m_account_id m) (the (map_of bodies (b64_encode C (m_x25519_pub m)))))
       (other_members me rid d) @
     (case map_of bodies (b64_encode C (me_x25519_pub me)) of None \<Rightarrow> []
      | Some body \<Rightarrow> [stored_row me rid mid ts (me_id me) body])"

lemma required_iff:
  "(if self \<in> provided then insert self expected else expected) = provided \<longleftrightarrow>
   provided = expected \<or> provided = insert self expected"
  by auto

lemma map_of_body_keys: "map_of bodies k \<noteq> None \<longleftrightarrow> k \<in> body_keys bodies"
  by (simp add: body_keys_def map_of_eq_None_iff)

lemma fan_out_rows_eq:
  assumes "\<forall>m \<in> set ms. m_account_id m \<noteq> me_id me \<longrightarrow> b64_encode C (m_x25519_pub m) \<in> body_keys bodies"
  shows "map new_message (fan_out_rows C me rid mid ts bodies ms) =
    map (\<lambda>m. stored_row me rid mid ts (m_account_id m) (the (map_of bodies (b64_encode C (m_x25519_pub m)))))
      (filter (\<lambda>m. m_account_id m \<noteq> me_id me) ms)"
  using assms
proof (induction ms)
  case (Cons m ms)
  then show ?case
    using map_of_body_keys [of bodies "b64_encode C (m_x25519_pub m)"]
    by (auto simp: fan_out_rows_def List.map_filter_simps stored_row_def new_message_def)
qed (simp add: fan_out_rows_def List.map_filter_simps)

lemma self_row_eq:
  "map new_message (self_row C me rid mid ts bodies) =
    (case map_of bodies (b64_encode C (me_x25519_pub me)) of None \<Rightarrow> []
     | Some body \<Rightarrow> [stored_row me rid mid ts (me_id me) body])"
  by (auto simp: self_row_def stored_row_def new_message_def split: option.splits)

lemma fan_out_rows_fields:
  "r \<in> set (fan_out_rows C me rid mid ts bodies ms) \<Longrightarrow> mr_id r = mid \<and> mr_room_id r = rid \<and>
     mr_from_account_id r = me_id me \<and> mr_recipient_account_id r \<noteq> me_id me \<and>
     mr_recipient_account_id r \<in> m_account_id ` set ms"
  by (auto simp: fan_out_rows_def in_map_filter split: if_splits)

lemma distinct_fan_out:
  "distinct (map m_account_id ms) \<Longrightarrow> distinct (map mr_recipient_account_id (fan_out_rows C me rid mid ts bodies ms))"
proof (induction ms)
  case (Cons m ms)
  have "mr_recipient_account_id ` set (fan_out_rows C me rid mid ts bodies ms) \<subseteq> m_account_id ` set ms"
    using fan_out_rows_fields by fastforce
  then show ?case
    using Cons by (auto simp: fan_out_rows_def List.map_filter_simps split: option.splits)
qed (simp add: fan_out_rows_def List.map_filter_simps)

lemma distinct_row_keys: "distinct (map mr_recipient_account_id rs) \<Longrightarrow> distinct (map row_key rs)"
  by (auto simp: distinct_map inj_on_def row_key_def)

lemma fold_deliver_db:
  "w_db (fold (deliver_message A me rid mid ts bodies) ms w) = w_db w"
  by (induction ms arbitrary: w) (auto simp: deliver_message_def spawn_notify_def split: option.splits)

lemma echo_self_db: "w_db (echo_self A me rid mid ts bodies c w) = w_db w"
  by (simp add: echo_self_def split: option.splits)

text \<open>The rows of a send, the sender's own copy last if there is one.\<close>

definition send_rows :: "crates \<Rightarrow> account_record \<Rightarrow> string \<Rightarrow> string \<Rightarrow> timestamp \<Rightarrow> bodies \<Rightarrow> member list \<Rightarrow> message_row list" where
  "send_rows C me rid mid ts bodies ms = fan_out_rows C me rid mid ts bodies ms @
      (if b64_encode C (me_x25519_pub me) \<in> body_keys bodies then self_row C me rid mid ts bodies else [])"

lemma send_rows_eq:
  "send_rows C me rid mid ts bodies ms = fan_out_rows C me rid mid ts bodies ms @ self_row C me rid mid ts bodies"
  using map_of_body_keys [of bodies "b64_encode C (me_x25519_pub me)"]
  by (auto simp: send_rows_def self_row_def)

lemma self_row_fields:
  "r \<in> set (self_row C me rid mid ts bodies) \<Longrightarrow> mr_id r = mid \<and> mr_room_id r = rid \<and>
     mr_from_account_id r = me_id me \<and> mr_recipient_account_id r = me_id me"
  by (auto simp: self_row_def split: option.splits)

lemma send_rows_fields:
  assumes "r \<in> set (send_rows C me rid mid ts bodies ms)"
  shows "mr_id r = mid \<and> mr_room_id r = rid \<and> mr_from_account_id r = me_id me \<and>
    mr_recipient_account_id r \<in> insert (me_id me) (m_account_id ` set ms)"
  using assms fan_out_rows_fields [of r] self_row_fields [of r] unfolding send_rows_eq by auto

lemma distinct_self_row: "distinct (map mr_recipient_account_id (self_row C me rid mid ts bodies))"
  by (simp add: self_row_def split: option.split)

lemma send_rows_fresh:
  assumes ok: "schema_ok d" and fresh: "\<forall>m \<in> set (messages d). ms_id m \<noteq> mid" and ms: "ms = roster rid d"
  shows "distinct (map row_key (send_rows C me rid mid ts bodies ms))"
    and "row_key ` set (send_rows C me rid mid ts bodies ms) \<inter> message_keys d = {}"
proof -
  have "distinct (map mr_recipient_account_id (fan_out_rows C me rid mid ts bodies ms))"
    using distinct_fan_out distinct_roster [OF ok] ms by blast
  moreover have "mr_recipient_account_id ` set (fan_out_rows C me rid mid ts bodies ms) \<inter>
      mr_recipient_account_id ` set (self_row C me rid mid ts bodies) = {}"
    using self_row_fields fan_out_rows_fields by fastforce
  ultimately show "distinct (map row_key (send_rows C me rid mid ts bodies ms))"
    unfolding send_rows_eq using distinct_self_row by (intro distinct_row_keys) simp
  show "row_key ` set (send_rows C me rid mid ts bodies ms) \<inter> message_keys d = {}"
    using send_rows_fields fresh by (fastforce simp: row_key_def message_keys_def)
qed

lemma insert_rows:
  assumes ok: "schema_ok d" and room: "in_room rid (me_id me) d"
    and fresh: "\<forall>m \<in> set (messages d). ms_id m \<noteq> mid"
    and ms: "ms = roster rid d"
    and keys: "\<forall>m \<in> set ms. m_account_id m \<noteq> me_id me \<longrightarrow> b64_encode C (m_x25519_pub m) \<in> body_keys bodies"
  shows "insert_many (send_rows C me rid mid ts bodies ms) d =
    (Inr (), d\<lparr>messages := messages d @ stored_rows C me rid mid ts bodies d\<rparr>)"
proof -
  have "m_account_id m \<in> account_ids d" if "m \<in> set ms" for m
    using that unfolding ms roster_members [OF ok] by (auto simp: member_of_row_def account_ids_def)
  moreover have "rid \<in> room_ids d" "me_id me \<in> account_ids d"
    using ok in_room_ids [OF _ room] by (auto simp: schema_ok_def)
  ultimately have "list_all (row_refs_ok d) (send_rows C me rid mid ts bodies ms)"
    using send_rows_fields by (fastforce simp: list_all_iff row_refs_ok_def)
  moreover have "map new_message (send_rows C me rid mid ts bodies ms) = stored_rows C me rid mid ts bodies d"
    unfolding stored_rows_def map_append send_rows_eq self_row_eq fan_out_rows_eq [OF keys]
    by (simp add: other_members_def ms)
  ultimately show ?thesis
    using insert_many_fresh [OF send_rows_fresh [OF ok fresh ms]] by simp
qed

definition keys_match :: "crates \<Rightarrow> account_record \<Rightarrow> string \<Rightarrow> bodies \<Rightarrow> db \<Rightarrow> bool" where
  "keys_match C me rid bodies d \<longleftrightarrow>
     (let keys = (\<lambda>m. b64_encode C (m_x25519_pub m)) ` set (other_members me rid d);
          self = b64_encode C (me_x25519_pub me)
      in body_keys bodies = keys \<or> body_keys bodies = insert self keys)"

text \<open>What \<open>handle_send\<close> comes to when every database call is served.\<close>

lemma handle_send_served:
  assumes "has_store A" and "w_faults w = []"
  shows "handle_send A E me rid bodies c tx w =
    (let C = lib A; self = b64_encode C (me_x25519_pub me); mid = ev_ulid E; ts = ev_now E 0; ms = roster rid (w_db w)
     in if length bodies > MAX_SEND_RECIPIENTS then send_error tx BODY_TOO_LARGE ''too many recipients'' w
        else if list_ex (\<lambda>b. length (snd b) > MAX_BODY_BYTES) bodies then send_error tx BODY_TOO_LARGE ''ciphertext too large'' w
        else if \<not> in_room rid (me_id me) (w_db w) then send_error tx UNKNOWN_ROOM '''' w
        else if \<not> keys_match C me rid bodies (w_db w) then send_error tx FAN_OUT_MISMATCH '''' w
        else case insert_many (send_rows C me rid mid ts bodies ms) (w_db w) of
            (Inl e, d) \<Rightarrow> send_error tx ''Internal'' '''' (w\<lparr>w_db := d\<rparr>)
          | (Inr _, d) \<Rightarrow>
             (let w1 = fold (deliver_message A me rid mid ts bodies) ms (w\<lparr>w_db := d\<rparr>)
              in if self \<in> body_keys bodies then echo_self A me rid mid ts bodies c w1 else w1))"
proof -
  have keys: "((if b64_encode (lib A) (me_x25519_pub me) \<in> body_keys bodies
         then insert (b64_encode (lib A) (me_x25519_pub me))
           ((\<lambda>m. b64_encode (lib A) (m_x25519_pub m)) ` {m \<in> set (roster rid (w_db w)). m_account_id m \<noteq> me_id me})
         else (\<lambda>m. b64_encode (lib A) (m_x25519_pub m)) ` {m \<in> set (roster rid (w_db w)). m_account_id m \<noteq> me_id me})
       = body_keys bodies) = keys_match (lib A) me rid bodies (w_db w)"
    using required_iff [of "b64_encode (lib A) (me_x25519_pub me)" "body_keys bodies"]
    unfolding keys_match_def Let_def other_members_def set_filter by simp
  show ?thesis
    unfolding handle_send_def is_member_def members_for_room_def Let_def
    using assms by (simp add: send_rows_def keys db_call_served if_distribR split del: if_split cong: if_cong prod.case_cong sum.case_cong)
qed

lemma send_accepted_iff:
  "send_accepted C me rid bodies d \<longleftrightarrow> \<not> length bodies > MAX_SEND_RECIPIENTS \<and>
     \<not> list_ex (\<lambda>b. length (snd b) > MAX_BODY_BYTES) bodies \<and> in_room rid (me_id me) d \<and> keys_match C me rid bodies d"
  by (auto simp: send_accepted_def keys_match_def list_ex_iff list_all_iff not_less Let_def)

lemma handle_send_accepted:
  assumes "has_store A" and "w_faults w = []" and ok: "schema_ok (w_db w)"
    and fresh: "\<forall>m \<in> set (messages (w_db w)). ms_id m \<noteq> ev_ulid E"
    and acc: "send_accepted (lib A) me rid bodies (w_db w)"
  shows "handle_send A E me rid bodies c tx w =
    (let mid = ev_ulid E; ts = ev_now E 0;
         w0 = w\<lparr>w_db := (w_db w)\<lparr>messages := messages (w_db w) @ stored_rows (lib A) me rid mid ts bodies (w_db w)\<rparr>\<rparr>;
         w1 = fold (deliver_message A me rid mid ts bodies) (roster rid (w_db w)) w0
     in if b64_encode (lib A) (me_x25519_pub me) \<in> body_keys bodies then echo_self A me rid mid ts bodies c w1 else w1)"
proof -
  have room: "in_room rid (me_id me) (w_db w)" and match: "keys_match (lib A) me rid bodies (w_db w)"
    using acc by (auto simp: send_accepted_iff)
  have keys: "\<forall>m \<in> set (roster rid (w_db w)). m_account_id m \<noteq> me_id me \<longrightarrow>
      b64_encode (lib A) (m_x25519_pub m) \<in> body_keys bodies"
    using match by (auto simp: keys_match_def Let_def other_members_def)
  note ins = insert_rows [OF ok room fresh refl keys]
  show ?thesis
    unfolding handle_send_served [OF assms(1,2)] Let_def ins
    using acc unfolding send_accepted_iff by simp
qed

lemma handle_send_db:
  assumes "has_store A" and "w_faults w = []" and "schema_ok (w_db w)"
    and "\<forall>m \<in> set (messages (w_db w)). ms_id m \<noteq> ev_ulid E"
  shows "w_db (handle_send A E me rid bodies c tx w) =
    (if send_accepted (lib A) me rid bodies (w_db w)
     then (w_db w)\<lparr>messages := messages (w_db w) @ stored_rows (lib A) me rid (ev_ulid E) (ev_now E 0) bodies (w_db w)\<rparr>
     else w_db w)"
proof (cases "send_accepted (lib A) me rid bodies (w_db w)")
  case True
  then show ?thesis
    by (simp add: handle_send_accepted [OF assms True] Let_def fold_deliver_db echo_self_db)
next
  case False
  then show ?thesis
    unfolding handle_send_served [OF assms(1,2)] Let_def send_accepted_iff by auto
qed

section \<open>Who sees what, whatever the database does\<close>

text \<open>
  The frames a send may queue: error frames on the sender's own channel; for another member of the room
  the body under that member's key, on that member's sessions; the sender's own copy on the sender's sessions.
\<close>

definition send_audience ::
  "app \<Rightarrow> account_record \<Rightarrow> string \<Rightarrow> bodies \<Rightarrow> uuid \<Rightarrow> sender \<Rightarrow> world \<Rightarrow> sender \<Rightarrow> room_server_frame \<Rightarrow> bool" where
  "send_audience A me rid bodies c tx w ch f \<longleftrightarrow>
     (ch = tx \<and> (\<exists>code message. f = Error code message)) \<or>
     (in_room rid (me_id me) (w_db w) \<and> (\<exists>mid ts body.
        (\<exists>m \<in> set (other_members me rid (w_db w)). ch \<in> set (sessions_of (w_routing w) (m_username m)) \<and>
           map_of bodies (b64_encode (lib A) (m_x25519_pub m)) = Some body \<and>
           f = Message mid rid (me_username me) ts body False False None) \<or>
        (ch \<in> set (sessions_of (w_routing w) (me_username me)) \<and>
           map_of bodies (b64_encode (lib A) (me_x25519_pub me)) = Some body \<and>
           f = Message mid rid (me_username me) ts body False False (Some c))))"

lemma emits_deliver_message:
  assumes "\<And>ch body. m_account_id m \<noteq> me_id me \<Longrightarrow> ch \<in> set (sessions_of (w_routing w) (m_username m)) \<Longrightarrow>
      map_of bodies (b64_encode (lib A) (m_x25519_pub m)) = Some body \<Longrightarrow>
      P ch (Message mid rid (me_username me) ts body False False None)"
  shows "emits P w (deliver_message A me rid mid ts bodies m w)"
proof -
  have spawn: "emits P w' (spawn_notify A i rid w')" for i w'
    by (intro emits_same) (simp_all add: spawn_notify_def split: option.splits)
  show ?thesis
  proof (cases "map_of bodies (b64_encode (lib A) (m_x25519_pub m))")
    case (Some body)
    have "emits P w (deliver (m_username m) (Message mid rid (me_username me) ts body False False None) w)"
      if "m_account_id m \<noteq> me_id me"
      by (rule emits_deliver) (rule assms [OF that _ Some])
    then show ?thesis
      using Some emits_trans [OF _ spawn] by (simp add: deliver_message_def)
  qed (simp add: deliver_message_def)
qed

lemma emits_echo:
  assumes "\<And>ch body. ch \<in> set (sessions_of (w_routing w) (me_username me)) \<Longrightarrow>
      map_of bodies (b64_encode (lib A) (me_x25519_pub me)) = Some body \<Longrightarrow>
      P ch (Message mid rid (me_username me) ts body False False (Some c))"
  shows "emits P w (echo_self A me rid mid ts bodies c w)"
  using assms by (auto simp: echo_self_def intro!: emits_deliver split: option.splits)

lemma send_emits:
  "emits (send_audience A me rid bodies c tx w) w (handle_send A E me rid bodies c tx w)"
proof -
  let ?P = "send_audience A me rid bodies c tx w"
  have err: "emits ?P v (send_error tx code message v)" for v code message
    by (rule emits_send_error) (simp add: send_audience_def)
  have out: "emits ?P v (fold (deliver_message A me rid mid ts bodies) ms v)"
    "emits ?P v (echo_self A me rid mid ts bodies c v)"
    if "in_room rid (me_id me) (w_db w)" "ms = roster rid (w_db w)" "w_routing v = w_routing w" for v mid ts ms
  proof -
    show "emits ?P v (fold (deliver_message A me rid mid ts bodies) ms v)"
      using that by (intro emits_fold emits_deliver_message)
        (auto simp: send_audience_def other_members_def dest!: emits_routing)
    show "emits ?P v (echo_self A me rid mid ts bodies c v)"
      using that by (intro emits_echo) (auto simp: send_audience_def)
  qed
  have both: "emits ?P v (echo_self A me rid mid ts bodies c (fold (deliver_message A me rid mid ts bodies) ms v))"
    if "in_room rid (me_id me) (w_db w)" "ms = roster rid (w_db w)" "w_routing v = w_routing w" for v mid ts ms
    by (rule emits_trans [OF out(1) out(2)]) (use that emits_routing [OF out(1) [OF that]] in auto)
  show ?thesis
    unfolding handle_send_def is_member_def members_for_room_def Let_def
    by (auto intro!: emits_db_write emits_db_read err both out(1))
qed

section \<open>Replay\<close>

definition replay_frame :: "db \<Rightarrow> message_row \<Rightarrow> room_server_frame option" where
  "replay_frame d row = map_option (\<lambda>a. Message (mr_id row) (mr_room_id row) (acc_username a) (mr_ts row)
     (mr_body row) True (mr_read row) None) (account_by_id (mr_from_account_id row) d)"

definition replay_rows :: "string \<Rightarrow> account_id \<Rightarrow> string option \<Rightarrow> db \<Rightarrow> message_row list" where
  "replay_rows rid i since d = map (message_row_of d)
     (sort_key ms_id (filter (\<lambda>m. ms_room_id m = rid \<and> ms_recipient_account_id m = i \<and>
        (case since of None \<Rightarrow> True | Some s \<Rightarrow> s < ms_id m)) (messages d)))"

definition backfill_frames :: "account_id \<Rightarrow> string \<Rightarrow> db \<Rightarrow> room_server_frame list" where
  "backfill_frames i rid d =
     (let ids = sort (map ms_id (filter (\<lambda>m. ms_room_id m = rid \<and> ms_from_account_id m = i \<and>
        ms_recipient_account_id m \<noteq> i \<and> ms_read_at m \<noteq> None) (messages d)))
      in if ids = [] then [] else (case partner_username i d of None \<Rightarrow> [] | Some reader \<Rightarrow> [Read rid ids reader]))"

definition marker_frames :: "account_id \<Rightarrow> string \<Rightarrow> db \<Rightarrow> room_server_frame list" where
  "marker_frames i rid d =
     (let ts = map ms_ts (filter (\<lambda>m. ms_room_id m = rid \<and> ms_recipient_account_id m = i \<and>
        ms_from_account_id m \<noteq> i \<and> ms_read_at m \<noteq> None) (messages d))
      in if ts = [] then [] else [ReadMarker rid (Max (set ts))])"

text \<open>Everything a subscription answers with.\<close>

definition subscribe_frames :: "account_id \<Rightarrow> string \<Rightarrow> string option \<Rightarrow> db \<Rightarrow> room_server_frame list" where
  "subscribe_frames i rid since d =
     List.map_filter (replay_frame d) (replay_rows rid i since d) @ backfill_frames i rid d @ marker_frames i rid d"

lemma fold_send_frame:
  "w_faults (fold (send_frame tx) fs w) = w_faults w" "w_db (fold (send_frame tx) fs w) = w_db w"
  by (induction fs arbitrary: w) simp_all

lemma queue_fold_send:
  "ch_queue (w_chans (fold (send_frame tx) fs w) tx) =
    ch_queue (w_chans w tx) @ (if ch_open (w_chans w tx) then fs else [])"
  by (induction fs arbitrary: w) (simp_all add: queue_send_frame)

lemma replay_fold:
  "w_faults w = [] \<Longrightarrow> w_db w = d \<Longrightarrow>
    fold (replay_row tx) rows w = fold (send_frame tx) (List.map_filter (replay_frame d) rows) w"
proof (induction rows arbitrary: w)
  case (Cons row rows)
  show ?case
  proof (cases "account_by_id (mr_from_account_id row) d")
    case None
    then have "replay_row tx row w = w"
      using Cons.prems by (simp add: replay_row_def lookup_full_account_by_id_def)
    then show ?thesis
      using None Cons by (simp add: List.map_filter_simps replay_frame_def)
  next
    case (Some a)
    then have "replay_row tx row w = send_frame tx (the (replay_frame d row)) w"
      using Cons.prems
      by (simp add: replay_row_def lookup_full_account_by_id_def replay_frame_def full_account_record_def)
    then show ?thesis
      using Some Cons.IH [of "replay_row tx row w"] Cons.prems
      by (simp add: List.map_filter_simps replay_frame_def)
  qed
qed (simp add: List.map_filter_simps)

lemma backfill_served:
  "w_faults w = [] \<Longrightarrow> read_backfill me rid tx w = fold (send_frame tx) (backfill_frames (me_id me) rid (w_db w)) w"
  by (simp add: read_backfill_def read_sent_message_ids_def partner_username_for_def backfill_frames_def Let_def
      split: option.splits)

lemma marker_served:
  "w_faults w = [] \<Longrightarrow> read_marker me rid tx w = fold (send_frame tx) (marker_frames (me_id me) rid (w_db w)) w"
  by (simp add: read_marker_def newest_read_incoming_ts_def marker_frames_def Let_def)

lemma subscribe_served:
  assumes "has_store A" and "w_faults w = []"
  shows "handle_subscribe A me rid since tx w =
    (if in_room rid (me_id me) (w_db w)
     then fold (send_frame tx) (subscribe_frames (me_id me) rid since (w_db w)) w
     else send_error tx UNKNOWN_ROOM '''' w)"
  using assms
  by (simp add: handle_subscribe_def is_member_def messages_for_recipient_def replay_fold [OF _ refl]
      backfill_served marker_served fold_send_frame subscribe_frames_def
      flip: replay_rows_def)

lemma send_faults:
  assumes "has_store A" and "w_faults w = []" and "schema_ok (w_db w)"
    and "\<forall>m \<in> set (messages (w_db w)). ms_id m \<noteq> ev_ulid E"
    and "send_accepted (lib A) me rid bodies (w_db w)"
  shows "w_faults (handle_send A E me rid bodies c tx w) = []"
proof -
  have "w_faults (fold (deliver_message A me rid mid ts bodies) ms v) = w_faults v" for mid ts ms v
    by (induction ms arbitrary: v) (auto simp: deliver_message_def spawn_notify_def split: option.splits)
  moreover have "w_faults (echo_self A me rid mid ts bodies c v) = w_faults v" for mid ts v
    by (simp add: echo_self_def split: option.splits)
  ultimately show ?thesis
    unfolding handle_send_accepted [OF assms] Let_def using assms(2) by simp
qed

lemma new_copy_unread:
  assumes "\<forall>m \<in> set (messages d). ms_id m \<noteq> mid"
  shows "\<not> read_by_other (d\<lparr>messages := messages d @ stored_rows C me rid mid ts bodies d\<rparr>)
    (stored_row me rid mid ts i body)"
proof -
  have "ms_read_at r = None" if "r \<in> set (stored_rows C me rid mid ts bodies d)" for r
    using that by (auto simp: stored_rows_def stored_row_def split: option.splits)
  then show ?thesis
    using assms by (auto simp: read_by_other_def list_ex_iff stored_row_def)
qed

lemma new_copy_replayed:
  assumes fresh: "\<forall>m \<in> set (messages d). ms_id m \<noteq> mid" and m: "m \<in> set (other_members me rid d)"
    and since: "case since of None \<Rightarrow> True | Some s \<Rightarrow> s < mid"
    and body: "map_of bodies (b64_encode C (m_x25519_pub m)) = Some body"
    and d': "d' = d\<lparr>messages := messages d @ stored_rows C me rid mid ts bodies d\<rparr>"
    and me: "account_by_id (me_id me) d = Some row" "me_username me = acc_username row"
  shows "Message mid rid (me_username me) ts body True False None \<in> set (subscribe_frames (m_account_id m) rid since d')"
proof -
  let ?new = "stored_row me rid mid ts (m_account_id m) body"
  have "?new \<in> set (messages d')"
    using m body by (force simp: d' stored_rows_def)
  then have "message_row_of d' ?new \<in> set (replay_rows rid (m_account_id m) since d')"
    using since by (auto simp: replay_rows_def stored_row_def split: option.splits)
  moreover have "replay_frame d' (message_row_of d' ?new) =
      Some (Message mid rid (me_username me) ts body True False None)"
    using me new_copy_unread [OF fresh] by (simp add: d' replay_frame_def message_row_of_def) (simp add: stored_row_def account_by_id_def)
  ultimately show ?thesis
    unfolding subscribe_frames_def set_append Un_iff in_map_filter by blast
qed

section \<open>Properties\<close>

text \<open>
  Confidentiality of a send, whatever the database does: the ciphertext under a key is queued only for
  sessions of room members who own that key, and only when the sender is a member of the room; on the
  sender's own connection there may be an error besides.
\<close>

theorem send_confidential:
  "emits (send_audience A me rid bodies c tx w) w (handle_send A E me rid bodies c tx w)"
  by (rule send_emits)

text \<open>
  C18. What a send stores: if the sizes are within bounds, the sender is a member and the bodies are for exactly
  the keys of the other members (and possibly the sender's own), one unread row for each of them with the
  body under that member's key; otherwise nothing.
\<close>

theorem send_stores_exactly:
  assumes "has_store A" and "w_faults w = []" and "schema_ok (w_db w)"
    and "\<forall>m \<in> set (messages (w_db w)). ms_id m \<noteq> ev_ulid E"
  shows "w_db (handle_send A E me rid bodies c tx w) =
    (if send_accepted (lib A) me rid bodies (w_db w)
     then (w_db w)\<lparr>messages := messages (w_db w) @ stored_rows (lib A) me rid (ev_ulid E) (ev_now E 0) bodies (w_db w)\<rparr>
     else w_db w)"
  using assms by (rule handle_send_db)

definition letter :: bodies where
  "letter = [(sample_b64 [20], ''sealed'')]"

lemma letter_accepted [simp]: "send_accepted sample_crates court ''R'' letter home"
  by (simp add: send_accepted_def letter_def other_members_def home_roster court_def Let_def body_keys_def
      MAX_SEND_RECIPIENTS_def MAX_BODY_BYTES_def sample_crates_def)

lemma letter_rows: "stored_rows sample_crates court ''R'' mid ts letter home =
    [\<lparr>ms_id = mid, ms_room_id = ''R'', ms_from_account_id = 1, ms_recipient_account_id = 2, ms_body = ''sealed'',
      ms_ts = ts, ms_read_at = None\<rparr>]"
  by (simp add: stored_rows_def letter_def other_members_def home_roster court_def stored_row_def sample_crates_def
      sample_b64_def byte_char_def)

theorem send_stores_exactly_witness:
  "messages (w_db (handle_send sample_app sample_env court ''R'' letter 7 0 (sample_world home))) =
    [\<lparr>ms_id = ''01J'', ms_room_id = ''R'', ms_from_account_id = 1, ms_recipient_account_id = 2,
      ms_body = ''sealed'', ms_ts = 1000, ms_read_at = None\<rparr>]"
proof -
  have "w_db (handle_send sample_app sample_env court ''R'' letter 7 0 (sample_world home)) =
      home\<lparr>messages := messages home @ stored_rows sample_crates court ''R'' ''01J'' 1000 letter home\<rparr>"
    using send_stores_exactly [of sample_app "sample_world home" sample_env court "''R''" letter 7 0]
    by (simp add: sample_env_def)
  then show ?thesis
    by (simp add: letter_rows)
qed

text \<open>
  C19. What a subscription answers: for a member of the room, on their own connection and in this order, the
  messages addressed to them after the watermark by ascending id, the ids of their own messages that were
  read, and how far they have read; for anybody else an error and nothing of the room.
\<close>

theorem subscribe_exact:
  assumes "has_store A" and "w_faults w = []" and "ch_open (w_chans w tx)"
  shows "ch_queue (w_chans (handle_subscribe A me rid since tx w) tx) = ch_queue (w_chans w tx) @
    (if in_room rid (me_id me) (w_db w) then subscribe_frames (me_id me) rid since (w_db w)
     else [Error UNKNOWN_ROOM ''''])"
  using assms by (simp add: subscribe_served queue_fold_send send_error_def queue_send_frame)

text \<open>
  C16. No message is lost: after an accepted send, each other member who subscribes to the room with any
  watermark before the message gets it replayed, with the body under their own key.
\<close>

theorem sent_message_replayed:
  assumes ok: "has_store A" "w_faults w = []" "schema_ok (w_db w)"
    and fresh: "\<forall>m \<in> set (messages (w_db w)). ms_id m \<noteq> ev_ulid E"
    and acc: "send_accepted (lib A) me rid bodies (w_db w)"
    and me: "account_by_id (me_id me) (w_db w) = Some row" "me_username me = acc_username row"
    and m: "m \<in> set (other_members me rid (w_db w))" "me_id peer = m_account_id m"
    and since: "case since of None \<Rightarrow> True | Some s \<Rightarrow> s < ev_ulid E"
    and chan: "ch_open (w_chans w tx')"
  shows "\<exists>body. map_of bodies (b64_encode (lib A) (m_x25519_pub m)) = Some body \<and>
    Message (ev_ulid E) rid (me_username me) (ev_now E 0) body True False None \<in>
      set (ch_queue (w_chans (handle_subscribe A peer rid since tx' (handle_send A E me rid bodies c tx w)) tx'))"
proof -
  let ?w = "handle_send A E me rid bodies c tx w"
  obtain body where body: "map_of bodies (b64_encode (lib A) (m_x25519_pub m)) = Some body"
    using acc m(1) map_of_body_keys [of bodies] unfolding send_accepted_def Let_def by blast
  have db: "w_db ?w = (w_db w)\<lparr>messages := messages (w_db w) @
      stored_rows (lib A) me rid (ev_ulid E) (ev_now E 0) bodies (w_db w)\<rparr>"
    using handle_send_db [OF ok fresh] acc by simp
  have "in_room rid (m_account_id m) (w_db w)"
    using m(1) by (auto simp: other_members_def roster_members [OF ok(3)] member_of_row_def)
  then have room: "in_room rid (me_id peer) (w_db ?w)"
    by (simp add: db m(2) in_room_def)
  have chan': "ch_open (w_chans ?w tx')"
    using send_emits chan unfolding emits_def by metis
  have "Message (ev_ulid E) rid (me_username me) (ev_now E 0) body True False None \<in>
      set (subscribe_frames (me_id peer) rid since (w_db ?w))"
    unfolding m(2) by (rule new_copy_replayed [OF fresh m(1) since body db me])
  then show ?thesis
    using body room chan' subscribe_served [OF ok(1) send_faults [OF ok fresh acc]]
    by (simp add: queue_fold_send)
qed

definition listening :: world where
  "listening = (sample_world home)\<lparr>w_chans := (\<lambda>c. \<lparr>ch_queue = [], ch_open = True\<rparr>)\<rparr>"

lemma listening_simps [simp]:
  "w_db listening = home" "w_faults listening = []" "w_routing listening = new_routing"
  "w_chans listening = (\<lambda>c. \<lparr>ch_queue = [], ch_open = True\<rparr>)"
  by (simp_all add: listening_def)

theorem subscribe_exact_witness:
  "ch_queue (w_chans (handle_subscribe sample_app court ''S'' None 0 listening) 0) = [Error ''UnknownRoom'' []]"
proof -
  have "\<not> in_room ''S'' (me_id court) home"
    by (simp add: in_room_def home_eq)
  then show ?thesis
    using subscribe_exact [of sample_app listening 0 court "''S''" None] by (simp add: UNKNOWN_ROOM_def)
qed

theorem sent_message_replayed_witness:
  "Message ''01J'' ''R'' ''court'' 1000 ''sealed'' True False None \<in> set (ch_queue (w_chans
     (handle_subscribe sample_app kai ''R'' None 5 (handle_send sample_app sample_env court ''R'' letter 7 0 listening)) 5))"
proof -
  obtain row where row: "account_by_id (me_id court) home = Some row" "acc_username row = ''court''"
    by (simp add: account_by_id_def home_eq couple_eq court_def)
  let ?m = "\<lparr>m_account_id = 2, m_username = ''kai'', m_ed25519_pub = [2], m_x25519_pub = [20 :: u8]\<rparr>"
  have "\<exists>body. map_of letter (b64_encode sample_crates [20]) = Some body \<and>
      Message (ev_ulid sample_env) ''R'' (me_username court) (ev_now sample_env 0) body True False None \<in>
      set (ch_queue (w_chans (handle_subscribe sample_app kai ''R'' None 5
        (handle_send sample_app sample_env court ''R'' letter 7 0 listening)) 5))"
    using sent_message_replayed [of sample_app listening sample_env court "''R''" letter row ?m kai None 5 7 0] row
    by (simp add: other_members_def home_roster)
  then show ?thesis
    by (simp add: letter_def sample_crates_def sample_env_def)
qed

end
