(* ===== verification/Server.thy ===== *)
theory Server
  imports Messaging
begin

text \<open>
  The server as a whole (\<open>main.rs\<close> around \<open>handle_socket\<close>): any number of connections whose events
  interleave, the background tasks, the REST requests, the clock and a database that may fail. A step of a
  connection is one event: the answer to its challenge, the start of its session, one turn of its loop,
  which is the last when the loop breaks. What is shown here holds in every state such a server can reach.
\<close>

section \<open>Accounts are never renamed or removed\<close>

definition acc_ident :: "account_row \<Rightarrow> account_id \<times> string \<times> bytes \<times> bytes" where
  "acc_ident a = (acc_id a, acc_username a, acc_ed25519_pub a, acc_x25519_pub a)"

definition has_ident :: "account_id \<times> string \<times> bytes \<times> bytes \<Rightarrow> db \<Rightarrow> bool" where
  "has_ident k d \<longleftrightarrow> k \<in> acc_ident ` set (accounts d)"

lemma has_ident_update_where:
  assumes "\<And>a. acc_ident (f a) = acc_ident a"
  shows "has_ident k (d\<lparr>accounts := update_where P f (accounts d)\<rparr>) = has_ident k d"
  using map_update_where [of acc_ident f P] assms by (simp add: has_ident_def flip: set_map)

lemma keeps_ident_accounts:
  "keeps (has_ident k) (insert_account u ed x)" "keeps (has_ident k) (touch_last_seen i)"
  "keeps (has_ident k) (link_partner a b)"
proof -
  show "keeps (has_ident k) (insert_account u ed x)"
    by (rule keepsI) (auto simp: insert_account_cases has_ident_def)
  show "keeps (has_ident k) (touch_last_seen i)"
    by (rule keepsI) (simp add: touch_last_seen_def has_ident_update_where acc_ident_def)
  show "keeps (has_ident k) (link_partner a b)"
    by (rule keepsI) (simp add: link_partner_def Let_def has_ident_update_where acc_ident_def)
qed

lemma keeps_ident_same: "(\<And>d. accounts (snd (q d)) = accounts d) \<Longrightarrow> keeps (has_ident k) q"
  by (rule keepsI) (simp add: has_ident_def)

lemma keeps_ident_stmts:
  "keeps (has_ident k) (insert_member rid i)" "keeps (has_ident k) (rename_room rid nm)"
  "keeps (has_ident k) (mark_consumed h at)" "keeps (has_ident k) (mark_read rid i up_to)"
  "keeps (has_ident k) (upsert_token i device token environment kind)" "keeps (has_ident k) (delete_token i device)"
  "keeps (has_ident k) (delete_token_value i token)" "keeps (has_ident k) (upsert_profile i envelope avatar)"
  "keeps (has_ident k) (insert_attachment key rid i bsize)" "keeps (has_ident k) (insert_message row)"
  "keeps (has_ident k) (insert_room rid nm)" "keeps (has_ident k) (delete_member rid i)"
  "keeps (has_ident k) (delete_room rid)" "keeps (has_ident k) (delete_open_invites i)"
  "keeps (has_ident k) (insert_invite h i expires r)"
  by (rule keeps_ident_same; simp add: op_defs Let_def)+

lemma keeps_ident_link: "keeps (has_ident k) (set_partner_link a b)"
  unfolding set_partner_link_def
  by (intro keeps_transaction keeps_then keeps_read)
    (auto intro!: keeps_then keeps_read keeps_ident_accounts split: option.split)

lemma db_step_ident: "db_step d d' \<Longrightarrow> has_ident k d \<Longrightarrow> has_ident k d'"
proof (induction rule: db_step.induct)
  case (step_clock d t)
  then show ?case by (simp add: has_ident_def)
qed (use keeps_ident_stmts keeps_ident_accounts keeps_ident_link keeps_create_room [of "has_ident k"]
      keeps_leave_room [of "has_ident k"] keeps_create_invite [of "has_ident k"] keeps_insert_many [of "has_ident k"]
      in \<open>auto simp: keeps_def\<close>)

lemma db_reach_ident: "db_reach d d' \<Longrightarrow> has_ident k d \<Longrightarrow> has_ident k d'"
  by (induction rule: rtranclp_induct) (auto intro: db_step_ident)

section \<open>The server\<close>

text \<open>
  The shared state, the connections whose client has authenticated but whose session has not started, and
  the running sessions in the order of their start.
\<close>

record server =
  sv_world :: world
  sv_opening :: "(account_record \<times> socket) list"
  sv_live :: "(session \<times> socket) list"

abbreviation live_tx :: "session \<times> socket \<Rightarrow> sender" where
  "live_tx x \<equiv> se_tx (fst x)"

abbreviation live_name :: "session \<times> socket \<Rightarrow> string" where
  "live_name x \<equiv> me_username (se_me (fst x))"

text \<open>
  The state \<open>main\<close> builds before the first connection, over the database \<open>d\<close> that earlier runs of the server
  have left; \<open>fs\<close> is what the database will do.
\<close>

definition start_server :: "db \<Rightarrow> fault list \<Rightarrow> server" where
  "start_server d fs = \<lparr>sv_world = \<lparr>w_db = d, w_routing = new_routing,
     w_chans = (\<lambda>c. \<lparr>ch_queue = [], ch_open = False\<rparr>), w_calls = new_pending_calls, w_faults = fs,
     w_pushed = [], w_tasks = []\<rparr>, sv_opening = [], sv_live = []\<rparr>"

text \<open>
  The channel of a session is a new one, so it is not that of a running session. The identifiers \<open>Ulid\<close> makes
  do not repeat: the one at hand while a frame is handled is not that of a stored message.
\<close>

definition event_fresh :: "loop_event \<Rightarrow> db \<Rightarrow> bool" where
  "event_fresh ev d = (case ev of Inbound _ E \<Rightarrow> \<forall>m \<in> set (messages d). ms_id m \<noteq> ev_ulid E | _ \<Rightarrow> True)"

inductive server_step :: "app \<Rightarrow> server \<Rightarrow> server \<Rightarrow> bool" for A :: app where
  srv_rejected: "handshake A nonce s w = ((None, s'), w') \<Longrightarrow>
    server_step A \<lparr>sv_world = w, sv_opening = ps, sv_live = ls\<rparr> \<lparr>sv_world = w', sv_opening = ps, sv_live = ls\<rparr>"
| srv_authenticated: "handshake A nonce s w = ((Some me, s'), w') \<Longrightarrow>
    server_step A \<lparr>sv_world = w, sv_opening = ps, sv_live = ls\<rparr>
      \<lparr>sv_world = w', sv_opening = (me, s') # ps, sv_live = ls\<rparr>"
| srv_started: "tx \<notin> live_tx ` set ls \<Longrightarrow> start_session A E me tx w = (ss, w') \<Longrightarrow>
    server_step A \<lparr>sv_world = w, sv_opening = ps1 @ (me, s) # ps2, sv_live = ls\<rparr>
      \<lparr>sv_world = w', sv_opening = ps1 @ ps2, sv_live = ls @ [(ss, s)]\<rparr>"
| srv_turn: "event_fresh ev (w_db w) \<Longrightarrow> session_step A ev ss s w = (True, ss', s', w') \<Longrightarrow>
    server_step A \<lparr>sv_world = w, sv_opening = ps, sv_live = ls1 @ (ss, s) # ls2\<rparr>
      \<lparr>sv_world = w', sv_opening = ps, sv_live = ls1 @ (ss', s') # ls2\<rparr>"
| srv_ended: "event_fresh ev (w_db w) \<Longrightarrow> session_step A ev ss s w = (False, ss', s', w') \<Longrightarrow>
    server_step A \<lparr>sv_world = w, sv_opening = ps, sv_live = ls1 @ (ss, s) # ls2\<rparr>
      \<lparr>sv_world = end_session A ss' w', sv_opening = ps, sv_live = ls1 @ ls2\<rparr>"
| srv_notify: "w_tasks w = ts1 @ (i, rid) # ts2 \<Longrightarrow> push A = Some snd_fn \<Longrightarrow>
    server_step A \<lparr>sv_world = w, sv_opening = ps, sv_live = ls\<rparr>
      \<lparr>sv_world = notify_recipient snd_fn i rid (w\<lparr>w_tasks := ts1 @ ts2\<rparr>), sv_opening = ps, sv_live = ls\<rparr>"
| srv_sweep: "server_step A \<lparr>sv_world = w, sv_opening = ps, sv_live = ls\<rparr>
      \<lparr>sv_world = w\<lparr>w_calls := expire_due now (w_calls w)\<rparr>, sv_opening = ps, sv_live = ls\<rparr>"
| srv_account: "server_step A \<lparr>sv_world = w, sv_opening = ps, sv_live = ls\<rparr>
      \<lparr>sv_world = snd (create_account A req w), sv_opening = ps, sv_live = ls\<rparr>"
| srv_lookup: "server_step A \<lparr>sv_world = w, sv_opening = ps, sv_live = ls\<rparr>
      \<lparr>sv_world = snd (get_account_by_username A u w), sv_opening = ps, sv_live = ls\<rparr>"
| srv_preview: "server_step A \<lparr>sv_world = w, sv_opening = ps, sv_live = ls\<rparr>
      \<lparr>sv_world = snd (preview_invite A now code w), sv_opening = ps, sv_live = ls\<rparr>"
| srv_clock: "db_now (w_db w) \<le> t \<Longrightarrow> server_step A \<lparr>sv_world = w, sv_opening = ps, sv_live = ls\<rparr>
      \<lparr>sv_world = w\<lparr>w_db := (w_db w)\<lparr>db_now := t\<rparr>\<rparr>, sv_opening = ps, sv_live = ls\<rparr>"
| srv_faults: "server_step A \<lparr>sv_world = w, sv_opening = ps, sv_live = ls\<rparr>
      \<lparr>sv_world = w\<lparr>w_faults := fs\<rparr>, sv_opening = ps, sv_live = ls\<rparr>"

definition server_reach :: "app \<Rightarrow> server \<Rightarrow> bool" where
  "server_reach A sv \<longleftrightarrow> (\<exists>d fs. db_reach empty_db d \<and> (server_step A)\<^sup>*\<^sup>* (start_server d fs) sv)"

section \<open>What a step does\<close>

text \<open>
  A relation that also contains the creation of an account and the clock contains every step of the server:
  whoever knows what the statements keep knows what the server keeps.
\<close>

locale server_frame = connection_frame +
  assumes new_account: "username_ok u \<Longrightarrow> length ed = 32 \<Longrightarrow> length x = 32 \<Longrightarrow> stmt_ok R (insert_account u ed x)"
    and clock: "db_now (w_db w) \<le> t \<Longrightarrow> R w (w\<lparr>w_db := (w_db w)\<lparr>db_now := t\<rparr>\<rparr>)"
begin

lemma account_kept: "R w (snd (create_account A req w))"
proof -
  have "length k = 32" if "decode_pubkey C s = Some k" for C s k
    using that by (auto simp: decode_pubkey_def split: option.splits if_splits)
  then show ?thesis
    unfolding create_account_def
    by (auto intro!: result_call new_account simp: refl split: option.split)
qed

lemma rest_kept: "R w (snd (get_account_by_username A u w))" "R w (snd (preview_invite A now code w))"
proof -
  show "R w (snd (get_account_by_username A u w))"
    unfolding get_account_by_username_def select_account_def
    by (auto intro!: result_call stmt_read simp: refl split: option.split)
  show "R w (snd (preview_invite A now code w))"
    unfolding preview_invite_def Let_def
    by (auto intro!: result_call stmts simp: refl split: option.split sum.split invite_state.split)
qed

lemma server_step_kept: "server_step A sv sv' \<Longrightarrow> R (sv_world sv) (sv_world sv')"
proof (induction rule: server_step.induct)
  case (srv_rejected nonce s w s' w')
  then show ?case using handshake_kept by (metis select_convs(1) snd_conv)
next
  case (srv_authenticated nonce s w me s' w')
  then show ?case using handshake_kept by (metis select_convs(1) snd_conv)
next
  case (srv_started tx ls E me w ss w')
  then show ?case using start_kept [of w A E me tx] by simp
next
  case (srv_turn ev w ss s ss' s' w')
  then show ?case using step_kept by simp
next
  case (srv_ended ev w ss s ss' s' w')
  then show ?case using step_kept end_kept [of w' A ss'] trans by fastforce
next
  case (srv_notify w ts1 i rid ts2 snd_fn)
  then show ?case using task_kept [of "w\<lparr>w_tasks := ts1 @ ts2\<rparr>"] tasks [of w] trans by fastforce
qed (simp_all add: clock calls faults account_kept rest_kept)

lemma server_run_kept: "(server_step A)\<^sup>*\<^sup>* sv sv' \<Longrightarrow> R (sv_world sv) (sv_world sv')"
  by (induction rule: rtranclp_induct) (auto intro: refl trans server_step_kept)

end

interpretation server_db: server_frame "\<lambda>w w'. db_reach (w_db w) (w_db w')"
  by unfold_locales (auto intro: stmt_ok_reach step_insert_account step_clock r_into_rtranclp)

lemmas server_step_db = server_db.server_step_kept

section \<open>Channels and sessions\<close>

text \<open>Nobody came or went, and no frame moved.\<close>

definition still :: "world \<Rightarrow> world \<Rightarrow> bool" where
  "still w w' \<longleftrightarrow> w_routing w' = w_routing w \<and> w_chans w' = w_chans w"

lemma still_refl [simp]: "still w w"
  by (simp add: still_def)

lemma still_call:
  assumes "\<And>e w. still w (snd (on_err e w))" and "\<And>x w. still w (snd (on_ok x w))"
  shows "still w (snd (db_call q on_err on_ok w))"
proof -
  obtain r w1 where "db_exec q w = (r, w1)" by fastforce
  then show ?thesis
    using assms db_exec_frame [of q w r w1] by (cases r) (simp_all add: db_call_def still_def)
qed

lemma still_handshake: "still w (snd (handshake A nonce s w))"
proof -
  have "still w (snd (authenticate A nonce raw s w))" for raw s
    unfolding authenticate_def Let_def
    by (auto intro!: still_call split: option.split auth_client_frame.split sum.split prod.split)
  then show ?thesis
    by (auto simp: handshake_def split: option.split prod.split list.split ws_message.split)
qed

lemma still_rest:
  "still w (snd (create_account A req w))" "still w (snd (get_account_by_username A u w))"
  "still w (snd (preview_invite A now code w))"
  unfolding create_account_def get_account_by_username_def preview_invite_def Let_def
  by (auto intro!: still_call split: option.split sum.split invite_state.split)

lemma open_emits: "emits P w w' \<Longrightarrow> ch_open (w_chans w' c) = ch_open (w_chans w c)"
  by (simp add: emits_def)

abbreviation no_bodies :: "world \<Rightarrow> world \<Rightarrow> bool" where
  "no_bodies \<equiv> emits (\<lambda>_ f. \<not> is_message f)"

text \<open>The world in which a new session is first visible.\<close>

definition joined :: "account_record \<Rightarrow> sender \<Rightarrow> world \<Rightarrow> world" where
  "joined me tx w = (open_channel tx w)\<lparr>w_routing := register (me_username me) tx (w_routing w)\<rparr>"

lemma start_session_emits:
  assumes "start_session A E me tx w = (ss, w')"
  shows "no_bodies (joined me tx w) w' \<and> se_me ss = me \<and> se_tx ss = tx"
proof -
  have "no_bodies (joined me tx w) (deliver_pending_calls E me tx (announce_presence_on_connect A me tx
      (send_rooms A me tx (joined me tx w))))"
    using withinD [OF quiet.within_rooms] withinD [OF quiet.r_connect] withinD [OF quiet.r_pending] emits_trans
    by meson
  then show ?thesis
    using assms by (auto simp: start_session_def Let_def joined_def open_channel_def)
qed

lemma end_session_emits:
  "no_bodies (w\<lparr>w_routing := unregister (me_username (se_me ss)) (se_tx ss) (w_routing w)\<rparr>)
     (announce_presence_on_disconnect A (se_me ss)
       (w\<lparr>w_routing := unregister (me_username (se_me ss)) (se_tx ss) (w_routing w)\<rparr>))"
  by (rule withinD [OF quiet.r_disconnect])

lemma end_session_open:
  fixes w :: world
  shows "ch_open (w_chans (end_session A ss w) c) \<longleftrightarrow> ch_open (w_chans w c) \<and> c \<noteq> se_tx ss"
  using open_emits [OF end_session_emits [of ss w A]] by (simp add: end_session_def Let_def)

text \<open>The three things a turn of the loop may do to the world.\<close>

lemma session_step_cases:
  assumes "session_step A ev ss s w = (go, ss', s', w')"
  obtains (idle) "w' = w"
  | (outbound) f fs where "ch_queue (w_chans w (se_tx ss)) = f # fs"
      "w' = w\<lparr>w_chans := (w_chans w)(se_tx ss := (w_chans w (se_tx ss))\<lparr>ch_queue := fs\<rparr>)\<rparr>"
  | (frame) t E f ss0 where "ev = Inbound (Some (Text t)) E" "parse_room A t = Some f" "se_me ss0 = se_me ss"
      "se_tx ss0 = se_tx ss" "w' = snd (handle_frame A E f ss0 w)" "go"
proof (cases ev)
  case Outbound
  then show ?thesis
    using assms idle outbound
    by (auto simp: session_step_def relay_outbound_def Let_def split: list.splits option.splits prod.splits)
next
  case (Ping_tick now)
  then show ?thesis
    using assms idle by (auto simp: session_step_def split: if_splits prod.splits)
next
  case (Inbound msg E)
  consider (read) t f where "msg = Some (Text t)" "parse_room A t = Some f" | (other) "w' = w"
    using assms Inbound by (auto simp: session_step_def Let_def split: option.splits ws_message.splits prod.splits)
  then show ?thesis
  proof cases
    case read
    then have "w' = snd (handle_frame A E f (ss\<lparr>last_seen := ev_instant E\<rparr>) w) \<and> go"
      using assms Inbound by (auto simp: session_step_def Let_def split: prod.splits)
    then show ?thesis
      using Inbound read frame [of t E f "ss\<lparr>last_seen := ev_instant E\<rparr>"] by simp
  qed (rule idle)
qed

lemma session_step_open:
  assumes "session_step A ev ss s w = (go, ss', s', w')"
  shows "ch_open (w_chans w' c) = ch_open (w_chans w c)"
  using assms
proof (cases rule: session_step_cases)
  case (frame t E f ss0)
  then show ?thesis using open_emits [OF frame_log.frame_kept] by simp
qed simp_all

section \<open>The invariant\<close>

definition rec_ident :: "account_record \<Rightarrow> account_id \<times> string \<times> bytes \<times> bytes" where
  "rec_ident me = (me_id me, me_username me, me_ed25519_pub me, me_x25519_pub me)"

text \<open>The routing table is the list of running sessions, and a channel is open exactly while its session runs.\<close>

definition sessions_ok :: "world \<Rightarrow> (session \<times> socket) list \<Rightarrow> bool" where
  "sessions_ok w ls \<longleftrightarrow>
     (\<forall>u. sessions_of (w_routing w) u = map live_tx (filter (\<lambda>x. live_name x = u) ls)) \<and>
     routing_ok (w_routing w) \<and> distinct (map live_tx ls) \<and> (\<forall>c. ch_open (w_chans w c) \<longleftrightarrow> c \<in> live_tx ` set ls)"

text \<open>Everyone a connection acts for is an account of the database, with the keys it authenticated with.\<close>

definition idents_ok :: "db \<Rightarrow> (account_record \<times> socket) list \<Rightarrow> (session \<times> socket) list \<Rightarrow> bool" where
  "idents_ok d ps ls \<longleftrightarrow> (\<forall>me \<in> fst ` set ps \<union> (se_me \<circ> fst) ` set ls. has_ident (rec_ident me) d)"

definition server_ok :: "server \<Rightarrow> bool" where
  "server_ok sv \<longleftrightarrow> pairing_ok (w_db (sv_world sv)) \<and> sessions_ok (sv_world sv) (sv_live sv) \<and>
     idents_ok (w_db (sv_world sv)) (sv_opening sv) (sv_live sv)"

lemma sessions_ok_cong:
  assumes "w_routing w' = w_routing w" and "\<And>c. ch_open (w_chans w' c) = ch_open (w_chans w c)"
    and "map (\<lambda>x. (live_tx x, live_name x)) ls' = map (\<lambda>x. (live_tx x, live_name x)) ls"
  shows "sessions_ok w' ls' = sessions_ok w ls"
proof -
  have names: "map live_tx (filter (\<lambda>x. live_name x = u) ks) =
      map fst (filter (\<lambda>p. snd p = u) (map (\<lambda>x. (live_tx x, live_name x)) ks))" for u ks
    by (simp add: filter_map o_def)
  have txs: "map live_tx ks = map fst (map (\<lambda>x. (live_tx x, live_name x)) ks)" for ks :: "(session \<times> socket) list"
    by simp
  have "map live_tx ls' = map live_tx ls"
    unfolding txs by (simp only: assms(3))
  moreover from this have "live_tx ` set ls' = live_tx ` set ls"
    by (metis set_map)
  ultimately show ?thesis
    unfolding sessions_ok_def names by (simp add: assms)
qed

lemma sessions_ok_joined:
  assumes "sessions_ok w ls" and "tx \<notin> live_tx ` set ls" and "se_me ss = me" and "se_tx ss = tx"
  shows "sessions_ok (joined me tx w) (ls @ [(ss, s)])"
  using assms by (auto simp: sessions_ok_def joined_def open_channel_def routes.reg_sessions)

lemma sessions_ok_left:
  assumes "sessions_ok w (ls1 @ (ss, s) # ls2)"
  shows "sessions_ok (end_session A ss w) (ls1 @ ls2)"
proof -
  have dist: "distinct (map live_tx (ls1 @ (ss, s) # ls2))"
    using assms by (simp add: sessions_ok_def)
  have out: "filter (\<lambda>c. c \<noteq> se_tx ss) (map live_tx (filter Q ks)) = map live_tx (filter Q ks)"
    if "set ks \<subseteq> set ls1 \<union> set ls2" for Q and ks :: "(session \<times> socket) list"
    using that dist by (force simp: filter_id_conv)
  have "sessions_of (w_routing (end_session A ss w)) u = map live_tx (filter (\<lambda>x. live_name x = u) (ls1 @ ls2))" for u
    using assms out [of ls1] out [of ls2]
    by (auto simp: sessions_ok_def end_session_routing routes.unreg_sessions)
  moreover have "ch_open (w_chans (end_session A ss w) c) \<longleftrightarrow> c \<in> live_tx ` set (ls1 @ ls2)" for c
  proof -
    have "ch_open (w_chans w c) \<longleftrightarrow> c \<in> live_tx ` set (ls1 @ (ss, s) # ls2)"
      using assms by (simp add: sessions_ok_def)
    then have "ch_open (w_chans w c) \<longleftrightarrow> c = se_tx ss \<or> c \<in> live_tx ` set (ls1 @ ls2)" by auto
    moreover have "se_tx ss \<notin> live_tx ` set (ls1 @ ls2)" using dist by auto
    ultimately show ?thesis unfolding end_session_open by blast
  qed
  moreover have "routing_ok (w_routing (end_session A ss w))"
    using assms by (simp add: sessions_ok_def end_session_routing)
  ultimately show ?thesis
    using dist unfolding sessions_ok_def by simp
qed

lemma sessions_ok_no_bodies: "no_bodies w w' \<Longrightarrow> sessions_ok w' ls = sessions_ok w ls"
  using open_emits emits_routing by (intro sessions_ok_cong) auto

lemma sessions_ok_still: "still w w' \<Longrightarrow> sessions_ok w' ls = sessions_ok w ls"
  by (intro sessions_ok_cong) (auto simp: still_def)

lemma still_updates:
  "still w (w\<lparr>w_calls := cs\<rparr>)" "still w (w\<lparr>w_db := d\<rparr>)" "still w (w\<lparr>w_faults := fs\<rparr>)" "still w (w\<lparr>w_tasks := ts\<rparr>)"
  by (simp_all add: still_def)

lemmas sessions_ok_same = still_updates [THEN sessions_ok_still] still_rest [THEN sessions_ok_still]

lemma sessions_ok_turn:
  assumes "session_step A ev ss s w = (go, ss', s', w')" and "sessions_ok w (ls1 @ (ss, s) # ls2)"
  shows "sessions_ok w' (ls1 @ (ss', s') # ls2)"
proof -
  have "w_routing w' = w_routing w"
    using same_routes.step_kept [OF assms(1)] .
  then show ?thesis
    using assms(2) session_step_open [OF assms(1)] session_step_keeps_self [OF assms(1)]
      sessions_ok_cong [of w' w "ls1 @ (ss', s') # ls2" "ls1 @ (ss, s) # ls2"] by simp
qed

lemma server_step_sessions:
  "server_step A sv sv' \<Longrightarrow> sessions_ok (sv_world sv) (sv_live sv) \<Longrightarrow> sessions_ok (sv_world sv') (sv_live sv')"
proof (induction rule: server_step.induct)
  case (srv_rejected nonce s w s' w')
  then show ?case using still_handshake [of w A nonce s] sessions_ok_still by simp
next
  case (srv_authenticated nonce s w me s' w')
  then show ?case using still_handshake [of w A nonce s] sessions_ok_still by simp
next
  case (srv_started tx ls E me w ss w')
  then show ?case
    using start_session_emits [OF srv_started(2)] sessions_ok_joined [of w ls tx ss me]
      sessions_ok_no_bodies [of "joined me tx w" w'] by simp
next
  case (srv_turn ev w ss s ss' s' w')
  then show ?case using sessions_ok_turn by simp
next
  case (srv_ended ev w ss s ss' s' w')
  then show ?case using sessions_ok_turn sessions_ok_left by (metis select_convs(1,3))
next
  case (srv_notify w ts1 i rid ts2 snd_fn)
  then show ?case
    using sessions_ok_no_bodies [OF quiet.task_kept] by (simp add: sessions_ok_same)
qed (simp_all add: sessions_ok_same)

lemma start_session_self: "start_session A E me tx w = (ss, w') \<Longrightarrow> se_me ss = me"
  using start_session_emits by blast

lemma server_step_idents:
  assumes "server_step A sv sv'" and "idents_ok (w_db (sv_world sv)) (sv_opening sv) (sv_live sv)"
  shows "idents_ok (w_db (sv_world sv')) (sv_opening sv') (sv_live sv')"
proof -
  have later: "idents_ok (w_db (sv_world sv')) (sv_opening sv) (sv_live sv)"
    using assms(2) db_reach_ident [OF server_step_db [OF assms(1)]] by (auto simp: idents_ok_def)
  from assms(1) later show ?thesis
  proof (induction rule: server_step.induct)
    case (srv_authenticated nonce s w me s' w')
    obtain raw s2 where "authenticate A nonce raw s2 w = ((Some me, s'), w')"
      using handshake_SomeD [OF srv_authenticated(1)] by blast
    then obtain u row where "account_by_name u (w_db w) = Some row" "me = full_account_record row"
      using authenticate_SomeD by blast
    then have "has_ident (rec_ident me) (w_db w)"
      by (auto simp: has_ident_def rec_ident_def full_account_record_def acc_ident_def image_iff
          dest!: account_by_name_SomeD)
    then have "has_ident (rec_ident me) (w_db w')"
      using db_reach_ident db_moves.handshake_kept srv_authenticated(1) by (metis snd_conv)
    then show ?case
      using srv_authenticated(2) by (auto simp: idents_ok_def)
  next
    case (srv_started tx ls E me w ss w')
    then show ?case using start_session_self by (auto simp: idents_ok_def)
  next
    case (srv_turn ev w ss s ss' s' w')
    then show ?case using session_step_keeps_self [OF srv_turn(2)] by (auto simp: idents_ok_def)
  qed (auto simp: idents_ok_def)
qed

lemma server_step_ok: "server_step A sv sv' \<Longrightarrow> server_ok sv \<Longrightarrow> server_ok sv'"
  using server_step_sessions server_step_idents db_reach_pairing [OF server_step_db] by (simp add: server_ok_def)

lemma start_server_ok: "db_reach empty_db d \<Longrightarrow> server_ok (start_server d fs)"
  using db_reach_pairing [OF _ pairing_empty]
  by (simp add: server_ok_def start_server_def sessions_ok_def idents_ok_def routes.start_sessions)

lemma server_reach_ok: "server_reach A sv \<Longrightarrow> server_ok sv"
proof -
  assume "server_reach A sv"
  then obtain d fs where "db_reach empty_db d" "(server_step A)\<^sup>*\<^sup>* (start_server d fs) sv"
    by (auto simp: server_reach_def)
  from this(2,1) show ?thesis
    by (induction rule: rtranclp_induct) (auto intro: server_step_ok start_server_ok)
qed

section \<open>Where message bodies go\<close>

text \<open>A frame that carries a body is for a member of its room who has a stored copy with that body.\<close>

definition addressed :: "db \<Rightarrow> account_id \<Rightarrow> room_server_frame \<Rightarrow> bool" where
  "addressed d i f = (case f of
       Message mid rid from ts body replayed read client_msg_id \<Rightarrow> in_room rid i d \<and>
         list_ex (\<lambda>m. ms_id m = mid \<and> ms_room_id m = rid \<and> ms_recipient_account_id m = i \<and> ms_body m = body)
           (messages d)
     | _ \<Rightarrow> True)"

lemma addressed_other: "\<not> is_message f \<Longrightarrow> addressed d i f"
  by (cases f) (simp_all add: addressed_def is_message_def)

lemma db_exec_Inr: "db_exec q w = (Inr x, w') \<Longrightarrow> q (w_db w) = (Inr x, w_db w')"
  by (auto simp: db_exec_def split: list.splits fault.splits prod.splits)

lemma db_read_same:
  assumes "\<And>e v. w_db v = w_db w \<Longrightarrow> w_db (on_err e v) = w_db w"
    and "\<And>x v. w_db v = w_db w \<Longrightarrow> w_db (on_ok x v) = w_db w" and "w_db v = w_db w"
  shows "w_db (db_call (sql_read f) on_err on_ok v) = w_db w"
proof -
  obtain r v' where e: "db_exec (sql_read f) v = (r, v')" by fastforce
  then show ?thesis
    using db_exec_read [OF e] assms by (cases r) (simp_all add: db_call_def)
qed

lemma subscribe_db: "w_db (handle_subscribe A me rid since tx w) = w_db w"
proof -
  have row: "w_db (replay_row tx row v) = w_db v" for row v
    unfolding replay_row_def lookup_full_account_by_id_def
    by (rule db_read_same) (simp_all split: option.split)
  have rows: "w_db (fold (replay_row tx) rows v) = w_db v" for rows v
    by (induction rows arbitrary: v) (simp_all add: row)
  have marker: "w_db (read_marker me rid tx v) = w_db v" for v
    unfolding read_marker_def newest_read_incoming_ts_def by (rule db_read_same) (simp_all split: option.split)
  have filled: "w_db (read_backfill me rid tx v) = w_db v" for v
    unfolding read_backfill_def read_sent_message_ids_def partner_username_for_def
    by (auto intro!: db_read_same split: option.split)
  show ?thesis
    unfolding handle_subscribe_def is_member_def messages_for_recipient_def
    by (auto intro!: db_read_same simp: rows marker filled)
qed

lemma subscribe_addressed:
  "emits (\<lambda>c f. addressed (w_db w) (me_id me) f \<and> (is_message f \<longrightarrow> c = tx)) w (handle_subscribe A me rid since tx w)"
proof -
  let ?P = "\<lambda>c f. addressed (w_db w) (me_id me) f \<and> (is_message f \<longrightarrow> c = tx)"
  have other: "\<not> is_message f \<Longrightarrow> ?P c f" for c f
    using addressed_other by blast
  have tails: "emits ?P v (read_backfill me rid tx v)" "emits ?P v (read_marker me rid tx v)" for v
    using other not_messages unfolding read_backfill_def read_marker_def
    by (auto intro!: emits_db_call emits_send_frame split: option.split)
  have replay: "emits ?P v (fold (replay_row tx) rows v)"
    if "in_room rid (me_id me) (w_db w)" "set rows \<subseteq> message_row_of (w_db w) `
        {m \<in> set (messages (w_db w)). ms_room_id m = rid \<and> ms_recipient_account_id m = me_id me}" for rows v
    using that unfolding replay_row_def
    by (intro emits_fold) (auto 0 4 intro!: emits_db_call emits_send_frame
        simp: addressed_def message_row_of_def list_ex_iff split: option.split)
  show ?thesis
    unfolding handle_subscribe_def is_member_def messages_for_recipient_def
    by (auto intro!: emits_db_read emits_send_error other not_messages
        emits_trans [OF emits_trans [OF replay tails(1)] tails(2)])
qed

text \<open>A property of the world a handler ends in, over a call of the database.\<close>

lemma db_callI:
  assumes "\<And>e v. db_exec q w = (Inl e, v) \<Longrightarrow> G (on_err e v)"
    and "\<And>x v. db_exec q w = (Inr x, v) \<Longrightarrow> G (on_ok x v)"
  shows "G (db_call q on_err on_ok w)"
  using assms by (cases "db_exec q w"; cases "fst (db_exec q w)") (auto simp: db_call_def)

lemma db_readI:
  assumes "\<And>e v. still w v \<Longrightarrow> w_db v = w_db w \<Longrightarrow> G (on_err e v)"
    and "\<And>v. still w v \<Longrightarrow> w_db v = w_db w \<Longrightarrow> G (on_ok (f (w_db w)) v)"
  shows "G (db_call (sql_read f) on_err on_ok w)"
proof (rule db_callI)
  fix e v assume h: "db_exec (sql_read f) w = (Inl e, v)"
  then show "G (on_err e v)"
    using assms(1) db_exec_read [OF h] db_exec_frame [OF h] by (simp add: still_def)
next
  fix x v assume h: "db_exec (sql_read f) w = (Inr x, v)"
  then show "G (on_ok x v)"
    using assms(2) db_exec_read [OF h] db_exec_frame [OF h] by (simp add: still_def)
qed

lemma still_trans: "still w v \<Longrightarrow> still v u \<Longrightarrow> still w u"
  by (simp add: still_def)

lemma still_exec: "db_exec q w = (r, v) \<Longrightarrow> still w v"
  using db_exec_frame by (auto simp: still_def)

lemma roster_in_room: "m \<in> set (roster rid d) \<Longrightarrow> in_room rid (m_account_id m) d \<and>
    has_ident (m_account_id m, m_username m, m_ed25519_pub m, m_x25519_pub m) d"
  by (force simp: roster_def in_map_filter member_of_row_def in_room_def list_ex_iff has_ident_def acc_ident_def
      dest: account_by_id_SomeD)

text \<open>A frame on \<open>c\<close> is for the account whose sessions include \<open>c\<close>.\<close>

definition for_owner :: "db \<Rightarrow> routing \<Rightarrow> sender \<Rightarrow> room_server_frame \<Rightarrow> bool" where
  "for_owner d r c f \<longleftrightarrow> (\<exists>i u ed x. c \<in> set (sessions_of r u) \<and> has_ident (i, u, ed, x) d \<and> addressed d i f)"

abbreviation bodies_owned :: "world \<Rightarrow> world \<Rightarrow> bool" where
  "bodies_owned w h \<equiv> emits (\<lambda>c f. is_message f \<longrightarrow> for_owner (w_db h) (w_routing w) c f) w h"

lemma bodies_owned_quiet: "no_bodies w h \<Longrightarrow> bodies_owned w h"
  by (erule emits_weaken) blast

lemma no_bodies_error: "still w v \<Longrightarrow> no_bodies w (send_error tx code message v)"
  using not_messages by (intro emits_trans [OF emits_same emits_send_error]) (auto simp: still_def)

lemma stored_addressed:
  assumes "r \<in> set rows" and "in_room (mr_room_id r) (mr_recipient_account_id r) d"
  shows "addressed (d\<lparr>messages := messages d @ map new_message rows\<rparr>) (mr_recipient_account_id r)
    (Message (mr_id r) (mr_room_id r) from ts (mr_body r) replayed seen client)"
proof -
  have "list_ex (\<lambda>m. ms_id m = mr_id r \<and> ms_room_id m = mr_room_id r \<and>
      ms_recipient_account_id m = mr_recipient_account_id r \<and> ms_body m = mr_body r) (map new_message rows)"
    using assms(1) by (auto simp: list_ex_iff new_message_def)
  then show ?thesis
    using assms(2) by (simp add: addressed_def in_room_def)
qed

text \<open>The frames of a send whose rows are stored.\<close>

lemma fan_out_owned:
  assumes room: "in_room rid (me_id me) d" and me: "has_ident (rec_ident me) d"
    and ms: "ms = roster rid d" and r: "w_routing v = r"
    and d': "d' = d\<lparr>messages := messages d @ map new_message (send_rows (lib A) me rid mid ts bodies ms)\<rparr>"
  shows "emits (\<lambda>c f. is_message f \<longrightarrow> for_owner d' r c f) v (fold (deliver_message A me rid mid ts bodies) ms v)"
    and "emits (\<lambda>c f. is_message f \<longrightarrow> for_owner d' r c f) v (echo_self A me rid mid ts bodies client v)"
proof -
  let ?rows = "send_rows (lib A) me rid mid ts bodies ms"
  have ident: "has_ident k d' = has_ident k d" for k
    by (simp add: d' has_ident_def)
  have one: "for_owner d' r c (Message mid rid sndr t body b1 b2 cl)"
    if "m \<in> set ms" "m_account_id m \<noteq> me_id me" "c \<in> set (sessions_of r (m_username m))"
      "map_of bodies (b64_encode (lib A) (m_x25519_pub m)) = Some body" for m c body sndr t b1 b2 cl
  proof -
    let ?row = "\<lparr>mr_id = mid, mr_room_id = rid, mr_from_account_id = me_id me,
      mr_recipient_account_id = m_account_id m, mr_body = body, mr_ts = ts, mr_read = False\<rparr>"
    have "?row \<in> set ?rows"
      using that by (auto simp: send_rows_def fan_out_rows_def in_map_filter)
    then have "addressed d' (m_account_id m) (Message mid rid sndr t body b1 b2 cl)"
      using stored_addressed [of ?row ?rows d] roster_in_room [of m rid d] that(1) ms by (simp add: d')
    then show ?thesis
      using that(1,3) roster_in_room [of m rid d] ms ident unfolding for_owner_def by blast
  qed
  show "emits (\<lambda>c f. is_message f \<longrightarrow> for_owner d' r c f) v (fold (deliver_message A me rid mid ts bodies) ms v)"
    using one r by (intro emits_fold emits_deliver_message) (auto dest!: emits_routing)
  have own: "for_owner d' r c (Message mid rid sndr t body b1 b2 cl)"
    if "c \<in> set (sessions_of r (me_username me))"
      "map_of bodies (b64_encode (lib A) (me_x25519_pub me)) = Some body" for c body sndr t b1 b2 cl
  proof -
    let ?row = "\<lparr>mr_id = mid, mr_room_id = rid, mr_from_account_id = me_id me,
      mr_recipient_account_id = me_id me, mr_body = body, mr_ts = ts, mr_read = False\<rparr>"
    have "?row \<in> set ?rows"
      using that by (simp add: send_rows_eq self_row_def)
    then have "addressed d' (me_id me) (Message mid rid sndr t body b1 b2 cl)"
      using stored_addressed [of ?row ?rows d] room by (simp add: d')
    then show ?thesis
      using that(1) me ident unfolding for_owner_def rec_ident_def by blast
  qed
  then show "emits (\<lambda>c f. is_message f \<longrightarrow> for_owner d' r c f) v (echo_self A me rid mid ts bodies client v)"
    using r by (intro emits_echo) simp
qed

lemma send_owned:
  assumes ok: "schema_ok (w_db w)" and fresh: "\<forall>m \<in> set (messages (w_db w)). ms_id m \<noteq> ev_ulid E"
    and me: "has_ident (rec_ident me) (w_db w)"
  shows "bodies_owned w (handle_send A E me rid bodies c tx w)"
proof -
  define G where "G h = bodies_owned w h" for h
  have err: "G (send_error tx code message v)" if "still w v" for code message v
    unfolding G_def by (rule bodies_owned_quiet [OF no_bodies_error [OF that]])
  have tail: "G (fold (deliver_message A me rid (ev_ulid E) (ev_now E 0) bodies) ms v)"
    "G (echo_self A me rid (ev_ulid E) (ev_now E 0) bodies c
      (fold (deliver_message A me rid (ev_ulid E) (ev_now E 0) bodies) ms v))"
    if ins: "db_exec (insert_many (send_rows (lib A) me rid (ev_ulid E) (ev_now E 0) bodies ms)) u = (Inr x, v)"
      and room: "in_room rid (me_id me) (w_db w)" and ms: "ms = roster rid (w_db w)"
      and u: "still w u" "w_db u = w_db w"
    for ms u v x
  proof -
    let ?rows = "send_rows (lib A) me rid (ev_ulid E) (ev_now E 0) bodies ms"
    have d': "w_db v = (w_db w)\<lparr>messages := messages (w_db w) @ map new_message ?rows\<rparr>"
      using db_exec_Inr [OF ins] insert_many_fresh [OF send_rows_fresh [OF ok fresh ms]] u(2)
      by (auto split: if_splits)
    have v: "still w v"
      using still_trans [OF u(1) still_exec [OF ins]] .
    then have r: "w_routing v = w_routing w" and same: "emits P w v" for P
      by (auto simp: still_def emits_same)
    let ?P = "\<lambda>c f. is_message f \<longrightarrow> for_owner (w_db v) (w_routing w) c f"
    let ?w1 = "fold (deliver_message A me rid (ev_ulid E) (ev_now E 0) bodies) ms v"
    have first: "emits ?P w ?w1"
      by (rule emits_trans [OF same fan_out_owned(1) [OF room me ms r d']])
    moreover have "emits ?P w (echo_self A me rid (ev_ulid E) (ev_now E 0) bodies c ?w1)"
      by (rule emits_trans [OF first fan_out_owned(2) [OF room me ms emits_routing [OF first] d']])
    ultimately show "G ?w1" "G (echo_self A me rid (ev_ulid E) (ev_now E 0) bodies c ?w1)"
      unfolding G_def by (simp_all add: fold_deliver_db echo_self_db)
  qed
  have branch: "(b \<Longrightarrow> G (f v)) \<Longrightarrow> (\<not> b \<Longrightarrow> G (g v)) \<Longrightarrow> G ((if b then f else g) v)" for b f g v
    by simp
  have "G (handle_send A E me rid bodies c tx w)"
    unfolding handle_send_def is_member_def members_for_room_def Let_def send_rows_def [symmetric]
    by (intro branch db_readI [where G = G] db_callI [where G = G and q = "insert_many rs" for rs])
      (auto intro: err still_trans still_exec intro!: tail)
  then show ?thesis by (simp add: G_def)
qed

section \<open>Bodies over a whole run\<close>

lemma ident_name_unique:
  assumes "accounts_ok d" and "has_ident (i, u, ed, x) d" and "has_ident (j, u, ed', x') d"
  shows "i = j"
proof -
  obtain a b where "a \<in> set (accounts d)" "b \<in> set (accounts d)" "acc_username a = u" "acc_username b = u"
    "acc_id a = i" "acc_id b = j"
    using assms(2,3) by (auto simp: has_ident_def acc_ident_def)
  moreover have "inj_on acc_username (set (accounts d))"
    using accounts_ok_distinct [OF assms(1)] by (simp add: distinct_map)
  ultimately show ?thesis by (metis inj_onD)
qed

lemma owner_is_session:
  assumes ok: "pairing_ok d" "sessions_ok w ls" and me: "has_ident (rec_ident (se_me ss)) d"
    and live: "(ss, s) \<in> set ls" and own: "for_owner d (w_routing w) (se_tx ss) f"
  shows "addressed d (me_id (se_me ss)) f"
proof -
  obtain i u ed x where u: "se_tx ss \<in> set (sessions_of (w_routing w) u)" "has_ident (i, u, ed, x) d" "addressed d i f"
    using own by (auto simp: for_owner_def)
  then obtain y where y: "y \<in> set ls" "live_tx y = se_tx ss" "live_name y = u"
    using ok(2) by (auto simp: sessions_ok_def)
  have "inj_on live_tx (set ls)"
    using ok(2) by (simp add: sessions_ok_def distinct_map)
  then have "y = (ss, s)"
    using y live by (metis fst_conv inj_onD)
  then have "i = me_id (se_me ss)"
    using ident_name_unique [of d i u] u(2) y(3) me ok(1)
    by (auto simp: rec_ident_def pairing_ok_def schema_ok_def)
  then show ?thesis using u(3) by simp
qed

text \<open>What a turn adds to the channels of the running sessions.\<close>

lemma frame_owned:
  assumes ok: "schema_ok (w_db w)" and fresh: "\<forall>m \<in> set (messages (w_db w)). ms_id m \<noteq> ev_ulid E"
    and me: "has_ident (rec_ident (se_me ss)) (w_db w)"
    and own: "se_tx ss \<in> set (sessions_of (w_routing w) (me_username (se_me ss)))"
  shows "bodies_owned w (snd (handle_frame A E f ss w))"
proof (cases "case f of Send _ _ _ \<Rightarrow> False | Subscribe _ _ \<Rightarrow> False | _ \<Rightarrow> True")
  case True
  then show ?thesis by (intro bodies_owned_quiet quiet.quiet_frame_kept)
next
  case False
  then consider (sent) rid bodies c where "f = Send rid bodies c" | (sub) rid since where "f = Subscribe rid since"
    by (cases f) auto
  then show ?thesis
  proof cases
    case sent
    then show ?thesis using send_owned [OF ok fresh me] by (simp add: handle_frame_def Let_def)
  next
    case sub
    have "bodies_owned w (handle_subscribe A (se_me ss) rid since (se_tx ss) w)"
      unfolding subscribe_db
      by (rule emits_weaken [OF subscribe_addressed]) (use own me in \<open>auto simp: for_owner_def rec_ident_def\<close>)
    then show ?thesis using sub by (simp add: handle_frame_def Let_def)
  qed
qed

lemma emits_member:
  "emits P w w' \<Longrightarrow> f \<in> set (ch_queue (w_chans w' c)) \<Longrightarrow> f \<in> set (ch_queue (w_chans w c)) \<or> P c f"
  unfolding emits_def by (metis Un_iff list_all_iff set_append)

lemma turn_bodies:
  assumes step: "session_step A ev ss s w = (go, ss', s', w')" and fresh: "event_fresh ev (w_db w)"
    and ok: "pairing_ok (w_db w)" "sessions_ok w ls" and me: "has_ident (rec_ident (se_me ss)) (w_db w)"
    and live: "(ss, s) \<in> set ls" and f: "f \<in> set (ch_queue (w_chans w' c))" "is_message f"
  shows "f \<in> set (ch_queue (w_chans w c)) \<or> (go \<and> for_owner (w_db w') (w_routing w) c f)"
  using step
proof (cases rule: session_step_cases)
  case idle
  then show ?thesis using f(1) by simp
next
  case (outbound g gs)
  then show ?thesis using f(1) by (auto split: if_splits)
next
  case (frame t E g ss0)
  have "se_tx ss \<in> set (sessions_of (w_routing w) (me_username (se_me ss)))"
    using ok(2) live by (force simp: sessions_ok_def)
  then have "bodies_owned w w'"
    using frame_owned [of w E ss0 A g] ok(1) fresh me frame
    by (simp add: pairing_ok_def event_fresh_def)
  then show ?thesis
    using emits_member f frame(6) by blast
qed

text \<open>
  \<open>kept\<close>: the body was on the channel of this session before; \<open>new\<close>: it is for the account of this session.
\<close>

definition body_explained :: "server \<Rightarrow> server \<Rightarrow> session \<times> socket \<Rightarrow> room_server_frame \<Rightarrow> bool" where
  "body_explained sv sv' y f \<longleftrightarrow> addressed (w_db (sv_world sv')) (me_id (se_me (fst y))) f \<or>
     (\<exists>x \<in> set (sv_live sv). live_tx x = live_tx y \<and> se_me (fst x) = se_me (fst y) \<and>
        f \<in> set (ch_queue (w_chans (sv_world sv) (live_tx y))))"

lemma queue_no_bodies:
  "no_bodies w w' \<Longrightarrow> is_message f \<Longrightarrow> f \<in> set (ch_queue (w_chans w' c)) \<Longrightarrow> f \<in> set (ch_queue (w_chans w c))"
  using emits_member by blast

lemma queue_end_session:
  assumes "is_message f" and "f \<in> set (ch_queue (w_chans (end_session A ss w) c))"
  shows "f \<in> set (ch_queue (w_chans w c))"
  using assms queue_no_bodies [OF end_session_emits [of ss w A] assms(1), of c]
  by (auto simp: end_session_def Let_def split: if_splits)

lemma turn_explained:
  assumes step: "session_step A ev ss s w = (go, ss', s', w')" and fresh: "event_fresh ev (w_db w)"
    and ok: "server_ok \<lparr>sv_world = w, sv_opening = ps, sv_live = ls1 @ (ss, s) # ls2\<rparr>"
      "server_ok \<lparr>sv_world = w', sv_opening = ps, sv_live = ls1 @ (ss', s') # ls2\<rparr>"
    and y: "y \<in> set (ls1 @ (ss', s') # ls2)" and f: "is_message f" "f \<in> set (ch_queue (w_chans w' (live_tx y)))"
  shows "body_explained \<lparr>sv_world = w, sv_opening = ps, sv_live = ls1 @ (ss, s) # ls2\<rparr>
    \<lparr>sv_world = w', sv_opening = ps, sv_live = ls1 @ (ss', s') # ls2\<rparr> y f"
proof -
  have me: "has_ident (rec_ident (se_me ss)) (w_db w)"
    using ok(1) by (simp add: server_ok_def idents_ok_def)
  have cases: "f \<in> set (ch_queue (w_chans w (live_tx y))) \<or> (go \<and> for_owner (w_db w') (w_routing w) (live_tx y) f)"
    using ok(1) me f by (intro turn_bodies [OF step fresh, of "ls1 @ (ss, s) # ls2"]) (auto simp: server_ok_def)
  have r: "w_routing w' = w_routing w"
    by (rule same_routes.step_kept [OF step])
  obtain x where x: "x \<in> set (ls1 @ (ss, s) # ls2)" "live_tx x = live_tx y" "se_me (fst x) = se_me (fst y)"
    using y session_step_keeps_self [OF step] by (cases "y = (ss', s')") (auto intro: that)
  from cases show "body_explained \<lparr>sv_world = w, sv_opening = ps, sv_live = ls1 @ (ss, s) # ls2\<rparr>
    \<lparr>sv_world = w', sv_opening = ps, sv_live = ls1 @ (ss', s') # ls2\<rparr> y f"
  proof
    assume "f \<in> set (ch_queue (w_chans w (live_tx y)))"
    then show ?thesis using x by (auto simp: body_explained_def)
  next
    assume "go \<and> for_owner (w_db w') (w_routing w) (live_tx y) f"
    moreover have "has_ident (rec_ident (se_me (fst y))) (w_db w')"
      using ok(2) y by (auto simp: server_ok_def idents_ok_def)
    ultimately have "addressed (w_db w') (me_id (se_me (fst y))) f"
      using ok(2) y r owner_is_session [of "w_db w'" w' "ls1 @ (ss', s') # ls2" "fst y" "snd y"]
      by (simp add: server_ok_def)
    then show ?thesis by (simp add: body_explained_def)
  qed
qed

lemma server_step_bodies:
  assumes "server_step A sv sv'" and "server_ok sv" and "y \<in> set (sv_live sv')" and "is_message f"
    and "f \<in> set (ch_queue (w_chans (sv_world sv') (live_tx y)))"
  shows "body_explained sv sv' y f"
proof -
  have ok': "server_ok sv'"
    by (rule server_step_ok [OF assms(1,2)])
  have same: "body_explained sv sv' y f"
    if "set (sv_live sv') \<subseteq> set (sv_live sv)" "f \<in> set (ch_queue (w_chans (sv_world sv) (live_tx y)))"
    using that assms(3) by (auto simp: body_explained_def)
  from assms ok' same show ?thesis
  proof (induction rule: server_step.induct)
    case (srv_rejected nonce s w s' w')
    then show ?case using still_handshake [of w A nonce s] by (simp add: still_def)
  next
    case (srv_authenticated nonce s w me s' w')
    then show ?case using still_handshake [of w A nonce s] by (simp add: still_def)
  next
    case (srv_started tx ls E me w ss w')
    then have "f \<in> set (ch_queue (w_chans (joined me tx w) (live_tx y)))"
      using start_session_emits [OF srv_started(2)] queue_no_bodies [of "joined me tx w" w' f "live_tx y"] by simp
    then have "live_tx y \<noteq> tx" and q: "f \<in> set (ch_queue (w_chans w (live_tx y)))"
      by (auto simp: joined_def open_channel_def split: if_splits)
    then show ?case
      using srv_started start_session_emits [OF srv_started(2)] by (auto simp: body_explained_def)
  next
    case (srv_turn ev w ss s ss' s' w')
    then show ?case using turn_explained by simp
  next
    case (srv_ended ev w ss s ss' s' w' ps ls1 ls2)
    have "f \<in> set (ch_queue (w_chans w' (live_tx y)))"
      using srv_ended queue_end_session by simp
    moreover have "has_ident (rec_ident (se_me ss)) (w_db w)"
      using srv_ended(3) by (simp add: server_ok_def idents_ok_def)
    ultimately have "f \<in> set (ch_queue (w_chans w (live_tx y)))"
      using turn_bodies [OF srv_ended(2,1), of "ls1 @ (ss, s) # ls2" f "live_tx y"] srv_ended(3,5)
      by (simp add: server_ok_def)
    then show ?case using srv_ended by auto
  next
    case (srv_notify w ts1 i rid ts2 snd_fn)
    then show ?case using queue_no_bodies [OF quiet.task_kept, of f _ _ _ "w\<lparr>w_tasks := ts1 @ ts2\<rparr>"] by simp
  qed (use still_rest in \<open>auto simp: still_def\<close>)
qed

text \<open>A run of the server, the latest state first.\<close>

inductive server_run :: "app \<Rightarrow> server list \<Rightarrow> bool" for A :: app where
  run_start: "db_reach empty_db d \<Longrightarrow> server_run A [start_server d fs]"
| run_step: "server_run A (sv # before) \<Longrightarrow> server_step A sv sv' \<Longrightarrow> server_run A (sv' # sv # before)"

lemma server_run_ok: "server_run A svs \<Longrightarrow> svs \<noteq> [] \<and> server_ok (hd svs)"
  by (induction rule: server_run.induct) (auto intro: start_server_ok server_step_ok)

lemma run_bodies:
  "server_run A svs \<Longrightarrow> y \<in> set (sv_live (hd svs)) \<Longrightarrow> is_message f \<Longrightarrow>
     f \<in> set (ch_queue (w_chans (sv_world (hd svs)) (live_tx y))) \<Longrightarrow>
     \<exists>sv \<in> set svs. addressed (w_db (sv_world sv)) (me_id (se_me (fst y))) f"
proof (induction arbitrary: y rule: server_run.induct)
  case (run_start d fs)
  then show ?case by (simp add: start_server_def)
next
  case (run_step sv before sv')
  have "body_explained sv sv' y f"
    using run_step server_run_ok [OF run_step(1)] by (intro server_step_bodies [OF run_step(2)]) simp_all
  then show ?case
    using run_step.IH run_step.prems(2) by (fastforce simp: body_explained_def)
qed

end
