(* ===== verification/Startup.thy ===== *)
theory Startup
  imports Server Rest
begin

text \<open>
  Start-up: \<open>main.rs\<close> from the configuration to the listening server, \<open>R2Presigner\<close> of \<open>r2.rs\<close>, \<open>ApnsSender::new\<close>
  of \<open>push.rs\<close>, and the static pages of \<open>well_known.rs\<close>. The S3 crate, the APNs crate, the error reporter, the HTTP
  client, the pool and the network are parameters. A feature whose configuration is missing or unusable is left out
  and the server runs without it; an unreachable database and an unusable port end the start with an error, a DSN
  that the error reporter cannot parse and a missing TLS backend with a panic inside the crates.
\<close>

section \<open>The clients\<close>

datatype url_style = Path | Virtual_host

text \<open>
  The crate \<open>rusty_s3\<close>: \<open>'u\<close> are its URLs, \<open>'b\<close> its buckets. \<open>sign_put\<close> and \<open>sign_get\<close> take the credentials, the
  key and the time to live in microseconds.
\<close>

record ('u, 'b) s3 =
  parse_url :: "string \<Rightarrow> 'u option"
  bucket_new :: "'u \<Rightarrow> url_style \<Rightarrow> string \<Rightarrow> string \<Rightarrow> 'b option"
  sign_put :: "'b \<Rightarrow> string \<times> string \<Rightarrow> string \<Rightarrow> int \<Rightarrow> string"
  sign_get :: "'b \<Rightarrow> string \<times> string \<Rightarrow> string \<Rightarrow> int \<Rightarrow> string"

definition r2_endpoint :: "r2_config \<Rightarrow> string" where
  "r2_endpoint cfg = or_else (rc_endpoint cfg) (''https://'' @ rc_account_id cfg @ ''.r2.cloudflarestorage.com'')"

definition r2_presigner_new :: "('u, 'b) s3 \<Rightarrow> r2_config \<Rightarrow> r2_presigner option" where
  "r2_presigner_new S cfg =
    (case parse_url S (r2_endpoint cfg) of None \<Rightarrow> None
     | Some endpoint \<Rightarrow> (case bucket_new S endpoint Path (rc_bucket cfg) ''auto'' of None \<Rightarrow> None
        | Some bucket \<Rightarrow>
           (let creds = (rc_access_key_id cfg, rc_secret_access_key cfg)
            in Some \<lparr>presign_put = sign_put S bucket creds, presign_get = sign_get S bucket creds\<rparr>)))"

text \<open>
  The crate \<open>a2\<close>: the client for a key, a key id, a team and an end point, whose answer may differ from one
  notification to the next.
\<close>

datatype apns_endpoint = Sandbox | Production

type_synonym a2_client = "nat \<Rightarrow> notification \<Rightarrow> apns_reply"

definition apns_sender_new ::
  "(string \<Rightarrow> string \<Rightarrow> string \<Rightarrow> apns_endpoint \<Rightarrow> a2_client option) \<Rightarrow> apns_config \<Rightarrow> (nat \<Rightarrow> apns_sender) option" where
  "apns_sender_new token_client cfg =
    (let mk = token_client (ac_key_p8 cfg) (ac_key_id cfg) (ac_team_id cfg) in
     case mk Sandbox of None \<Rightarrow> None
     | Some sandbox \<Rightarrow> (case mk Production of None \<Rightarrow> None
        | Some production \<Rightarrow> Some (\<lambda>n. \<lparr>as_sandbox = sandbox n, as_production = production n,
            as_topic = ac_topic cfg, as_voip_topic = ac_voip_topic cfg\<rparr>)))"

section \<open>main\<close>

text \<open>
  What \<open>main\<close> finds outside: \<open>dsn_parses\<close> whether the text is a DSN (\<open>sentry::init\<close> panics if it is not),
  \<open>connects\<close> whether \<open>Store::connect\<close> opens a pool and migrates, \<open>http_bounded\<close> and \<open>http_default\<close> whether the HTTP
  client can be built with time-outs and without (\<open>reqwest::Client::new\<close> panics if it cannot), \<open>listens\<close> whether
  the port can be bound. \<open>base\<close> holds the libraries that are part of an \<open>app\<close> and do not depend on the configuration.
\<close>

record ('u, 'b) outside =
  base :: app
  dsn_parses :: "string \<Rightarrow> bool"
  connects :: "string \<Rightarrow> bool"
  http_bounded :: bool
  http_default :: bool
  listens :: "u16 \<Rightarrow> bool"
  s3 :: "('u, 'b) s3"
  a2_lib :: a2
  token_client :: "string \<Rightarrow> string \<Rightarrow> string \<Rightarrow> apns_endpoint \<Rightarrow> a2_client option"

definition app_state :: "('u, 'b) outside \<Rightarrow> server_config \<Rightarrow> bool \<Rightarrow> app" where
  "app_state X cfg stored = (base X)\<lparr>has_store := stored,
     r2 := (case sc_r2 cfg of None \<Rightarrow> None | Some c \<Rightarrow> r2_presigner_new (s3 X) c),
     push := (case sc_apns cfg of None \<Rightarrow> None
       | Some c \<Rightarrow> map_option (\<lambda>S n. apns_send (a2_lib X) (S n)) (apns_sender_new (token_client X) c)),
     turn := sc_turn cfg\<rparr>"

text \<open>\<open>None\<close> is an error or a panic of \<open>main\<close>; otherwise the state the routes are served with, and the port.\<close>

definition server_main :: "('u, 'b) outside \<Rightarrow> environment \<Rightarrow> (app \<times> u16) option" where
  "server_main X env =
    (let cfg = from_env env in
     if (case sc_sentry cfg of None \<Rightarrow> False | Some sc \<Rightarrow> \<not> dsn_parses X (se_dsn sc)) then None
     else (let store = (case sc_database_url cfg of None \<Rightarrow> Some False
                 | Some url \<Rightarrow> if connects X url then Some True else None)
       in case store of None \<Rightarrow> None
          | Some stored \<Rightarrow>
             if \<not> http_bounded X \<and> \<not> http_default X then None
             else if listens X (sc_port cfg) then Some (app_state X cfg stored, sc_port cfg) else None))"

section \<open>Static pages\<close>

definition health :: string where
  "health = ''ok''"

text \<open>The only function of \<open>lib.rs\<close>.\<close>

definition placeholder :: string where
  "placeholder = ''littlelove-api''"

definition APP_ID :: string where
  "APP_ID = ''9PVUX2535W.dev.littlelove.littlelove''"

text \<open>The content type and the JSON that is printed.\<close>

definition apple_app_site_association :: "string \<times> json" where
  "apple_app_site_association = (''application/json'', JObject [(''applinks'', JObject [(''details'', JArray [JObject
     [(''appIDs'', JArray [JString APP_ID]),
      (''components'', JArray [JObject [(''/'', JString ''/pair/*''), (''comment'', JString ''partner pairing links'')]])]])])])"

definition pair_landing :: "string \<Rightarrow> string" where
  \<open>pair_landing token =
    ''<!doctype html><html><head><meta charset="utf-8">'' @
    ''<meta name="viewport" content="width=device-width, initial-scale=1">'' @
    ''<title>Open in LittleLove</title></head>'' @
    ''<body style="font-family:-apple-system,sans-serif;text-align:center;padding:48px">'' @
    ''<h1>LittleLove</h1>'' @
    ''<p>Open this invite in the LittleLove app.</p>'' @
    ''<p>Don't have it yet? Install LittleLove, then tap the link again.</p>'' @
    ''</body></html>''\<close>

section \<open>Properties\<close>

text \<open>A required variable: set, and not empty.\<close>

definition provided :: "environment \<Rightarrow> string \<Rightarrow> bool" where
  "provided env k \<longleftrightarrow> env k \<notin> {None, Some []}"

lemma provided_iff: "provided env k \<longleftrightarrow> (\<exists>v. non_empty env k = Some v)"
  using non_empty_None_iff [of env k] by (auto simp: provided_def)

lemma non_empty_provided: "provided env k \<Longrightarrow> non_empty env k = Some (the (env k))"
  by (auto simp: provided_def non_empty_def split: option.splits)

lemma non_empty_eq: "non_empty env k = (if provided env k then Some (the (env k)) else None)"
  using provided_iff [of env k] by (auto simp: non_empty_provided)

lemma r2_from_env_provided:
  "r2_from_env env =
    (if provided env ''R2_ACCOUNT_ID'' \<and> provided env ''R2_BUCKET'' \<and> provided env ''R2_ACCESS_KEY_ID'' \<and>
        provided env ''R2_SECRET_ACCESS_KEY''
     then Some \<lparr>rc_account_id = the (env ''R2_ACCOUNT_ID''), rc_bucket = the (env ''R2_BUCKET''),
       rc_access_key_id = the (env ''R2_ACCESS_KEY_ID''), rc_secret_access_key = the (env ''R2_SECRET_ACCESS_KEY''),
       rc_endpoint = (if provided env ''R2_ENDPOINT'' then Some (the (env ''R2_ENDPOINT'')) else None)\<rparr>
     else None)"
  unfolding r2_from_env_def non_empty_eq by simp

lemma apns_from_env_provided:
  "apns_from_env env \<noteq> None \<longleftrightarrow> provided env ''APNS_TOPIC'' \<and> provided env ''APNS_KEY_P8'' \<and>
     provided env ''APNS_KEY_ID'' \<and> provided env ''APNS_TEAM_ID''"
  "apns_from_env env = Some c \<Longrightarrow> ac_key_p8 c = the (env ''APNS_KEY_P8'') \<and> ac_key_id c = the (env ''APNS_KEY_ID'') \<and>
     ac_team_id c = the (env ''APNS_TEAM_ID'')"
  by (auto simp: apns_from_env_def Let_def provided_iff non_empty_def split: option.splits if_splits)

lemma turn_from_env_provided:
  "turn_from_env env \<noteq> None \<longleftrightarrow> provided env ''TURN_KEY_ID'' \<and> provided env ''TURN_API_TOKEN''"
  by (auto simp: turn_from_env_def provided_iff split: option.splits)

lemma bind_if: "Option.bind (if b then Some c else None) f \<noteq> None \<longleftrightarrow> b \<and> f c \<noteq> None"
  by simp

lemma presigner_built:
  "r2_presigner_new S c \<noteq> None \<longleftrightarrow>
     (\<exists>u. parse_url S (r2_endpoint c) = Some u \<and> bucket_new S u Path (rc_bucket c) ''auto'' \<noteq> None)"
  by (auto simp: r2_presigner_new_def Let_def split: option.splits)

lemma sender_built:
  "apns_sender_new mk c \<noteq> None \<longleftrightarrow> (\<forall>e. mk (ac_key_p8 c) (ac_key_id c) (ac_team_id c) e \<noteq> None)"
proof -
  have "(\<forall>e. f e \<noteq> None) \<longleftrightarrow> f Sandbox \<noteq> None \<and> f Production \<noteq> None" for f :: "apns_endpoint \<Rightarrow> a2_client option"
    by (metis apns_endpoint.exhaust)
  then show ?thesis
    by (auto simp: apns_sender_new_def Let_def split: option.splits)
qed

lemma app_state_features:
  "has_store (app_state X cfg stored) = stored" "turn (app_state X cfg stored) = sc_turn cfg"
  "r2 (app_state X cfg stored) = Option.bind (sc_r2 cfg) (r2_presigner_new (s3 X))"
  "push (app_state X cfg stored) = Option.bind (sc_apns cfg)
     (\<lambda>c. map_option (\<lambda>S n. apns_send (a2_lib X) (S n)) (apns_sender_new (token_client X) c))"
  by (simp_all add: app_state_def split: option.split)

lemma sentry_from_env_provided:
  "sentry_from_env env \<noteq> None \<longleftrightarrow> provided env ''SENTRY_DSN''"
  "sentry_from_env env = Some sc \<Longrightarrow> se_dsn sc = the (env ''SENTRY_DSN'')"
  by (auto simp: sentry_from_env_def non_empty_eq split: option.splits if_splits)

lemma server_main_None_iff:
  "server_main X env = None \<longleftrightarrow>
     (provided env ''SENTRY_DSN'' \<and> \<not> dsn_parses X (the (env ''SENTRY_DSN''))) \<or>
     (provided env ''DATABASE_URL'' \<and> \<not> connects X (the (env ''DATABASE_URL''))) \<or>
     (\<not> http_bounded X \<and> \<not> http_default X) \<or> \<not> listens X (sc_port (from_env env))"
proof -
  have "sc_sentry (from_env env) = sentry_from_env env" "sc_database_url (from_env env) = non_empty env ''DATABASE_URL''"
    by (simp_all add: from_env_def)
  then show ?thesis
    using sentry_from_env_provided [of env]
    by (cases "sentry_from_env env"; cases "provided env ''DATABASE_URL''") (auto simp: server_main_def Let_def non_empty_eq)
qed

lemma server_main_SomeD:
  "server_main X env = Some (A, port) \<Longrightarrow> A = app_state X (from_env env) (provided env ''DATABASE_URL'') \<and> port = sc_port (from_env env)"
  using provided_iff [of env "''DATABASE_URL''"]
  by (auto simp: server_main_def Let_def from_env_def split: option.splits if_splits)

text \<open>
  C38. Start-up fails for four reasons only: a DSN that is set and cannot be parsed, a database that is named
  and cannot be reached, an HTTP client that cannot be built even without time-outs, and a port that cannot be
  bound. Everything else degrades: the server that starts has a store exactly when a database is named,
  attachments exactly when all R2 variables are set and the end point and the bucket are usable, pushes
  exactly when all APNs variables are set and both clients can be built, TURN credentials exactly when both of
  its variables are set.
\<close>

theorem startup_degrades:
  "(server_main X env = None \<longleftrightarrow>
     (provided env ''SENTRY_DSN'' \<and> \<not> dsn_parses X (the (env ''SENTRY_DSN''))) \<or>
     (provided env ''DATABASE_URL'' \<and> \<not> connects X (the (env ''DATABASE_URL''))) \<or>
     (\<not> http_bounded X \<and> \<not> http_default X) \<or> \<not> listens X (sc_port (from_env env))) \<and>
   (\<forall>A port. server_main X env = Some (A, port) \<longrightarrow>
      (has_store A \<longleftrightarrow> provided env ''DATABASE_URL'') \<and>
      (r2 A \<noteq> None \<longleftrightarrow> provided env ''R2_ACCOUNT_ID'' \<and> provided env ''R2_BUCKET'' \<and>
         provided env ''R2_ACCESS_KEY_ID'' \<and> provided env ''R2_SECRET_ACCESS_KEY'' \<and>
         (\<exists>u. parse_url (s3 X) (if provided env ''R2_ENDPOINT'' then the (env ''R2_ENDPOINT'')
              else ''https://'' @ the (env ''R2_ACCOUNT_ID'') @ ''.r2.cloudflarestorage.com'') = Some u \<and>
            bucket_new (s3 X) u Path (the (env ''R2_BUCKET'')) ''auto'' \<noteq> None)) \<and>
      (push A \<noteq> None \<longleftrightarrow> provided env ''APNS_TOPIC'' \<and> provided env ''APNS_KEY_P8'' \<and>
         provided env ''APNS_KEY_ID'' \<and> provided env ''APNS_TEAM_ID'' \<and>
         (\<forall>e. token_client X (the (env ''APNS_KEY_P8'')) (the (env ''APNS_KEY_ID'')) (the (env ''APNS_TEAM_ID'')) e \<noteq> None)) \<and>
      (turn A \<noteq> None \<longleftrightarrow> provided env ''TURN_KEY_ID'' \<and> provided env ''TURN_API_TOKEN''))"
proof -
  let ?st = "\<lambda>stored. app_state X (from_env env) stored"
  have cfg: "sc_r2 (from_env env) = r2_from_env env" "sc_apns (from_env env) = apns_from_env env"
    "sc_turn (from_env env) = turn_from_env env"
    by (simp_all add: from_env_def)
  have r2: "r2 (?st b) \<noteq> None \<longleftrightarrow> provided env ''R2_ACCOUNT_ID'' \<and> provided env ''R2_BUCKET'' \<and>
      provided env ''R2_ACCESS_KEY_ID'' \<and> provided env ''R2_SECRET_ACCESS_KEY'' \<and>
      (\<exists>u. parse_url (s3 X) (if provided env ''R2_ENDPOINT'' then the (env ''R2_ENDPOINT'')
           else ''https://'' @ the (env ''R2_ACCOUNT_ID'') @ ''.r2.cloudflarestorage.com'') = Some u \<and>
         bucket_new (s3 X) u Path (the (env ''R2_BUCKET'')) ''auto'' \<noteq> None)" for b
    unfolding app_state_features cfg r2_from_env_provided bind_if presigner_built
    by (simp add: r2_endpoint_def or_else_def)
  have push: "push (?st b) \<noteq> None \<longleftrightarrow> provided env ''APNS_TOPIC'' \<and> provided env ''APNS_KEY_P8'' \<and>
      provided env ''APNS_KEY_ID'' \<and> provided env ''APNS_TEAM_ID'' \<and>
      (\<forall>e. token_client X (the (env ''APNS_KEY_P8'')) (the (env ''APNS_KEY_ID'')) (the (env ''APNS_TEAM_ID'')) e \<noteq> None)" for b
  proof (cases "apns_from_env env")
    case None
    then show ?thesis
      using apns_from_env_provided(1) [of env] unfolding app_state_features cfg by auto
  next
    case (Some c)
    then show ?thesis
      using apns_from_env_provided(1) [of env] apns_from_env_provided(2) [OF Some] sender_built [of "token_client X" c]
      unfolding app_state_features cfg by auto
  qed
  have turn: "turn (?st b) \<noteq> None \<longleftrightarrow> provided env ''TURN_KEY_ID'' \<and> provided env ''TURN_API_TOKEN''" for b
    unfolding app_state_features cfg by (rule turn_from_env_provided)
  have running: "A = ?st (provided env ''DATABASE_URL'')" if "server_main X env = Some (A, port)" for A port
    using server_main_SomeD [OF that] by blast
  show ?thesis
    by (intro conjI allI impI server_main_None_iff; drule running; simp only: app_state_features(1) r2 push turn)
qed

text \<open>An outside in which everything works.\<close>

definition sample_outside :: "(string, string) outside" where
  "sample_outside = \<lparr>base = sample_app, dsn_parses = (\<lambda>dsn. True), connects = (\<lambda>url. True), http_bounded = True,
     http_default = True, listens = (\<lambda>p. True),
     s3 = \<lparr>parse_url = Some, bucket_new = (\<lambda>u style b region. Some (u @ ''/'' @ b)),
       sign_put = (\<lambda>b creds key ttl. b @ ''/'' @ key), sign_get = (\<lambda>b creds key ttl. b @ ''/'' @ key)\<rparr>,
     a2_lib = \<lparr>a2_collapse_id = Some, a2_custom_ok = (\<lambda>k v. True)\<rparr>,
     token_client = (\<lambda>p8 key team e. Some (\<lambda>n msg. ApnsOk 200))\<rparr>"

definition sample_environment :: environment where
  "sample_environment = [''R2_ACCOUNT_ID'' \<mapsto> ''acct'', ''R2_BUCKET'' \<mapsto> ''media'', ''R2_ACCESS_KEY_ID'' \<mapsto> ''key'',
     ''R2_SECRET_ACCESS_KEY'' \<mapsto> ''secret'', ''TURN_KEY_ID'' \<mapsto> ''turn'']"

lemma sample_start: "\<exists>A port. server_main sample_outside sample_environment = Some (A, port)"
  using server_main_None_iff [of sample_outside sample_environment]
  by (auto simp: sample_outside_def)

theorem startup_degrades_witness:
  "\<exists>A port. server_main sample_outside sample_environment = Some (A, port) \<and> \<not> has_store A \<and> r2 A \<noteq> None \<and>
     push A = None \<and> turn A = None"
proof -
  obtain A port where "server_main sample_outside sample_environment = Some (A, port)"
    using sample_start by blast
  with startup_degrades [of sample_outside sample_environment] show ?thesis
    by (auto simp: provided_def sample_environment_def) (auto simp: sample_outside_def)
qed

text \<open>
  C39. Without a database nobody gets in: a server that was started without \<open>DATABASE_URL\<close> rejects every
  handshake, answers every account, lookup and preview request with a server error, and changes nothing.
\<close>

theorem no_database_no_service:
  assumes "server_main X env = Some (A, port)" and "\<not> provided env ''DATABASE_URL''"
  shows "fst (fst (handshake A nonce s w)) = None \<and> snd (handshake A nonce s w) = w
    \<and> create_account A req w = ((500, Plain ''store unavailable''), w)
    \<and> get_account_by_username A u w = ((500, Plain ''store unavailable''), w)
    \<and> preview_invite A now code w = ((500, Plain ''store unavailable''), w)"
proof -
  have store: "\<not> has_store A"
    using server_main_SomeD [OF assms(1)] assms(2) by (simp add: app_state_features)
  then have "authenticate A nonce raw s' w = ((None, close_auth_failed s'), w)" for raw s'
    by (simp add: authenticate_def Let_def split: option.split auth_client_frame.split)
  then have "fst (fst (handshake A nonce s w)) = None \<and> snd (handshake A nonce s w) = w"
    by (auto simp: handshake_def split: option.split prod.split ws_message.split)
  then show ?thesis
    using store by (simp add: create_account_def get_account_by_username_def preview_invite_def)
qed

theorem no_database_no_service_witness:
  "\<exists>A port. server_main sample_outside sample_environment = Some (A, port) \<and>
     fst (fst (handshake A signed_nonce signed_socket signed_world)) = None"
proof -
  obtain A port where start: "server_main sample_outside sample_environment = Some (A, port)"
    using sample_start by blast
  then show ?thesis
    using no_database_no_service [OF start] by (auto simp: provided_def sample_environment_def)
qed

end
