(* ===== verification/Seed.thy ===== *)
theory Seed
  imports Pairing
begin

text \<open>
  The development tool \<open>server/src/bin/seed_couple.rs\<close>: it makes sure that the accounts \<open>court\<close> and \<open>kaitlyn\<close> exist
  with the keys of a fixture, are partners and share a room, in a local database only. The fixture is the map
  read from its file, or nothing when it cannot be read.
\<close>

type_synonym fixture = "string \<rightharpoonup> string \<times> string"

datatype seed_error = Not_local | No_fixture | Missing_user string | Bad_pubkey | Pair_failed | Db_failed db_error

type_synonym 'a seeding = "db \<Rightarrow> (seed_error + 'a) \<times> db"

definition seed_return :: "'a \<Rightarrow> 'a seeding" where
  "seed_return x d = (Inr x, d)"

definition seed_fail :: "seed_error \<Rightarrow> 'a seeding" where
  "seed_fail e d = (Inl e, d)"

definition seed_then :: "'a seeding \<Rightarrow> ('a \<Rightarrow> 'b seeding) \<Rightarrow> 'b seeding" where
  "seed_then q k d = (case q d of (Inl e, d') \<Rightarrow> (Inl e, d') | (Inr x, d') \<Rightarrow> k x d')"

definition run_sql :: "'a sql \<Rightarrow> 'a seeding" where
  "run_sql q d = (case q d of (Inl e, d') \<Rightarrow> (Inl (Db_failed e), d') | (Inr x, d') \<Rightarrow> (Inr x, d'))"

text \<open>\<open>db_url.contains(needle)\<close>.\<close>

definition contains :: "string \<Rightarrow> string \<Rightarrow> bool" where
  "contains needle s = list_ex (\<lambda>k. take (length needle) (drop k s) = needle) [0..<Suc (length s)]"

text \<open>
  \<open>INSERT ... ON CONFLICT (username) DO UPDATE ... RETURNING id\<close>. The sequence advances in either case.
\<close>

definition upsert_account :: "string \<Rightarrow> bytes \<Rightarrow> bytes \<Rightarrow> account_id sql" where
  "upsert_account u ed x d =
    (case account_by_name u d of
       Some a \<Rightarrow> (Inr (acc_id a), d\<lparr>accounts_id_seq := accounts_id_seq d + 1,
         accounts := update_where (\<lambda>r. acc_username r = u)
           (\<lambda>r. r\<lparr>acc_ed25519_pub := ed, acc_x25519_pub := x\<rparr>) (accounts d)\<rparr>)
     | None \<Rightarrow> (case insert_account u ed x d of (Inl e, d') \<Rightarrow> (Inl e, d')
        | (Inr _, d') \<Rightarrow> (Inr (accounts_id_seq d), d')))"

text \<open>One turn of the loop over the two names.\<close>

definition seed_user :: "crates \<Rightarrow> fixture \<Rightarrow> string \<Rightarrow> account_id seeding" where
  "seed_user C fx u =
    (case fx u of None \<Rightarrow> seed_fail (Missing_user u)
     | Some (ed64, x64) \<Rightarrow> (case decode_pubkey C ed64 of None \<Rightarrow> seed_fail Bad_pubkey
        | Some ed \<Rightarrow> (case decode_pubkey C x64 of None \<Rightarrow> seed_fail Bad_pubkey
           | Some x \<Rightarrow> run_sql (upsert_account u ed x))))"

text \<open>
  The query for a room of both. It has \<open>LIMIT 1\<close> and no order, so Postgres may return any of them; the first in the
  order of the member table is one such answer.
\<close>

definition shared_room :: "account_id \<Rightarrow> account_id \<Rightarrow> string option sql" where
  "shared_room a b = sql_read (\<lambda>d. map_option mb_room_id
     (find_first (\<lambda>m. in_room (mb_room_id m) a d \<and> in_room (mb_room_id m) b d) (room_members d)))"

definition seed_link :: "account_id \<Rightarrow> account_id \<Rightarrow> unit seeding" where
  "seed_link a b = seed_then (run_sql (set_partner_link a b))
     (\<lambda>r. case r of Inl WrongPartner \<Rightarrow> seed_fail Pair_failed | Inr _ \<Rightarrow> seed_return ())"

definition seed_room :: "string \<Rightarrow> account_id \<Rightarrow> account_id \<Rightarrow> string seeding" where
  "seed_room rid a b = seed_then (run_sql (shared_room a b))
     (\<lambda>r. case r of Some room \<Rightarrow> seed_return room
      | None \<Rightarrow> run_sql (create_room_with_members rid a (Some b) []))"

definition seed_couple :: "crates \<Rightarrow> string \<Rightarrow> fixture option \<Rightarrow> string \<Rightarrow> string seeding" where
  "seed_couple C url fixture rid =
    (if \<not> (contains ''127.0.0.1'' url \<or> contains ''localhost'' url) then seed_fail Not_local
     else (case fixture of None \<Rightarrow> seed_fail No_fixture
       | Some fx \<Rightarrow>
          seed_then (seed_user C fx ''court'') (\<lambda>court.
          seed_then (seed_user C fx ''kaitlyn'') (\<lambda>kaitlyn.
          seed_then (seed_link court kaitlyn) (\<lambda>_. seed_room rid court kaitlyn)))))"

section \<open>What a run leaves\<close>

lemma run_sql_Inr: "run_sql q d = (Inr x, d') \<longleftrightarrow> q d = (Inr x, d')"
  by (auto simp: run_sql_def split: prod.splits sum.splits)

lemma seed_then_Inr: "seed_then q k d = (Inr y, d') \<longleftrightarrow> (\<exists>x d1. q d = (Inr x, d1) \<and> k x d1 = (Inr y, d'))"
  by (auto simp: seed_then_def split: prod.splits sum.splits)

lemma keeps_pairing_upsert: "keeps pairing_ok (upsert_account u ed x)"
proof (rule keepsI)
  fix d assume ok: "pairing_ok d"
  show "pairing_ok (snd (upsert_account u ed x d))"
  proof (cases "account_by_name u d")
    case None
    have "keeps pairing_ok (insert_account u ed x)"
      by (intro keeps_pairing links_frame_insert_account keeps_insert_account)
    then show ?thesis
      using ok None by (auto simp: upsert_account_def keeps_def split: prod.split sum.split)
  next
    case (Some a)
    let ?d = "snd (upsert_account u ed x d)"
    have d: "?d = d\<lparr>accounts_id_seq := accounts_id_seq d + 1, accounts := update_where (\<lambda>r. acc_username r = u)
        (\<lambda>r. r\<lparr>acc_ed25519_pub := ed, acc_x25519_pub := x\<rparr>) (accounts d)\<rparr>"
      using Some by (simp add: upsert_account_def)
    have cols: "map acc_id (accounts ?d) = map acc_id (accounts d)"
      "map acc_username (accounts ?d) = map acc_username (accounts d)"
      by (simp_all add: d map_update_where)
    have links: "partner_of ?d = partner_of d"
      by (rule ext) (simp add: partner_of_def d map_update_where)
    have ids: "account_ids ?d = account_ids d"
      unfolding account_ids_def by (metis cols(1) image_set)
    have "accounts_ok d"
      using ok by (simp add: pairing_ok_def schema_ok_def)
    from accounts_ok_columns [OF this cols links] have "accounts_ok ?d" .
    then show ?thesis
      using ok ids links_symmetric_cong [OF links] unfolding pairing_ok_def schema_ok_def
      by (simp add: d room_ids_def rooms_ok_def members_ok_def invites_ok_def messages_ok_def attachments_ok_def
          tokens_ok_def profiles_ok_def)
  qed
qed

text \<open>After an upsert the account has the keys; nothing else of the accounts and rooms has changed.\<close>

lemma upsert_account_Inr:
  assumes "upsert_account u ed x d = (Inr i, d')"
  shows "\<exists>a. account_by_name u d' = Some a \<and> acc_id a = i \<and> acc_ed25519_pub a = ed \<and> acc_x25519_pub a = x"
    and "v \<noteq> u \<Longrightarrow> account_by_name v d' = account_by_name v d"
    and "room_members d' = room_members d"
proof -
  show "\<exists>a. account_by_name u d' = Some a \<and> acc_id a = i \<and> acc_ed25519_pub a = ed \<and> acc_x25519_pub a = x"
    using assms
    by (auto simp: upsert_account_def insert_account_cases account_by_name_def find_first_append
        find_first_update_where split: option.splits if_splits dest: find_first_SomeD)
  show "account_by_name v d' = account_by_name v d" if "v \<noteq> u"
  proof -
    have "map_option (\<lambda>r. if acc_username r = u then f r else r) (find_first (\<lambda>a. acc_username a = v) as) =
        find_first (\<lambda>a. acc_username a = v) as" for f as
      using that by (induction as) auto
    then show ?thesis
      using assms that
      by (auto simp: upsert_account_def insert_account_cases account_by_name_def find_first_append
          find_first_update_where split: option.splits if_splits)
  qed
  show "room_members d' = room_members d"
    using assms by (auto simp: upsert_account_def insert_account_cases split: option.splits if_splits)
qed

lemma create_room_Inr:
  assumes "create_room_with_members rid a (Some b) nm d = (Inr r, d')"
  shows "r = rid \<and> in_room rid a d' \<and> in_room rid b d' \<and> accounts d' = accounts d"
  using assms
  by (auto simp: create_room_with_members_def transaction_def sql_then_def insert_room_def insert_member_def
      in_room_def split: if_splits)

definition has_fixture_keys :: "crates \<Rightarrow> fixture \<Rightarrow> string \<Rightarrow> account_row \<Rightarrow> bool" where
  "has_fixture_keys C fx u a \<longleftrightarrow> (\<exists>e x. fx u = Some (e, x) \<and> decode_pubkey C e = Some (acc_ed25519_pub a) \<and>
     decode_pubkey C x = Some (acc_x25519_pub a))"

text \<open>The couple of the fixture is there, linked, and shares the room \<open>r\<close>.\<close>

definition seeded :: "crates \<Rightarrow> fixture \<Rightarrow> string \<Rightarrow> db \<Rightarrow> bool" where
  "seeded C fx r d \<longleftrightarrow> (\<exists>c k. account_by_name ''court'' d = Some c \<and> account_by_name ''kaitlyn'' d = Some k \<and>
     has_fixture_keys C fx ''court'' c \<and> has_fixture_keys C fx ''kaitlyn'' k \<and>
     partner_of d (acc_id c) = Some (acc_id k) \<and> partner_of d (acc_id k) = Some (acc_id c) \<and>
     in_room r (acc_id c) d \<and> in_room r (acc_id k) d)"

lemma seed_user_Inr:
  assumes "seed_user C fx u d = (Inr i, d')"
  obtains e64 x64 ed x where "fx u = Some (e64, x64)" "decode_pubkey C e64 = Some ed" "decode_pubkey C x64 = Some x"
    "upsert_account u ed x d = (Inr i, d')"
  using assms by (auto simp: seed_user_def seed_fail_def run_sql_Inr split: option.splits prod.splits)

lemma seed_user_leaves:
  assumes "seed_user C fx u d = (Inr i, d')" and "pairing_ok d"
  shows "pairing_ok d'" and "\<exists>a. account_by_name u d' = Some a \<and> acc_id a = i \<and> has_fixture_keys C fx u a"
    and "v \<noteq> u \<Longrightarrow> account_by_name v d' = account_by_name v d"
proof -
  obtain e64 x64 ed x where k: "fx u = Some (e64, x64)" "decode_pubkey C e64 = Some ed" "decode_pubkey C x64 = Some x"
    and up: "upsert_account u ed x d = (Inr i, d')"
    using seed_user_Inr [OF assms(1)] .
  show "pairing_ok d'"
    using keepsD [OF keeps_pairing_upsert assms(2), of u ed x] up by simp
  show "\<exists>a. account_by_name u d' = Some a \<and> acc_id a = i \<and> has_fixture_keys C fx u a"
    using upsert_account_Inr(1) [OF up] k by (auto simp: has_fixture_keys_def)
  show "v \<noteq> u \<Longrightarrow> account_by_name v d' = account_by_name v d"
    by (rule upsert_account_Inr(2) [OF up])
qed

lemma name_link_both:
  assumes "account_by_name u d = Some a" and "has_fixture_keys C fx u a"
  shows "\<exists>a'. account_by_name u (link_both i j d) = Some a' \<and> acc_id a' = acc_id a \<and> has_fixture_keys C fx u a'"
proof -
  have "find_first (\<lambda>r. acc_username r = u) as = Some a \<Longrightarrow>
      find_first (\<lambda>r. acc_username r = u) (map (\<lambda>r. r\<lparr>acc_partner_account_id := g r\<rparr>) as) =
        Some (a\<lparr>acc_partner_account_id := g a\<rparr>)" for g as
    by (induction as) (auto split: if_splits)
  moreover have "accounts (link_both i j d) = map (\<lambda>r. r\<lparr>acc_partner_account_id :=
      (if acc_id r = i then Some j else if acc_id r = j then Some i else acc_partner_account_id r)\<rparr>) (accounts d)"
    by (auto simp: link_both_def)
  ultimately show ?thesis
    using assms by (simp add: account_by_name_def has_fixture_keys_def)
qed

lemma seed_link_leaves:
  assumes "seed_link c k d = (Inr u, d')" and "pairing_ok d"
  shows "pairing_ok d' \<and> partner_of d' c = Some k \<and> partner_of d' k = Some c \<and> (d' = d \<or> d' = link_both c k d)"
proof -
  have acc: "accounts_ok d" and sym: "links_symmetric d"
    using assms(2) by (auto simp: pairing_ok_def schema_ok_def)
  obtain o' d1 where o: "set_partner_link c k d = (Inr o', d1)"
      "(case o' of Inl WrongPartner \<Rightarrow> seed_fail Pair_failed | Inr _ \<Rightarrow> seed_return ()) d1 = (Inr u, d')"
    using assms(1) by (auto simp: seed_link_def seed_then_Inr run_sql_Inr)
  then have link: "set_partner_link c k d = (Inr (Inr ()), d')"
    by (cases o') (auto simp: seed_return_def seed_fail_def split: monogamy_error.splits)
  have "pairing_ok d'"
    by (rule keepsD [OF keeps_pairing_set_partner_link assms(2) link])
  then show ?thesis
    using link set_partner_link_eq [OF acc sym, of c k] links_symmetricD [OF sym, of c k] partner_of_link_both [of c d k]
    by (auto split: if_splits)
qed

lemma seed_room_leaves:
  assumes "seed_room rid c k d = (Inr r, d')" and "pairing_ok d"
  shows "pairing_ok d' \<and> partner_of d' = partner_of d \<and> accounts d' = accounts d \<and> in_room r c d' \<and> in_room r k d'"
proof (cases "find_first (\<lambda>m. in_room (mb_room_id m) c d \<and> in_room (mb_room_id m) k d) (room_members d)")
  case None
  then have make: "create_room_with_members rid c (Some k) [] d = (Inr r, d')"
    using assms(1) by (simp add: seed_room_def seed_then_Inr run_sql_Inr shared_room_def)
  have kept: "keeps pairing_ok (create_room_with_members rid c (Some k) [])"
    by (intro keeps_pairing keeps_create_room links_frame_create_room) auto
  from keepsD [OF kept assms(2) make] show ?thesis
    using create_room_Inr [OF make] by (auto simp: partner_of_def fun_eq_iff)
next
  case (Some m)
  then have "d' = d" "r = mb_room_id m"
    using assms(1) by (auto simp: seed_room_def seed_then_Inr run_sql_Inr shared_room_def seed_return_def)
  then show ?thesis
    using Some assms(2) by (auto dest: find_first_SomeD)
qed

lemma seed_leaves:
  assumes "pairing_ok d" and "seed_couple C url (Some fx) rid d = (Inr r, d')"
  shows "pairing_ok d' \<and> seeded C fx r d'"
proof -
  obtain c d1 k d2 u d3 where steps: "seed_user C fx ''court'' d = (Inr c, d1)" "seed_user C fx ''kaitlyn'' d1 = (Inr k, d2)"
    "seed_link c k d2 = (Inr u, d3)" "seed_room rid c k d3 = (Inr r, d')"
    using assms(2) by (auto simp: seed_couple_def seed_then_Inr seed_fail_def split: if_splits)
  note court = seed_user_leaves [OF steps(1) assms(1)]
  note kaitlyn = seed_user_leaves [OF steps(2) court(1)]
  note link = seed_link_leaves [OF steps(3) kaitlyn(1)]
  note room = seed_room_leaves [OF steps(4) link [THEN conjunct1]]
  have name: "\<exists>a. account_by_name v d' = Some a \<and> acc_id a = i \<and> has_fixture_keys C fx v a"
    if "\<exists>a. account_by_name v d2 = Some a \<and> acc_id a = i \<and> has_fixture_keys C fx v a" for v i
    using that link room name_link_both [of v d2 _ C fx c k] by (fastforce simp: account_by_name_def)
  have "\<exists>a. account_by_name ''court'' d' = Some a \<and> acc_id a = c \<and> has_fixture_keys C fx ''court'' a"
    using court(2) kaitlyn(3) [of "''court''"] by (intro name) simp
  moreover have "\<exists>a. account_by_name ''kaitlyn'' d' = Some a \<and> acc_id a = k \<and> has_fixture_keys C fx ''kaitlyn'' a"
    using kaitlyn(2) by (rule name)
  ultimately show ?thesis
    using link room by (auto simp: seeded_def)
qed

section \<open>Running it again\<close>

lemma upsert_account_same:
  assumes "accounts_ok d" and "account_by_name u d = Some a" and "acc_ed25519_pub a = ed" and "acc_x25519_pub a = x"
  shows "upsert_account u ed x d = (Inr (acc_id a), d\<lparr>accounts_id_seq := accounts_id_seq d + 1\<rparr>)"
proof -
  have only: "r = a" if "r \<in> set (accounts d)" "acc_username r = u" for r
    using that account_by_name_SomeD [OF assms(2)] accounts_ok_distinct(2) [OF assms(1)]
    by (auto simp: distinct_map dest: inj_onD)
  have "update_where (\<lambda>r. acc_username r = u) (\<lambda>r. r\<lparr>acc_ed25519_pub := ed, acc_x25519_pub := x\<rparr>) (accounts d) = accounts d"
    unfolding update_where_def using only assms(3,4) by (intro map_idI) auto
  then show ?thesis
    using assms(2) by (simp add: upsert_account_def)
qed

lemma seed_user_again:
  assumes "pairing_ok d" and "account_by_name u d = Some a" and "has_fixture_keys C fx u a"
  shows "seed_user C fx u d = (Inr (acc_id a), d\<lparr>accounts_id_seq := accounts_id_seq d + 1\<rparr>)"
    and "pairing_ok (d\<lparr>accounts_id_seq := accounts_id_seq d + 1\<rparr>)"
proof -
  have acc: "accounts_ok d"
    using assms(1) by (simp add: pairing_ok_def schema_ok_def)
  have up: "upsert_account u (acc_ed25519_pub a) (acc_x25519_pub a) d = (Inr (acc_id a), d\<lparr>accounts_id_seq := accounts_id_seq d + 1\<rparr>)"
    by (rule upsert_account_same [OF acc assms(2)]) simp_all
  then show "seed_user C fx u d = (Inr (acc_id a), d\<lparr>accounts_id_seq := accounts_id_seq d + 1\<rparr>)"
    using assms(3) by (auto simp: has_fixture_keys_def seed_user_def run_sql_def)
  show "pairing_ok (d\<lparr>accounts_id_seq := accounts_id_seq d + 1\<rparr>)"
    by (rule keepsD [OF keeps_pairing_upsert assms(1) up])
qed

lemma seed_again:
  assumes ok: "pairing_ok d" and seeded: "seeded C fx r d"
    and url: "contains ''127.0.0.1'' url \<or> contains ''localhost'' url"
  shows "\<exists>r'. seed_couple C url (Some fx) rid d = (Inr r', d\<lparr>accounts_id_seq := accounts_id_seq d + 2\<rparr>) \<and> seeded C fx r' d"
proof -
  let ?d1 = "d\<lparr>accounts_id_seq := accounts_id_seq d + 1\<rparr>" and ?d2 = "d\<lparr>accounts_id_seq := accounts_id_seq d + 2\<rparr>"
  obtain c k where c: "account_by_name ''court'' d = Some c" "has_fixture_keys C fx ''court'' c"
    and k: "account_by_name ''kaitlyn'' d = Some k" "has_fixture_keys C fx ''kaitlyn'' k"
    and link: "partner_of d (acc_id c) = Some (acc_id k)" "partner_of d (acc_id k) = Some (acc_id c)"
    and room: "in_room r (acc_id c) d" "in_room r (acc_id k) d"
    using seeded by (auto simp: seeded_def)
  note one = seed_user_again [OF ok c]
  have "account_by_name ''kaitlyn'' ?d1 = Some k"
    using k(1) by (simp add: account_by_name_def)
  note two = seed_user_again [OF one(2) this k(2)]
  have step2: "seed_user C fx ''kaitlyn'' ?d1 = (Inr (acc_id k), ?d2)" and ok2: "pairing_ok ?d2"
    using two by (simp_all add: add.commute)
  have acc2: "accounts_ok ?d2" and sym2: "links_symmetric ?d2"
    using ok2 by (simp_all only: pairing_ok_def schema_ok_def)
  have "partner_of ?d2 (acc_id c) = Some (acc_id k)" "acc_id c \<in> account_ids ?d2" "acc_id k \<in> account_ids ?d2"
    using link partner_of_known [OF link(1)] partner_of_known [OF link(2)] by (simp_all add: partner_of_def account_ids_def)
  then have step3: "seed_link (acc_id c) (acc_id k) ?d2 = (Inr (), ?d2)"
    using set_partner_link_eq [OF acc2 sym2, of "acc_id c" "acc_id k"]
    by (simp add: seed_link_def seed_then_def run_sql_def seed_return_def)
  obtain m where m: "find_first (\<lambda>m. in_room (mb_room_id m) (acc_id c) d \<and> in_room (mb_room_id m) (acc_id k) d)
      (room_members d) = Some m"
    using room by (cases "find_first (\<lambda>m. in_room (mb_room_id m) (acc_id c) d \<and> in_room (mb_room_id m) (acc_id k) d) (room_members d)")
      (auto simp: find_first_None_iff in_room_def list_ex_iff)
  have same: "in_room q i ?d2 = in_room q i d" for q i
    by (simp add: in_room_def)
  have step4: "seed_room rid (acc_id c) (acc_id k) ?d2 = (Inr (mb_room_id m), ?d2)"
    using m by (simp add: seed_room_def seed_then_def run_sql_def shared_room_def seed_return_def same)
  have "seed_couple C url (Some fx) rid d = (Inr (mb_room_id m), ?d2)"
    using url one(1) step2 step3 step4 by (simp add: seed_couple_def seed_then_def)
  moreover have "seeded C fx (mb_room_id m) d"
    unfolding seeded_def using c k link find_first_SomeD [OF m] by blast
  ultimately show ?thesis by blast
qed

section \<open>Properties\<close>

text \<open>
  The seed tool does what it is for, on any well-formed database: when it succeeds, the two accounts of the
  fixture exist with the fixture's keys, are each other's partners and share the room it names, the database is
  well formed still, and running it again succeeds and changes nothing but the sequence of account ids.
\<close>

theorem seed_idempotent:
  assumes "pairing_ok d" and "seed_couple C url (Some fx) rid d = (Inr r, d')"
  shows "pairing_ok d' \<and> seeded C fx r d' \<and>
    (\<exists>r'. seed_couple C url (Some fx) rid' d' = (Inr r', d'\<lparr>accounts_id_seq := accounts_id_seq d' + 2\<rparr>) \<and> seeded C fx r' d')"
proof -
  have "contains ''127.0.0.1'' url \<or> contains ''localhost'' url"
    using assms(2) by (auto simp: seed_couple_def seed_fail_def split: if_splits)
  then show ?thesis
    using seed_leaves [OF assms] seed_again by blast
qed

definition dev_fixture :: fixture where
  "dev_fixture = [''court'' \<mapsto> (sample_b64 (replicate 32 1), sample_b64 (replicate 32 2)),
     ''kaitlyn'' \<mapsto> (sample_b64 (replicate 32 3), sample_b64 (replicate 32 4))]"

lemma dev_keys: "decode_pubkey sample_crates (sample_b64 (replicate 32 b)) = Some (replicate 32 b)"
  using sample_b64_ok by (simp add: decode_pubkey_def b64_law_def sample_crates_def)

definition dev_accounts :: db where
  "dev_accounts = snd (insert_account ''kaitlyn'' (replicate 32 3) (replicate 32 4)
     (snd (insert_account ''court'' (replicate 32 1) (replicate 32 2) empty_db)))"

lemma dev_accounts_eq: "dev_accounts = empty_db\<lparr>accounts_id_seq := 3, accounts :=
    [\<lparr>acc_id = 1, acc_username = ''court'', acc_ed25519_pub = replicate 32 1, acc_x25519_pub = replicate 32 2,
      acc_created_at = 0, acc_partner_account_id = None, acc_last_seen_at = None\<rparr>,
     \<lparr>acc_id = 2, acc_username = ''kaitlyn'', acc_ed25519_pub = replicate 32 3, acc_x25519_pub = replicate 32 4,
      acc_created_at = 0, acc_partner_account_id = None, acc_last_seen_at = None\<rparr>]\<rparr>"
  by (simp add: dev_accounts_def insert_account_def Let_def empty_db_def account_ids_def)

lemma dev_users:
  "\<exists>d1. seed_user sample_crates dev_fixture ''court'' empty_db = (Inr 1, d1) \<and>
     seed_user sample_crates dev_fixture ''kaitlyn'' d1 = (Inr 2, dev_accounts)"
  by (simp add: seed_user_def dev_fixture_def dev_keys run_sql_def upsert_account_def account_by_name_def
      insert_account_def Let_def empty_db_def account_ids_def dev_accounts_eq)

lemma dev_link: "seed_link 1 2 dev_accounts = (Inr (), link_both 1 2 dev_accounts)" "pairing_ok dev_accounts"
proof -
  have "keeps pairing_ok (insert_account u ed x)" for u ed x
    by (intro keeps_pairing links_frame_insert_account keeps_insert_account)
  then show ok: "pairing_ok dev_accounts"
    unfolding dev_accounts_def by (simp add: keeps_def)
  then have "set_partner_link 1 2 dev_accounts = (Inr (Inr ()), link_both 1 2 dev_accounts)"
    using set_partner_link_eq [of dev_accounts 1 2]
    by (simp add: pairing_ok_def schema_ok_def) (simp add: dev_accounts_eq partner_of_def account_ids_def)
  then show "seed_link 1 2 dev_accounts = (Inr (), link_both 1 2 dev_accounts)"
    by (simp add: seed_link_def seed_then_def run_sql_def seed_return_def)
qed

lemma dev_room: "\<exists>d. seed_room ''R'' 1 2 (link_both 1 2 dev_accounts) = (Inr ''R'', d)"
  by (simp add: seed_room_def seed_then_def run_sql_def shared_room_def dev_accounts_eq link_both_def empty_db_def
      create_room_with_members_def transaction_def sql_then_def insert_room_def insert_member_def room_ids_def
      account_ids_def in_room_def utf8_chars_def)

theorem seed_idempotent_witness:
  "\<exists>d. seed_couple sample_crates ''localhost/dev'' (Some dev_fixture) ''R'' empty_db = (Inr ''R'', d) \<and>
     seeded sample_crates dev_fixture ''R'' d \<and>
     (\<exists>r'. seed_couple sample_crates ''localhost/dev'' (Some dev_fixture) ''S'' d =
        (Inr r', d\<lparr>accounts_id_seq := accounts_id_seq d + 2\<rparr>))"
proof -
  obtain d1 where users: "seed_user sample_crates dev_fixture ''court'' empty_db = (Inr 1, d1)"
      "seed_user sample_crates dev_fixture ''kaitlyn'' d1 = (Inr 2, dev_accounts)"
    using dev_users by blast
  obtain d where room: "seed_room ''R'' 1 2 (link_both 1 2 dev_accounts) = (Inr ''R'', d)"
    using dev_room by blast
  have "contains ''localhost'' ''localhost/dev''"
    by (simp add: contains_def upt_rec)
  then have run: "seed_couple sample_crates ''localhost/dev'' (Some dev_fixture) ''R'' empty_db = (Inr ''R'', d)"
    using users dev_link(1) room by (simp add: seed_couple_def seed_then_def)
  show ?thesis
    using seed_idempotent [OF pairing_empty run] run by blast
qed

end
