(* ===== verification/Ringing.thy ===== *)
theory Ringing
  imports Server
begin

text \<open>
  A call to a partner whose application is not connected (\<open>calls.rs\<close> with \<open>handle_call_invite\<close> and
  \<open>deliver_pending_calls\<close> of \<open>ws.rs\<close>): the invite is held, and the session the woken application opens is
  handed it. The calls held are not touched by anything else that happens when a session starts.
\<close>

section \<open>What leaves the held calls alone\<close>

lemma db_call_calls:
  assumes "\<And>e v. w_calls (on_err e v) = w_calls v" and "\<And>x v. w_calls (on_ok x v) = w_calls v"
  shows "w_calls (db_call q on_err on_ok w) = w_calls w"
proof -
  obtain r v where e: "db_exec q w = (r, v)" by fastforce
  then show ?thesis
    using db_exec_frame [OF e] assms by (cases r) (simp_all add: db_call_def)
qed

lemma send_rooms_calls: "w_calls (send_rooms A me tx w) = w_calls w"
  by (simp add: send_rooms_def db_call_calls)

lemma presence_calls: "w_calls (announce_presence_on_connect A me tx w) = w_calls w"
proof -
  have profile: "w_calls (replay_profile A me partner tx v) = w_calls v" for partner v
    unfolding replay_profile_def by (intro db_call_calls refl) (auto intro!: db_call_calls split: option.split)
  have seen: "w_calls (partner_last_seen me b k v) = w_calls v" if "\<And>s v. w_calls (k s v) = w_calls v" for b k v
    unfolding partner_last_seen_def using that by (auto intro!: db_call_calls split: option.split)
  have "w_calls (exchange_presence A me tx v) = w_calls v" for v
    unfolding exchange_presence_def Let_def by (auto intro!: db_call_calls simp: seen profile split: option.split)
  then show ?thesis
    by (simp add: announce_presence_on_connect_def db_call_calls)
qed

lemma notify_call_calls: "w_calls (notify_call s callee rid call video w) = w_calls w"
proof -
  have push: "w_calls (send_push s i msg token v) = w_calls v" for i msg token v
    by (simp add: send_push_def Let_def db_call_calls)
  have "w_calls (fold (\<lambda>t. send_push s i (g t) (h t)) ts v) = w_calls v" for i g h ts v
    by (induction ts arbitrary: v) (simp_all add: push)
  then show ?thesis
    unfolding notify_call_def by (intro db_call_calls) blast+
qed

section \<open>Ringing\<close>

definition ring_frame :: "pending \<Rightarrow> room_server_frame" where
  "ring_frame p = CallInvite (pc_room_id p) (pc_call_id p) (pc_from p) (pc_offer p) (pc_video p)"

text \<open>The end of a start: what is held for the account and has not expired is queued, and nothing stays held.\<close>

lemma start_session_rings:
  assumes "start_session A E me tx w = (ss, w')"
  shows "\<exists>before. ch_queue (w_chans w' tx) = before @ map ring_frame (fst (take_for (me_id me) (ev_instant E) (w_calls w)))"
    and "w_calls w' = snd (take_for (me_id me) (ev_instant E) (w_calls w))"
proof -
  define v where "v = announce_presence_on_connect A me tx (send_rooms A me tx (joined me tx w))"
  have calls: "w_calls v = w_calls w"
    by (simp add: v_def presence_calls send_rooms_calls joined_def open_channel_def)
  have "no_bodies (joined me tx w) v"
    unfolding v_def using withinD [OF quiet.within_rooms] withinD [OF quiet.r_connect] emits_trans by meson
  then have "ch_open (w_chans v tx)"
    using open_emits [of _ "joined me tx w" v tx] by (simp add: joined_def open_channel_def)
  moreover have "w' = fold (send_frame tx) (map ring_frame (fst (take_for (me_id me) (ev_instant E) (w_calls w))))
      (v\<lparr>w_calls := snd (take_for (me_id me) (ev_instant E) (w_calls w))\<rparr>)"
    using assms calls
    by (auto simp: start_session_def Let_def joined_def v_def open_channel_def deliver_pending_calls_def ring_frame_def
        fold_map o_def split: prod.split)
  moreover have "w_calls (fold (send_frame tx) fs u) = w_calls u" for fs u
    by (induction fs arbitrary: u) simp_all
  ultimately show "\<exists>before. ch_queue (w_chans w' tx) = before @ map ring_frame (fst (take_for (me_id me) (ev_instant E) (w_calls w)))"
    and "w_calls w' = snd (take_for (me_id me) (ev_instant E) (w_calls w))"
    by (simp_all add: queue_fold_send)
qed

definition offered :: "env \<Rightarrow> account_record \<Rightarrow> string \<Rightarrow> string \<Rightarrow> string \<Rightarrow> bool \<Rightarrow> pending" where
  "offered E me rid call offer video = \<lparr>pc_call_id = call, pc_room_id = rid, pc_from = me_username me,
     pc_offer = offer, pc_video = video, pc_expires_at = ev_instant E + PENDING_TTL\<rparr>"

lemma call_invite_holds:
  assumes "has_store A" and "w_faults w = []" and "in_room rid (me_id me) (w_db w)" and "schema_ok (w_db w)"
    and "partner_of (w_db w) (me_id me) = Some q"
  shows "w_calls (handle_call_invite A E me rid call offer video w) =
    insert_pending q (offered E me rid call offer video) (expire_due (ev_instant E) (w_calls w))"
proof -
  obtain a where a: "account_by_id (me_id me) (w_db w) = Some a" "acc_partner_account_id a = Some q"
    using assms(5) by (auto simp: partner_of_by_id split: option.splits)
  have "q \<in> account_ids (w_db w)"
    using assms(4,5) partner_of_known [OF assms(5)] by (auto simp: schema_ok_def accounts_ok_def dest: bspec)
  then obtain b where "account_by_id q (w_db w) = Some b"
    by (cases "account_by_id q (w_db w)") (auto simp: account_by_id_def account_ids_def find_first_None_iff)
  then have u: "partner_username (me_id me) (w_db w) = Some (acc_username b)"
    using a by (simp add: partner_username_def)
  show ?thesis
    unfolding handle_call_invite_def is_member_def partner_account_id_for_def partner_username_for_def
    using assms(1,2,3) a u
    by (simp add: Let_def notify_call_calls hold_call_def offered_def split: option.split)
qed

section \<open>Properties\<close>

text \<open>
  C23. A call reaches a partner who is not connected yet: once a member of the room has called, however
  often the registry is swept and whatever else happens to the database, the connections and the held calls of
  others, a session that the partner starts before the 45 seconds are over finds the invite on its channel, and
  nothing stays held for them.
\<close>

theorem call_wakes_partner:
  assumes "has_store A" and "w_faults w = []" and "in_room rid (me_id me) (w_db w)" and "schema_ok (w_db w)"
    and "partner_of (w_db w) (me_id me) = Some (me_id callee)"
    and "\<forall>t \<in> set sweeps. t \<le> ev_instant E'" and "ev_instant E' < ev_instant E + PENDING_TTL"
    and "held (w_calls v) (me_id callee) =
      held (fold expire_due sweeps (w_calls (handle_call_invite A E me rid call offer video w))) (me_id callee)"
    and "start_session A E' callee tx v = (ss, v')"
  shows "CallInvite rid call (me_username me) offer video \<in> set (ch_queue (w_chans v' tx)) \<and>
    held (w_calls v') (me_id callee) = []"
proof -
  let ?m = "w_calls (handle_call_invite A E me rid call offer video w)"
  have "fst (take_for (me_id callee) (ev_instant E') (w_calls v)) =
      fst (take_for (me_id callee) (ev_instant E') (fold expire_due sweeps ?m))"
    using assms(8) by (simp add: take_for_held)
  also have "\<dots> = fst (take_for (me_id callee) (ev_instant E') ?m)"
    by (rule sweep_invisible [OF assms(6)])
  finally have "offered E me rid call offer video \<in> set (fst (take_for (me_id callee) (ev_instant E') (w_calls v)))"
    using assms(7) call_invite_holds [OF assms(1-5), of E call offer video]
    by (simp add: take_for_held held_ops) (simp add: offered_def)
  then have "ring_frame (offered E me rid call offer video) \<in> set (ch_queue (w_chans v' tx))"
    using start_session_rings(1) [OF assms(9)] by fastforce
  then show ?thesis
    using start_session_rings(2) [OF assms(9)] by (simp add: ring_frame_def offered_def held_ops)
qed

theorem call_wakes_partner_witness:
  "\<exists>ss v. start_session sample_app (sample_env\<lparr>ev_instant := 5000000\<rparr>) kai 7
      (handle_call_invite sample_app sample_env court ''R'' ''call'' ''sdp'' True (sample_world home)) = (ss, v) \<and>
     CallInvite ''R'' ''call'' ''court'' ''sdp'' True \<in> set (ch_queue (w_chans v 7)) \<and> held (w_calls v) 2 = []"
proof -
  let ?w = "handle_call_invite sample_app sample_env court ''R'' ''call'' ''sdp'' True (sample_world home)"
  obtain ss v where st: "start_session sample_app (sample_env\<lparr>ev_instant := 5000000\<rparr>) kai 7 ?w = (ss, v)"
    by fastforce
  show ?thesis
    using call_wakes_partner [OF _ _ _ _ _ _ _ _ st, of "sample_world home" "''R''" court "[]" sample_env "''call''" "''sdp''" True] st
    by (simp add: home_partners PENDING_TTL_def sample_env_def)
qed

end
