(* ===== verification/Liveness.thy ===== *)
theory Liveness
  imports Sample
begin

text \<open>
  When a session ends (the loop of \<open>handle_socket\<close> in \<open>server/src/ws.rs\<close>): exactly when the client closes
  the stream, or has been silent for longer than \<open>LIVENESS_TIMEOUT\<close> at a tick, or a write fails; so a silent
  client is gone after a bounded number of ticks.
\<close>

section \<open>The life of a session, from its events alone\<close>

text \<open>Whether a session that last heard its client at a moment lives through the events, if writing succeeds.\<close>

fun lives :: "int \<Rightarrow> loop_event list \<Rightarrow> bool" where
  "lives heard [] \<longleftrightarrow> True"
| "lives heard (Outbound # evs) \<longleftrightarrow> lives heard evs"
| "lives heard (Ping_tick now # evs) \<longleftrightarrow> now - heard \<le> 40 * 1000000 \<and> lives heard evs"
| "lives heard (Inbound msg E # evs) \<longleftrightarrow> msg \<noteq> None \<and> (\<forall>c. msg \<noteq> Some (Close c)) \<and> lives (ev_instant E) evs"

lemma handle_frame_last_seen: "last_seen (fst (handle_frame A E f ss w)) = last_seen ss"
  by (cases f) (auto simp: handle_frame_def Let_def split: prod.splits)

lemma sock_send_ok: "sock_send m s = (sent, s') \<Longrightarrow> sk_ok s' = sk_ok s \<and> sent = sk_ok s (length (sk_sent s))"
  by (auto simp: sock_send_def)

text \<open>One turn of the loop: it goes on as the events say, unless a write fails.\<close>

lemma session_step_lives:
  assumes "session_step A ev ss s w = (go, ss', s', w')"
  shows "sk_ok s' = sk_ok s" and "go \<Longrightarrow> lives (last_seen ss) [ev]"
    and "go \<Longrightarrow> lives (last_seen ss') evs = lives (last_seen ss) (ev # evs)"
    and "(\<And>n. sk_ok s n) \<Longrightarrow> go = lives (last_seen ss) [ev]"
proof -
  have all: "sk_ok s' = sk_ok s \<and> (go \<longrightarrow> lives (last_seen ss) [ev] \<and> (\<forall>evs. lives (last_seen ss') evs = lives (last_seen ss) (ev # evs))) \<and>
    ((\<forall>n. sk_ok s n) \<longrightarrow> go = lives (last_seen ss) [ev])"
  proof (cases ev)
    case Outbound
    then show ?thesis
      using assms by (auto simp: session_step_def relay_outbound_def Let_def dest!: sock_send_ok
          split: list.splits option.splits prod.splits)
  next
    case (Ping_tick now)
    then show ?thesis
      using assms by (auto simp: session_step_def duration_since_le LIVENESS_TIMEOUT_def dest!: sock_send_ok
          split: if_splits prod.splits)
  next
    case (Inbound msg E)
    have seen: "last_seen ss2 = ev_instant E" if "handle_frame A E f (ss\<lparr>last_seen := ev_instant E\<rparr>) w = (ss2, w2)" for f ss2 w2
      using handle_frame_last_seen [of A E f "ss\<lparr>last_seen := ev_instant E\<rparr>" w] that by simp
    show ?thesis
      using Inbound assms seen
      by (auto simp: session_step_def Let_def split: option.splits ws_message.splits prod.splits)
  qed
  show "sk_ok s' = sk_ok s" "go \<Longrightarrow> lives (last_seen ss) [ev]"
    "go \<Longrightarrow> lives (last_seen ss') evs = lives (last_seen ss) (ev # evs)"
    "(\<And>n. sk_ok s n) \<Longrightarrow> go = lives (last_seen ss) [ev]"
    using all by auto
qed

lemma lives_Cons: "lives heard (ev # evs) \<Longrightarrow> lives heard [ev]"
  by (cases ev) auto

lemma session_loop_lives:
  assumes "session_loop A evs ss s w = (go, ss', s', w')"
  shows "(go \<longrightarrow> lives (last_seen ss) evs) \<and> ((\<forall>n. sk_ok s n) \<longrightarrow> go = lives (last_seen ss) evs)"
  using assms
proof (induction evs arbitrary: ss s w)
  case (Cons ev evs)
  obtain go1 ss1 s1 w1 where one: "session_step A ev ss s w = (go1, ss1, s1, w1)"
    by (metis prod_cases4)
  note facts = session_step_lives [OF one]
  show ?case
  proof (cases go1)
    case True
    then have "session_loop A evs ss1 s1 w1 = (go, ss', s', w')"
      using Cons.prems one by simp
    then show ?thesis
      using Cons.IH True facts(1,3) by metis
  next
    case False
    then show ?thesis
      using Cons.prems one facts(4) lives_Cons [of "last_seen ss" ev evs] by auto
  qed
qed simp

text \<open>
  C25. When a session ends: as long as the socket takes what is written, the loop goes on through a sequence of
  events if and only if the client neither closes the stream nor is, at a tick, silent for more than 40 seconds;
  so a client that answers the pings is never dropped, and no queued frame, no handler and no failure of the
  database ends a session.
\<close>

theorem session_lives_exact:
  assumes "session_loop A evs ss s w = (go, ss', s', w')" and "\<And>n. sk_ok s n"
  shows "go \<longleftrightarrow> lives (last_seen ss) evs"
  using session_loop_lives [OF assms(1)] assms(2) by blast

section \<open>Silence\<close>

definition silent :: "loop_event list \<Rightarrow> bool" where
  "silent evs \<longleftrightarrow> (\<forall>ev \<in> set evs. case ev of Inbound _ _ \<Rightarrow> False | _ \<Rightarrow> True)"

fun ticks :: "loop_event list \<Rightarrow> int list" where
  "ticks [] = []"
| "ticks (Ping_tick now # evs) = now # ticks evs"
| "ticks (_ # evs) = ticks evs"

text \<open>The moment the client was last heard.\<close>

fun heard_after :: "int \<Rightarrow> loop_event list \<Rightarrow> int" where
  "heard_after heard [] = heard"
| "heard_after heard (Inbound msg E # evs) = heard_after (ev_instant E) evs"
| "heard_after heard (_ # evs) = heard_after heard evs"

text \<open>The interval with \<open>MissedTickBehavior::Delay\<close>: the next tick is never early.\<close>

fun spaced :: "int list \<Rightarrow> bool" where
  "spaced (t # u # ts) \<longleftrightarrow> t + PING_INTERVAL \<le> u \<and> spaced (u # ts)"
| "spaced _ \<longleftrightarrow> True"

lemma lives_append: "lives heard (evs @ evs') \<Longrightarrow> lives (heard_after heard evs) evs'"
  by (induction heard evs rule: lives.induct) auto

lemma lives_silent: "silent evs \<Longrightarrow> lives heard evs \<longleftrightarrow> (\<forall>t \<in> set (ticks evs). t - heard \<le> 40 * 1000000)"
  by (induction evs rule: ticks.induct) (auto simp: silent_def)

lemma silence_too_long:
  assumes "spaced ts" and "4 \<le> length ts" and "heard \<le> hd ts"
  shows "\<exists>t \<in> set ts. 40 * 1000000 < t - heard"
proof -
  obtain t u v x rest where "ts = t # u # v # x # rest"
    using assms(2) by (auto simp: numeral_eq_Suc Suc_le_length_iff)
  then show ?thesis
    using assms by (auto simp: PING_INTERVAL_def)
qed

text \<open>
  C13. Silence ends a session: whatever the server does for it and whatever fails, a connection whose client
  has fallen silent returns by the fourth tick of the heartbeat after the last message, and leaves the routing
  table as it was before it came, so that its user is no longer online through it.
\<close>

theorem silent_session_ends:
  assumes "handle_socket A E nonce tx (talk @ quiet) s w = (running, w')"
    and "silent quiet" and "spaced (ticks quiet)" and "4 \<le> length (ticks quiet)"
    and "heard_after (ev_instant E) talk \<le> hd (ticks quiet)"
    and "\<forall>u. tx \<notin> set (sessions_of (w_routing w) u)"
  shows "running = None \<and> sessions_of (w_routing w') u = sessions_of (w_routing w) u"
proof -
  have dead: "\<not> lives (ev_instant E) (talk @ quiet)"
    using lives_append [of "ev_instant E" talk quiet] silence_too_long [OF assms(3-5)]
    unfolding lives_silent [OF assms(2)] by (meson not_le)
  have "running = None"
  proof (cases "handshake A nonce s w")
    case (Pair r w1)
    obtain acc s1 where r: "r = (acc, s1)" by fastforce
    show ?thesis
    proof (cases acc)
      case None
      then show ?thesis using assms(1) by (simp add: handle_socket_def Pair r)
    next
      case (Some me)
      obtain ss w2 where st: "start_session A E me tx w1 = (ss, w2)" by fastforce
      obtain go ss' s2 w3 where lo: "session_loop A (talk @ quiet) ss s1 w2 = (go, ss', s2, w3)" by (metis prod_cases4)
      have "last_seen ss = ev_instant E"
        using st by (auto simp: start_session_def Let_def)
      then have "\<not> go"
        using session_loop_lives [OF lo] dead by simp
      then show ?thesis
        using assms(1) by (simp add: handle_socket_def Pair r Some st lo)
    qed
  qed
  then show ?thesis
    using connection_unroutes [OF _ assms(6)] assms(1) by simp
qed


text \<open>A client that is there, and one that was heard at second 1 and no more.\<close>

definition quiet_minute :: "loop_event list" where
  "quiet_minute = [Outbound, Ping_tick 15000000, Ping_tick 30000000, Outbound, Ping_tick 45000000, Ping_tick 60000000]"

definition one_pong :: "loop_event list" where
  "one_pong = [Inbound (Some Other_msg) (sample_env\<lparr>ev_instant := 1000000\<rparr>)]"

lemma quiet_minute_simps [simp]: "silent quiet_minute" "spaced (ticks quiet_minute)" "4 \<le> length (ticks quiet_minute)"
  "heard_after heard one_pong = 1000000" "hd (ticks quiet_minute) = 15000000"
  by (simp_all add: quiet_minute_def one_pong_def silent_def PING_INTERVAL_def)

theorem session_lives_exact_witness:
  "let ss = fst (start_session sample_app (sample_env\<lparr>ev_instant := 0\<rparr>) court 3 (sample_world home));
       run = (\<lambda>evs. fst (session_loop sample_app evs ss signed_socket (sample_world home)))
   in run (one_pong @ take 4 quiet_minute) \<and> \<not> run (one_pong @ quiet_minute)"
proof -
  let ?ss = "fst (start_session sample_app (sample_env\<lparr>ev_instant := 0\<rparr>) court 3 (sample_world home))"
  have "fst (session_loop sample_app evs ?ss signed_socket (sample_world home)) = lives 0 evs" for evs
  proof -
    obtain go ss' s' w' where run: "session_loop sample_app evs ?ss signed_socket (sample_world home) = (go, ss', s', w')"
      by (metis prod_cases4)
    have "last_seen ?ss = 0"
      by (simp add: start_session_def Let_def)
    then show ?thesis
      using session_lives_exact [OF run] run by (simp add: signed_socket_def)
  qed
  then show ?thesis
    unfolding Let_def by simp (simp add: one_pong_def quiet_minute_def)
qed

theorem silent_session_ends_witness:
  "fst (handle_socket sample_app sample_env signed_nonce 3 (one_pong @ quiet_minute) signed_socket signed_world) = None"
proof -
  obtain running w' where run:
    "handle_socket sample_app sample_env signed_nonce 3 (one_pong @ quiet_minute) signed_socket signed_world = (running, w')"
    by fastforce
  show ?thesis
    using silent_session_ends [OF run] run by (simp add: signed_world_def sessions_of_def new_routing_def)
qed

end
