(* ===== verification/Guarantees.thy ===== *)
theory Guarantees
  imports Server
begin

text \<open>
  What the running server promises, in every state it can reach: the routing table is the list of running
  sessions, sessions act for existing accounts, message bodies are only for those they were stored for, a message
  to a partner who is connected arrives, and so does a call to a partner whose application is still waking up.
\<close>

section \<open>The start of a session\<close>

text \<open>A call that reads, or that the continuation does not notice, over an invariant of the database.\<close>

lemma db_call_keeps:
  assumes "\<And>d'. d' \<in> D \<Longrightarrow> snd (q d') \<in> D" and "\<And>e v. w_db v \<in> D \<Longrightarrow> w_db (on_err e v) \<in> D"
    and "\<And>x v. w_db v \<in> D \<Longrightarrow> w_db (on_ok x v) \<in> D" and "w_db v \<in> D"
  shows "w_db (db_call q on_err on_ok v) \<in> D"
proof -
  obtain r v' where e: "db_exec q v = (r, v')" by fastforce
  have "w_db v' \<in> D"
    using db_exec_outcome [OF e] assms(1,4) by auto
  then show ?thesis
    using e assms(2,3) by (cases r) (simp_all add: db_call_def)
qed

lemma read_stays: "d \<in> D \<Longrightarrow> snd (sql_read f d) \<in> D"
  by simp

lemma send_rooms_stays: "w_db v \<in> D \<Longrightarrow> w_db (send_rooms A me tx v) \<in> D"
  unfolding send_rooms_def by (auto intro!: db_call_keeps simp: list_rooms_reads)

lemma exchange_stays: "w_db v \<in> D \<Longrightarrow> w_db (exchange_presence A me tx v) \<in> D"
proof -
  have profile: "w_db v \<in> D \<Longrightarrow> w_db (replay_profile A me partner tx v) \<in> D" for partner v
    unfolding replay_profile_def partner_account_id_for_def profile_for_account_def
    by (auto intro!: db_call_keeps split: option.split)
  have seen: "w_db v \<in> D \<Longrightarrow> (\<And>s v. w_db v \<in> D \<Longrightarrow> w_db (k s v) \<in> D) \<Longrightarrow> w_db (partner_last_seen me b k v) \<in> D" for b k v
    unfolding partner_last_seen_def partner_account_id_for_def last_seen_for_def
    by (auto intro!: db_call_keeps split: option.split)
  show "w_db v \<in> D \<Longrightarrow> w_db (exchange_presence A me tx v) \<in> D"
    unfolding exchange_presence_def partner_username_for_def Let_def
    by (auto intro!: db_call_keeps seen profile split: option.split)
qed

lemma fold_send_stays: "w_db (fold (\<lambda>p. send_frame tx (g p)) ps v) = w_db v"
  by (induction ps arbitrary: v) simp_all

text \<open>The databases that differ from \<open>d\<close> in nothing a reader of messages sees.\<close>

definition same_messages :: "db \<Rightarrow> db set" where
  "same_messages d = {d'. messages d' = messages d \<and> room_members d' = room_members d \<and>
     rooms d' = rooms d \<and> invites d' = invites d \<and> map acc_ident (accounts d') = map acc_ident (accounts d) \<and>
     map acc_partner_account_id (accounts d') = map acc_partner_account_id (accounts d)}"

lemma touch_stays: "d' \<in> same_messages d \<Longrightarrow> snd (touch_last_seen i d') \<in> same_messages d"
  by (simp add: same_messages_def touch_last_seen_def map_update_where acc_ident_def)

lemma start_session_db:
  assumes "start_session A E me tx w = (ss, w')"
  shows "w_db w' \<in> same_messages (w_db w)"
proof -
  let ?D = "same_messages (w_db w)"
  have connect: "w_db v \<in> ?D \<Longrightarrow> w_db (announce_presence_on_connect A me tx v) \<in> ?D" for v
    unfolding announce_presence_on_connect_def
    by (auto intro!: db_call_keeps exchange_stays touch_stays)
  have pending: "w_db (deliver_pending_calls E me tx v) = w_db v" for v
    by (simp add: deliver_pending_calls_def fold_send_stays split: prod.split)
  have "w_db w \<in> ?D"
    by (simp add: same_messages_def)
  then show ?thesis
    using assms by (auto simp: start_session_def Let_def pending open_channel_def intro!: connect send_rooms_stays)
qed

lemma idents_same:
  assumes "map acc_ident as = map acc_ident bs" and P: "\<And>a b. acc_ident a = acc_ident b \<Longrightarrow> P a = P b"
  shows "map_option acc_ident (find_first P as) = map_option acc_ident (find_first P bs)"
  using assms(1)
proof (induction as arbitrary: bs)
  case (Cons a as)
  then obtain b bs' where "bs = b # bs'" "acc_ident b = acc_ident a" "map acc_ident as = map acc_ident bs'"
    by (cases bs) auto
  moreover from this have "P b = P a"
    using P by blast
  ultimately show ?case
    using Cons.IH by simp
qed simp

lemma account_same:
  assumes "d' \<in> same_messages d" and "\<And>a b. acc_ident a = acc_ident b \<Longrightarrow> f a = f b"
  shows "map_option f (account_by_id i d') = map_option f (account_by_id i d)"
proof -
  have "map_option acc_ident (account_by_id i d') = map_option acc_ident (account_by_id i d)"
    unfolding account_by_id_def
    by (rule idents_same) (use assms(1) in \<open>simp_all add: same_messages_def acc_ident_def\<close>)
  then show ?thesis
    by (cases "account_by_id i d'"; cases "account_by_id i d") (auto intro: assms(2))
qed

lemma name_same:
  assumes "d' \<in> same_messages d"
  shows "map_option acc_ident (account_by_name u d') = map_option acc_ident (account_by_name u d)"
  unfolding account_by_name_def
  by (rule idents_same) (use assms in \<open>simp_all add: same_messages_def acc_ident_def\<close>)

lemma same_messages_trans: "d2 \<in> same_messages d1 \<Longrightarrow> d1 \<in> same_messages d \<Longrightarrow> d2 \<in> same_messages d"
  by (simp add: same_messages_def)

lemma roster_same:
  assumes "d' \<in> same_messages d"
  shows "roster rid d' = roster rid d"
proof -
  have rows: "map_option member_of_row (account_by_id i d') = map_option member_of_row (account_by_id i d)" for i
    by (rule account_same [OF assms]) (simp add: acc_ident_def member_of_row_def)
  have rm: "room_members d' = room_members d"
    using assms by (simp add: same_messages_def)
  show ?thesis
    unfolding roster_def rm rows ..
qed

lemma subscribe_frames_same:
  assumes "d' \<in> same_messages d"
  shows "List.map_filter (replay_frame d') (replay_rows rid i since d') = List.map_filter (replay_frame d) (replay_rows rid i since d)"
    and "in_room rid i d' = in_room rid i d"
proof -
  have m: "messages d' = messages d" "room_members d' = room_members d"
    using assms by (auto simp: same_messages_def)
  have "replay_frame d' = replay_frame d"
  proof
    fix row :: message_row
    have "map_option acc_username (account_by_id (mr_from_account_id row) d') =
        map_option acc_username (account_by_id (mr_from_account_id row) d)"
      by (rule account_same [OF assms]) (simp add: acc_ident_def)
    then show "replay_frame d' row = replay_frame d row"
      by (cases "account_by_id (mr_from_account_id row) d'"; cases "account_by_id (mr_from_account_id row) d")
        (simp_all add: replay_frame_def)
  qed
  moreover have "replay_rows rid i since d' = replay_rows rid i since d"
    using m by (simp add: replay_rows_def message_row_of_def [abs_def] read_by_other_def)
  ultimately show "List.map_filter (replay_frame d') (replay_rows rid i since d') =
      List.map_filter (replay_frame d) (replay_rows rid i since d)" by simp
  show "in_room rid i d' = in_room rid i d"
    using m by (simp add: in_room_def)
qed

section \<open>A message to whoever is connected\<close>

lemma filter_key: "distinct (map f xs) \<Longrightarrow> x \<in> set xs \<Longrightarrow> filter (\<lambda>y. f y = f x) xs = [x]"
  by (induction xs) (auto simp: filter_empty_conv intro: imageI, metis imageI)

lemma roster_row:
  assumes "schema_ok d" and "a \<in> set (accounts d)"
  shows "filter (\<lambda>m. m_account_id m = acc_id a) (roster rid d) = (if in_room rid (acc_id a) d then [member_of_row a] else [])"
proof (cases "in_room rid (acc_id a) d")
  case True
  then have "member_of_row a \<in> set (roster rid d)"
    using roster_members [OF assms(1)] assms(2) by blast
  then show ?thesis
    using filter_key [OF distinct_roster [OF assms(1)], of "member_of_row a" rid] True
    by (simp add: member_of_row_def)
next
  case False
  then show ?thesis
    by (auto simp: filter_empty_conv roster_members [OF assms(1)] member_of_row_def)
qed

lemma spawn_notify_still: "still w (spawn_notify A i rid w)"
  by (simp add: still_def spawn_notify_def)

text \<open>What one member's copy puts on a channel.\<close>

definition copy_frames :: "app \<Rightarrow> account_record \<Rightarrow> string \<Rightarrow> string \<Rightarrow> timestamp \<Rightarrow> bodies \<Rightarrow> member \<Rightarrow> room_server_frame list" where
  "copy_frames A me rid mid ts bodies m = (case map_of bodies (b64_encode (lib A) (m_x25519_pub m)) of None \<Rightarrow> []
     | Some body \<Rightarrow> [Message mid rid (me_username me) ts body False False None])"

lemma queue_deliver_message:
  assumes "distinct (sessions_of (w_routing w) (m_username m))"
  shows "ch_queue (w_chans (deliver_message A me rid mid ts bodies m w) c) = ch_queue (w_chans w c) @
      (if ch_open (w_chans w c) \<and> m_account_id m \<noteq> me_id me \<and> c \<in> set (sessions_of (w_routing w) (m_username m))
       then copy_frames A me rid mid ts bodies m else [])"
    and "w_routing (deliver_message A me rid mid ts bodies m w) = w_routing w"
    and "ch_open (w_chans (deliver_message A me rid mid ts bodies m w) c) = ch_open (w_chans w c)"
  using queue_deliver [OF assms, of _ c] spawn_notify_still
  by (auto simp: deliver_message_def copy_frames_def still_def split: option.split)

lemma queue_fan_out:
  assumes "\<And>u. distinct (sessions_of (w_routing w) u)"
  shows "ch_queue (w_chans (fold (deliver_message A me rid mid ts bodies) ms w) c) = ch_queue (w_chans w c) @
      (if ch_open (w_chans w c) then concat (map (copy_frames A me rid mid ts bodies)
         (filter (\<lambda>m. m_account_id m \<noteq> me_id me \<and> c \<in> set (sessions_of (w_routing w) (m_username m))) ms)) else [])
    \<and> w_routing (fold (deliver_message A me rid mid ts bodies) ms w) = w_routing w
    \<and> ch_open (w_chans (fold (deliver_message A me rid mid ts bodies) ms w) c) = ch_open (w_chans w c)"
  using assms
proof (induction ms arbitrary: w)
  case (Cons m ms)
  then show ?case
    using queue_deliver_message [of w m A me rid mid ts bodies] by simp
qed simp

text \<open>A session and its account, in a server that satisfies the invariant.\<close>

lemma session_account:
  assumes "server_ok sv" and "y \<in> set (sv_live sv)"
  obtains a where "a \<in> set (accounts (w_db (sv_world sv)))" "acc_ident a = rec_ident (se_me (fst y))"
  using assms by (force simp: server_ok_def idents_ok_def has_ident_def)

lemma session_of_name:
  assumes ok: "server_ok sv" and y: "y \<in> set (sv_live sv)" and b: "b \<in> set (accounts (w_db (sv_world sv)))"
  shows "live_tx y \<in> set (sessions_of (w_routing (sv_world sv)) (acc_username b)) \<longleftrightarrow> acc_id b = me_id (se_me (fst y))"
proof -
  let ?d = "w_db (sv_world sv)"
  have acc: "accounts_ok ?d" and live: "inj_on live_tx (set (sv_live sv))"
    and tx: "live_tx y \<in> set (sessions_of (w_routing (sv_world sv)) u) \<longleftrightarrow>
        live_tx y \<in> live_tx ` {x \<in> set (sv_live sv). live_name x = u}" for u
    using ok by (auto simp: server_ok_def pairing_ok_def schema_ok_def sessions_ok_def distinct_map)
  obtain a where a: "a \<in> set (accounts ?d)" "acc_ident a = rec_ident (se_me (fst y))"
    using session_account [OF ok y] .
  have "inj_on acc_username (set (accounts ?d))" "inj_on acc_id (set (accounts ?d))"
    using accounts_ok_distinct [OF acc] by (simp_all add: distinct_map)
  from this [THEN inj_on_eq_iff, OF b a(1)] have "acc_username b = acc_username a \<longleftrightarrow> acc_id b = acc_id a"
    by simp
  moreover have "live_tx y \<in> set (sessions_of (w_routing (sv_world sv)) u) \<longleftrightarrow> u = live_name y" for u
  proof
    assume "live_tx y \<in> set (sessions_of (w_routing (sv_world sv)) u)"
    then obtain x where "x \<in> set (sv_live sv)" "live_name x = u" "live_tx y = live_tx x"
      unfolding tx by blast
    then show "u = live_name y"
      using inj_onD [OF live, of y x] y by simp
  qed (use y tx in simp)
  ultimately show ?thesis
    using a(2) by (auto simp: acc_ident_def rec_ident_def)
qed

lemma server_ok_parts:
  assumes "server_ok sv"
  shows "schema_ok (w_db (sv_world sv))" and "\<And>u. distinct (sessions_of (w_routing (sv_world sv)) u)"
    and "y \<in> set (sv_live sv) \<Longrightarrow> ch_open (w_chans (sv_world sv) (live_tx y))"
  using assms by (auto simp: server_ok_def pairing_ok_def sessions_ok_def distinct_map_filter)

text \<open>The members whose copies land on the channel of a session.\<close>

lemma copies_of_session:
  assumes ok: "server_ok sv" and y: "y \<in> set (sv_live sv)"
  defines "them \<equiv> se_me (fst y)" and "d \<equiv> w_db (sv_world sv)"
  shows "filter (\<lambda>m. m_account_id m \<noteq> me_id me \<and> live_tx y \<in> set (sessions_of (w_routing (sv_world sv)) (m_username m)))
      (roster rid d) =
    (if me_id them \<noteq> me_id me \<and> in_room rid (me_id them) d
     then [\<lparr>m_account_id = me_id them, m_username = me_username them, m_ed25519_pub = me_ed25519_pub them,
       m_x25519_pub = me_x25519_pub them\<rparr>] else [])"
proof -
  obtain a where a: "a \<in> set (accounts d)" "acc_ident a = rec_ident them"
    using session_account [OF ok y] unfolding them_def d_def .
  have "filter (\<lambda>m. m_account_id m \<noteq> me_id me \<and> live_tx y \<in> set (sessions_of (w_routing (sv_world sv)) (m_username m)))
      (roster rid d) = filter (\<lambda>m. m_account_id m \<noteq> me_id me) (filter (\<lambda>m. m_account_id m = me_id them) (roster rid d))"
    using session_of_name [OF ok y] roster_members [OF server_ok_parts(1) [OF ok]]
    by (auto simp: d_def them_def member_of_row_def intro!: filter_cong)
  also have "filter (\<lambda>m. m_account_id m = me_id them) (roster rid d) = filter (\<lambda>m. m_account_id m = acc_id a) (roster rid d)"
    using a(2) by (simp add: acc_ident_def rec_ident_def)
  finally show ?thesis
    using roster_row [OF server_ok_parts(1) [OF ok, folded d_def] a(1)] a(2)
    by (auto simp: acc_ident_def rec_ident_def member_of_row_def)
qed

text \<open>The frames of an accepted message on the channel of a session.\<close>

definition session_copy :: "crates \<Rightarrow> env \<Rightarrow> account_record \<Rightarrow> string \<Rightarrow> bodies \<Rightarrow> uuid \<Rightarrow> db \<Rightarrow> account_record \<Rightarrow> room_server_frame list" where
  "session_copy C E me rid bodies client d them =
    (case map_of bodies (b64_encode C (me_x25519_pub them)) of None \<Rightarrow> []
     | Some body \<Rightarrow>
        if me_id them = me_id me then [Message (ev_ulid E) rid (me_username me) (ev_now E 0) body False False (Some client)]
        else if in_room rid (me_id them) d then [Message (ev_ulid E) rid (me_username me) (ev_now E 0) body False False None]
        else [])"

lemma queue_echo:
  assumes "distinct (sessions_of (w_routing w) (me_username me))"
  shows "ch_queue (w_chans (echo_self A me rid mid ts bodies client w) c) = ch_queue (w_chans w c) @
    (case map_of bodies (b64_encode (lib A) (me_x25519_pub me)) of None \<Rightarrow> []
     | Some body \<Rightarrow> if c \<in> set (sessions_of (w_routing w) (me_username me)) \<and> ch_open (w_chans w c)
         then [Message mid rid (me_username me) ts body False False (Some client)] else [])"
  using queue_deliver [OF assms] by (simp add: echo_self_def split: option.split)

lemma send_reaches:
  assumes ok: "server_ok sv" and A: "has_store A" "w_faults (sv_world sv) = []"
    and ss: "(ss, s) \<in> set (sv_live sv)" and y: "y \<in> set (sv_live sv)"
    and fresh: "\<forall>m \<in> set (messages (w_db (sv_world sv))). ms_id m \<noteq> ev_ulid E"
    and acc: "send_accepted (lib A) (se_me ss) rid bodies (w_db (sv_world sv))"
  shows "ch_queue (w_chans (handle_send A E (se_me ss) rid bodies client (se_tx ss) (sv_world sv)) (live_tx y)) =
    ch_queue (w_chans (sv_world sv) (live_tx y)) @
      session_copy (lib A) E (se_me ss) rid bodies client (w_db (sv_world sv)) (se_me (fst y))"
proof -
  let ?w = "sv_world sv" and ?me = "se_me ss" and ?them = "se_me (fst y)"
  let ?key = "\<lambda>me. map_of bodies (b64_encode (lib A) (me_x25519_pub me))"
  define v where "v = ?w\<lparr>w_db := (w_db ?w)\<lparr>messages := messages (w_db ?w) @
    stored_rows (lib A) ?me rid (ev_ulid E) (ev_now E 0) bodies (w_db ?w)\<rparr>\<rparr>"
  let ?w1 = "fold (deliver_message A ?me rid (ev_ulid E) (ev_now E 0) bodies) (roster rid (w_db ?w)) v"
  have v: "w_routing v = w_routing ?w" "w_chans v = w_chans ?w"
    by (simp_all add: v_def)
  have dist: "distinct (sessions_of (w_routing v) u)" for u
    unfolding v by (rule server_ok_parts(2) [OF ok])
  note fan = queue_fan_out [OF dist, of A ?me rid "ev_ulid E" "ev_now E 0" bodies "roster rid (w_db ?w)" "live_tx y"]
  have copies: "ch_queue (w_chans ?w1 (live_tx y)) = ch_queue (w_chans ?w (live_tx y)) @
      (if me_id ?them \<noteq> me_id ?me \<and> in_room rid (me_id ?them) (w_db ?w)
       then session_copy (lib A) E ?me rid bodies client (w_db ?w) ?them else [])"
    using fan server_ok_parts(3) [OF ok y] unfolding v copies_of_session [OF ok y]
    by (simp add: copy_frames_def session_copy_def split: option.split)
  obtain a b where a: "a \<in> set (accounts (w_db ?w))" "acc_ident a = rec_ident ?me"
    and b: "b \<in> set (accounts (w_db ?w))" "acc_ident b = rec_ident ?them"
    using session_account [OF ok ss] session_account [OF ok y] by (metis fst_conv)
  have mine: "live_tx y \<in> set (sessions_of (w_routing ?w) (me_username ?me)) \<longleftrightarrow> me_id ?me = me_id ?them"
    using session_of_name [OF ok y a(1)] a(2) by (simp add: acc_ident_def rec_ident_def)
  have same: "?key ?them = ?key ?me" if "me_id ?me = me_id ?them"
    using account_by_id_unique [OF _ a(1)] account_by_id_unique [OF _ b(1)] server_ok_parts(1) [OF ok] that a(2) b(2)
    by (simp add: acc_ident_def rec_ident_def schema_ok_def accounts_ok_def)
  have echo: "handle_send A E ?me rid bodies client (se_tx ss) ?w = echo_self A ?me rid (ev_ulid E) (ev_now E 0) bodies client ?w1"
    using handle_send_accepted [OF A server_ok_parts(1) [OF ok] fresh acc] map_of_body_keys [of bodies "b64_encode (lib A) (me_x25519_pub ?me)"]
    by (auto simp: Let_def v_def echo_self_def)
  have w1: "w_routing ?w1 = w_routing ?w" "ch_open (w_chans ?w1 (live_tx y))"
    using fan server_ok_parts(3) [OF ok y] by (simp_all add: v)
  show ?thesis
    unfolding echo using copies mine same w1 server_ok_parts(2) [OF ok]
    by (subst queue_echo) (auto simp: session_copy_def split: option.split)
qed

section \<open>An evening\<close>

text \<open>Court and Kai are a couple with a room; Kai has written while Court was away.\<close>

definition evening_accounts :: db where
  "evening_accounts = snd (insert_account ''kai'' signed_key [20] (snd (insert_account ''court'' signed_key [10] empty_db)))"

definition evening_couple :: db where
  "evening_couple = snd (set_partner_link 1 2 evening_accounts)"

definition evening_home :: db where
  "evening_home = snd (create_room_with_members ''R'' 1 (Some 2) ''us'' evening_couple)"

definition evening :: db where
  "evening = snd (insert_many [\<lparr>mr_id = ''01A'', mr_room_id = ''R'', mr_from_account_id = 2,
     mr_recipient_account_id = 1, mr_body = ''sealed'', mr_ts = 5, mr_read = False\<rparr>] evening_home)"

lemma evening_accounts_eq: "evening_accounts = empty_db\<lparr>accounts_id_seq := 3, accounts :=
    [\<lparr>acc_id = 1, acc_username = ''court'', acc_ed25519_pub = signed_key, acc_x25519_pub = [10], acc_created_at = 0,
      acc_partner_account_id = None, acc_last_seen_at = None\<rparr>,
     \<lparr>acc_id = 2, acc_username = ''kai'', acc_ed25519_pub = signed_key, acc_x25519_pub = [20], acc_created_at = 0,
      acc_partner_account_id = None, acc_last_seen_at = None\<rparr>]\<rparr>"
  by (simp add: evening_accounts_def insert_account_def Let_def empty_db_def account_ids_def)

lemma evening_reached: "db_reach empty_db evening"
proof -
  have "db_step (snd (insert_account ''court'' signed_key [10] empty_db)) evening_accounts"
    unfolding evening_accounts_def by (rule step_insert_account)
  moreover have "db_step evening_accounts evening_couple" "db_step evening_couple evening_home" "db_step evening_home evening"
    unfolding evening_couple_def evening_home_def evening_def
    by (rule step_set_partner_link step_create_room step_insert_many)+
  ultimately show ?thesis
    using step_insert_account [of empty_db "''court''" signed_key "[10]"]
    by (meson converse_rtranclp_into_rtranclp rtranclp.rtrancl_refl)
qed

lemma evening_couple_eq: "evening_couple = empty_db\<lparr>accounts_id_seq := 3, accounts :=
    [\<lparr>acc_id = 1, acc_username = ''court'', acc_ed25519_pub = signed_key, acc_x25519_pub = [10], acc_created_at = 0,
      acc_partner_account_id = Some 2, acc_last_seen_at = None\<rparr>,
     \<lparr>acc_id = 2, acc_username = ''kai'', acc_ed25519_pub = signed_key, acc_x25519_pub = [20], acc_created_at = 0,
      acc_partner_account_id = Some 1, acc_last_seen_at = None\<rparr>]\<rparr>"
proof -
  have "keeps pairing_ok (insert_account u ed x)" for u ed x
    by (intro keeps_pairing links_frame_insert_account keeps_insert_account)
  then have "pairing_ok evening_accounts"
    unfolding evening_accounts_def by (simp add: keeps_def)
  then have "set_partner_link 1 2 evening_accounts = (Inr (Inr ()), link_both 1 2 evening_accounts)"
    using set_partner_link_eq [of evening_accounts 1 2]
    by (simp add: pairing_ok_def schema_ok_def) (simp add: evening_accounts_eq partner_of_def account_ids_def)
  then show ?thesis
    by (simp add: evening_couple_def link_both_def evening_accounts_eq)
qed

lemma evening_home_eq: "evening_home = evening_couple\<lparr>rooms := [\<lparr>rm_id = ''R'', rm_name = ''us'', rm_created_at = 0\<rparr>],
    room_members := [\<lparr>mb_room_id = ''R'', mb_account_id = 1, mb_joined_at = 0\<rparr>,
      \<lparr>mb_room_id = ''R'', mb_account_id = 2, mb_joined_at = 0\<rparr>]\<rparr>"
  by (simp add: evening_home_def evening_couple_eq create_room_with_members_def transaction_def sql_then_def
      insert_room_def insert_member_def room_ids_def account_ids_def empty_db_def in_room_def utf8_chars_def
      utf8_continuation_def)

lemma evening_eq: "evening = evening_home\<lparr>messages := [\<lparr>ms_id = ''01A'', ms_room_id = ''R'', ms_from_account_id = 2,
    ms_recipient_account_id = 1, ms_body = ''sealed'', ms_ts = 5, ms_read_at = None\<rparr>]\<rparr>"
  by (simp add: evening_def insert_many_def transaction_def sql_then_def insert_message_def evening_home_eq
      evening_couple_eq empty_db_def room_ids_def account_ids_def)

text \<open>
  The texts of the evening: the empty one is a subscription to the room, an exclamation mark sends the letter, a name,
  a colon and the sample signature sign in; a frame is written as its body, if it has one.
\<close>

definition body_text :: "json \<Rightarrow> string" where
  "body_text v = (case v of JObject kvs \<Rightarrow> (case map_of kvs ''body'' of Some (JString b) \<Rightarrow> b | _ \<Rightarrow> []) | _ \<Rightarrow> [])"

definition evening_app :: app where
  "evening_app = sample_app\<lparr>
     json_read := (\<lambda>t. if t = [] then Some (JObject [(''kind'', JString ''Subscribe''), (''room_id'', JString ''R'')])
       else if t = ''!'' then Some (room_client_json sample_codecs (Send ''R'' letter 7)) else sample_json_read t),
     json_text := (\<lambda>v. Some (body_text v))\<rparr>"

lemma evening_app_simps [simp]:
  "lib evening_app = sample_crates" "has_store evening_app" "auth_text evening_app f = Some []"
  "parse_room evening_app [] = Some (Subscribe ''R'' None)"
  "room_text evening_app (Message mid rid u t b False False None) = Some b"
  by (cases f; simp add: evening_app_def auth_text_def room_text_def parse_room_def room_client_of_def tagged_variant
      room_client_variant_def field_defs auth_server_json_def room_server_json_def variant_def body_text_def Let_def
      unless_false_def unless_none_def)+

lemma evening_send: "parse_room evening_app ''!'' = Some (Send ''R'' letter 7)"
proof -
  obtain kvs where kvs: "room_client_json sample_codecs (Send ''R'' letter 7) = JObject kvs"
    by (simp add: room_client_json_def variant_def Let_def)
  have "bodies_ok letter"
    by (simp add: bodies_ok_def letter_def)
  then have "room_client_of sample_codecs kvs = Some (Send ''R'' letter 7)"
    using room_client_roundtrip [OF sample_codecs_ok, of "Send ''R'' letter 7"]
    by (simp add: kvs rd_struct_def client_frame_ok_def)
  then show ?thesis
    by (simp add: parse_room_def evening_app_def kvs)
qed

lemma evening_identify:
  assumes "\<forall>c \<in> set u. c \<noteq> CHR '':''"
  shows "parse_auth evening_app (u @ '':'' @ sig) = Some (Identify \<lparr>id_username = u, id_signature = sig\<rparr>)"
proof -
  have "u @ '':'' @ sig \<noteq> ''!''"
    by (cases u) auto
  then have "json_read evening_app (u @ '':'' @ sig) = sample_json_read (u @ '':'' @ sig)"
    by (simp add: evening_app_def)
  moreover have "takeWhile (\<lambda>c. c \<noteq> CHR '':'') (u @ '':'' @ sig) = u"
    "dropWhile (\<lambda>c. c \<noteq> CHR '':'') (u @ '':'' @ sig) = '':'' @ sig"
    using assms by (simp_all add: takeWhile_append dropWhile_append)
  ultimately show ?thesis
    by (simp add: parse_auth_def sample_json_read_def auth_client_of_def tagged_variant identify_of_def field_defs)
qed

text \<open>Somebody whose account has the sample key signs in, on a channel nobody uses.\<close>

lemma sign_in:
  assumes run: "server_run evening_app (\<lparr>sv_world = w, sv_opening = [], sv_live = ls\<rparr> # svs)"
    and w: "w_faults w = []" "w_db w \<in> same_messages evening"
    and row: "map_option acc_ident (account_by_name u evening) = Some (i, u, signed_key, x)"
    and u: "\<forall>c \<in> set u. c \<noteq> CHR '':''" and tx: "tx \<notin> live_tx ` set ls"
  shows "\<exists>w' ss s svs'. server_run evening_app (\<lparr>sv_world = w', sv_opening = [], sv_live = ls @ [(ss, s)]\<rparr> # svs') \<and>
    w_faults w' = [] \<and> w_db w' \<in> same_messages evening \<and> se_tx ss = tx \<and> rec_ident (se_me ss) = (i, u, signed_key, x)"
proof -
  let ?A = evening_app and ?sv = "\<lambda>w ps ls. \<lparr>sv_world = w, sv_opening = ps, sv_live = ls\<rparr>"
  obtain r where r: "account_by_name u (w_db w) = Some r" "acc_ident r = (i, u, signed_key, x)"
    using name_same [OF w(2), of u] row by auto
  let ?me = "full_account_record r"
  have me: "rec_ident ?me = (i, u, signed_key, x)"
    using r(2) by (simp add: rec_ident_def acc_ident_def full_account_record_def)
  obtain s where hs: "handshake ?A signed_nonce \<lparr>sk_inbox = [Text (u @ '':'' @ sample_b64 signed_sig)], sk_sent = [],
      sk_ok = (\<lambda>_. True)\<rparr> w = ((Some ?me, s), w)"
    using signed_handshake_in [OF _ _ _ evening_identify [OF u], of w r] r w(1)
    by (auto simp: acc_ident_def)
  obtain ss w2 where st: "start_session ?A sample_env ?me tx w = (ss, w2)" by fastforce
  have "server_step ?A (?sv w [(?me, s)] ls) (?sv w2 [] (ls @ [(ss, s)]))"
    using srv_started [OF tx st, of "[]" s "[]"] by simp
  then have "server_run ?A (?sv w2 [] (ls @ [(ss, s)]) # ?sv w [(?me, s)] ls # ?sv w [] ls # svs)"
    using run_step [OF run_step [OF run srv_authenticated [OF hs]]] by simp
  then have "server_run ?A (?sv (w2\<lparr>w_faults := []\<rparr>) [] (ls @ [(ss, s)]) # ?sv w2 [] (ls @ [(ss, s)]) #
      ?sv w [(?me, s)] ls # ?sv w [] ls # svs)"
    using run_step [OF _ srv_faults] by blast
  moreover have "w_db w2 \<in> same_messages evening"
    using same_messages_trans [OF start_session_db [OF st] w(2)] .
  moreover have "se_me ss = ?me" "se_tx ss = tx"
    using start_session_emits [OF st] by auto
  ultimately show ?thesis
    using me by (intro exI [of _ "w2\<lparr>w_faults := []\<rparr>"] exI [of _ ss] exI [of _ s]) auto
qed

lemma evening_people:
  "map_option acc_ident (account_by_name ''court'' evening) = Some (1, ''court'', signed_key, [10])"
  "map_option acc_ident (account_by_name ''kai'' evening) = Some (2, ''kai'', signed_key, [20])"
  by (simp_all add: evening_eq evening_home_eq evening_couple_eq account_by_name_def acc_ident_def)

text \<open>Both are connected.\<close>

lemma evening_run:
  "\<exists>w a b s t svs. server_run evening_app (\<lparr>sv_world = w, sv_opening = [], sv_live = [(a, s), (b, t)]\<rparr> # svs) \<and>
     w_faults w = [] \<and> w_db w \<in> same_messages evening \<and> se_tx a = 0 \<and> se_tx b = 1 \<and>
     rec_ident (se_me a) = (1, ''court'', signed_key, [10]) \<and> rec_ident (se_me b) = (2, ''kai'', signed_key, [20])"
proof -
  let ?w0 = "sv_world (start_server evening [])"
  have "server_run evening_app [\<lparr>sv_world = ?w0, sv_opening = [], sv_live = []\<rparr>]"
    using run_start [OF evening_reached, of evening_app "[]"] by (simp add: start_server_def)
  moreover have "w_faults ?w0 = []" "w_db ?w0 \<in> same_messages evening"
    by (simp_all add: start_server_def same_messages_def)
  ultimately obtain w a s svs where one: "server_run evening_app (\<lparr>sv_world = w, sv_opening = [], sv_live = [(a, s)]\<rparr> # svs)"
    "w_faults w = []" "w_db w \<in> same_messages evening" "se_tx a = 0" "rec_ident (se_me a) = (1, ''court'', signed_key, [10])"
    using sign_in [OF _ _ _ evening_people(1), of ?w0 "[]" "[]" 0] by auto
  have fresh: "1 \<notin> live_tx ` set [(a, s)]" using one(4) by simp
  have kai: "\<forall>c \<in> set ''kai''. c \<noteq> CHR '':''" by simp
  show ?thesis
    using sign_in [OF one(1-3) evening_people(2) kai fresh] one(4,5) by auto blast
qed

lemma evening_rows: "accounts evening = accounts evening_couple" "room_members evening = room_members evening_home"
  "messages evening = [\<lparr>ms_id = ''01A'', ms_room_id = ''R'', ms_from_account_id = 2, ms_recipient_account_id = 1,
     ms_body = ''sealed'', ms_ts = 5, ms_read_at = None\<rparr>]"
  by (simp_all add: evening_eq evening_home_eq)

lemma evening_in_room: "in_room ''R'' 1 evening" "in_room ''R'' 2 evening"
  by (simp_all add: in_room_def evening_rows evening_home_eq)

lemma evening_roster: "roster ''R'' evening =
    [\<lparr>m_account_id = 1, m_username = ''court'', m_ed25519_pub = signed_key, m_x25519_pub = [10]\<rparr>,
     \<lparr>m_account_id = 2, m_username = ''kai'', m_ed25519_pub = signed_key, m_x25519_pub = [20]\<rparr>]"
  by (simp add: roster_def account_by_id_def member_of_row_def List.map_filter_simps evening_rows evening_home_eq
      evening_couple_eq)

lemma evening_frames:
  assumes "d \<in> same_messages evening"
  shows "Message ''01A'' ''R'' ''kai'' 5 ''sealed'' True False None \<in> set (subscribe_frames 1 ''R'' None d)"
    and "in_room ''R'' 1 d" and "in_room ''R'' 2 d"
proof -
  have "replay_rows ''R'' 1 None evening = [\<lparr>mr_id = ''01A'', mr_room_id = ''R'', mr_from_account_id = 2,
      mr_recipient_account_id = 1, mr_body = ''sealed'', mr_ts = 5, mr_read = False\<rparr>]"
    by (simp add: replay_rows_def message_row_of_def read_by_other_def evening_rows)
  moreover have "\<exists>a. account_by_id 2 evening = Some a \<and> acc_username a = ''kai''"
    by (simp add: account_by_id_def evening_rows evening_couple_eq)
  ultimately have "Message ''01A'' ''R'' ''kai'' 5 ''sealed'' True False None \<in>
      set (List.map_filter (replay_frame evening) (replay_rows ''R'' 1 None evening))"
    by (auto simp: replay_frame_def List.map_filter_simps)
  then show "Message ''01A'' ''R'' ''kai'' 5 ''sealed'' True False None \<in> set (subscribe_frames 1 ''R'' None d)"
    using subscribe_frames_same(1) [OF assms] by (simp add: subscribe_frames_def)
  show "in_room ''R'' 1 d" "in_room ''R'' 2 d"
    using subscribe_frames_same(2) [OF assms] evening_in_room by simp_all
qed

lemma evening_letter:
  assumes "d \<in> same_messages evening" and "me_id me = 1" and "me_x25519_pub me = [10]"
  shows "send_accepted sample_crates me ''R'' letter d"
  using assms evening_frames(2) [OF assms(1)]
  by (simp add: send_accepted_def letter_def other_members_def roster_same [OF assms(1)] evening_roster Let_def
      body_keys_def MAX_SEND_RECIPIENTS_def MAX_BODY_BYTES_def sample_crates_def)

section \<open>Properties\<close>

lemma run_reach: "server_run A svs \<Longrightarrow> server_reach A (hd svs)"
proof (induction rule: server_run.induct)
  case (run_step sv before sv')
  then obtain d fs where "db_reach empty_db d" "(server_step A)\<^sup>*\<^sup>* (start_server d fs) sv"
    by (auto simp: server_reach_def)
  then show ?case
    using run_step(2) by (auto simp: server_reach_def intro: rtranclp.rtrancl_into_rtrancl)
qed (auto simp: server_reach_def)

text \<open>
  C7. However connections start, end and interleave and whatever fails, the routing table is exactly the list
  of running sessions: a user's channels are those of their running sessions in the order of their start, a user
  is online exactly while they have one, no channel is shared, and a channel is open exactly while its session
  runs.
\<close>

theorem sessions_registered:
  assumes "server_reach A sv"
  shows "sessions_of (w_routing (sv_world sv)) u = map live_tx (filter (\<lambda>y. live_name y = u) (sv_live sv))
    \<and> (is_online u (w_routing (sv_world sv)) \<longleftrightarrow> (\<exists>y \<in> set (sv_live sv). live_name y = u))
    \<and> distinct (map live_tx (sv_live sv))
    \<and> (ch_open (w_chans (sv_world sv) c) \<longleftrightarrow> (\<exists>y \<in> set (sv_live sv). live_tx y = c))"
  using server_reach_ok [OF assms]
  by (auto simp: server_ok_def sessions_ok_def is_online_iff filter_empty_conv image_iff)

theorem sessions_registered_witness:
  "\<exists>sv :: server. map live_tx (sv_live sv) = [0, 1] \<and> sessions_of (w_routing (sv_world sv)) ''kai'' = [1] \<and>
     is_online ''court'' (w_routing (sv_world sv)) \<and> \<not> is_online ''eve'' (w_routing (sv_world sv))"
proof -
  obtain w a b s t svs where run: "server_run evening_app (\<lparr>sv_world = w, sv_opening = [], sv_live = [(a, s), (b, t)]\<rparr> # svs)"
    and ab: "se_tx a = 0" "se_tx b = 1" "me_username (se_me a) = ''court''" "me_username (se_me b) = ''kai''"
    using evening_run by (auto simp: rec_ident_def)
  from run_reach [OF run] have reach: "server_reach evening_app \<lparr>sv_world = w, sv_opening = [], sv_live = [(a, s), (b, t)]\<rparr>"
    by simp
  show ?thesis
    using sessions_registered [OF reach, of "''kai''"] sessions_registered [OF reach, of "''court''"]
      sessions_registered [OF reach, of "''eve''"] ab
    by (intro exI [of _ "\<lparr>sv_world = w, sv_opening = [], sv_live = [(a, s), (b, t)]\<rparr>"]) simp
qed

text \<open>
  C8. Every running session acts for an account that exists, under the id, the name and the keys the database
  holds for it now: no later registration, link, leave or failure changes who a connection is. The database
  itself is well formed and its partner links are symmetric throughout.
\<close>

theorem sessions_identified:
  assumes "server_reach A sv" and "y \<in> set (sv_live sv)"
  shows "pairing_ok (w_db (sv_world sv)) \<and>
    (\<exists>a. account_by_id (me_id (se_me (fst y))) (w_db (sv_world sv)) = Some a \<and> acc_username a = live_name y \<and>
       acc_ed25519_pub a = me_ed25519_pub (se_me (fst y)) \<and> acc_x25519_pub a = me_x25519_pub (se_me (fst y)))"
proof -
  have ok: "server_ok sv"
    by (rule server_reach_ok [OF assms(1)])
  then obtain a where "a \<in> set (accounts (w_db (sv_world sv)))" "acc_ident a = rec_ident (se_me (fst y))"
    using session_account [OF _ assms(2)] by blast
  then show ?thesis
    using ok account_by_id_unique [of "w_db (sv_world sv)" a]
    by (auto simp: server_ok_def pairing_ok_def schema_ok_def accounts_ok_def acc_ident_def rec_ident_def)
qed

theorem sessions_identified_witness:
  "\<exists>(sv :: server) y a. y \<in> set (sv_live sv) \<and> account_by_id 2 (w_db (sv_world sv)) = Some a \<and> acc_username a = ''kai''"
proof -
  obtain w a b s t svs where run: "server_run evening_app (\<lparr>sv_world = w, sv_opening = [], sv_live = [(a, s), (b, t)]\<rparr> # svs)"
    and b: "me_id (se_me b) = 2" "me_username (se_me b) = ''kai''"
    using evening_run by (auto simp: rec_ident_def)
  show ?thesis
    using sessions_identified [OF run_reach [OF run], of "(b, t)"] b
    by (intro exI [of _ "\<lparr>sv_world = w, sv_opening = [], sv_live = [(a, s), (b, t)]\<rparr>"]) auto
qed

text \<open>
  C3. Message bodies are only for those they were stored for: whatever clients send, however sessions start and
  end and whatever the database does, in every run of the server, each step of which handles one event as a
  whole, a frame with a body on the channel of a running session is a message row that was stored, at some
  moment of the run, for the account of that session, in that room and with that body; and the account was a
  member of the room at some moment of the run. The two moments need not be the same: a departure may fall
  between the read of the roster and the insertion.
\<close>

theorem bodies_confined:
  assumes "server_run A svs" and "y \<in> set (sv_live (hd svs))"
    and "Message mid rid sndr ts body replayed seen client \<in> set (ch_queue (w_chans (sv_world (hd svs)) (live_tx y)))"
  shows "(\<exists>sv \<in> set svs. \<exists>m \<in> set (messages (w_db (sv_world sv))). ms_id m = mid \<and> ms_room_id m = rid \<and>
       ms_recipient_account_id m = me_id (se_me (fst y)) \<and> ms_body m = body) \<and>
    (\<exists>sv \<in> set svs. in_room rid (me_id (se_me (fst y))) (w_db (sv_world sv)))"
  using run_bodies [OF assms(1,2) _ assms(3)] by (auto simp: is_message_def addressed_def list_ex_iff)

text \<open>Court's application subscribes, and finds what Kai wrote.\<close>

lemma evening_reading:
  "\<exists>svs y. server_run evening_app svs \<and> y \<in> set (sv_live (hd svs)) \<and> me_id (se_me (fst y)) = 1 \<and>
     Message ''01A'' ''R'' ''kai'' 5 ''sealed'' True False None \<in> set (ch_queue (w_chans (sv_world (hd svs)) (live_tx y)))"
proof -
  let ?sv = "\<lambda>w ls. \<lparr>sv_world = w, sv_opening = [], sv_live = ls\<rparr>" and ?E = sample_env
  obtain w a b s t svs where run: "server_run evening_app (?sv w [(a, s), (b, t)] # svs)"
    and w: "w_faults w = []" "w_db w \<in> same_messages evening" and a: "se_tx a = 0" "me_id (se_me a) = 1"
    using evening_run by (auto simp: rec_ident_def)
  let ?a = "a\<lparr>last_seen := ev_instant ?E\<rparr>" and ?w = "handle_subscribe evening_app (se_me a) ''R'' None 0 w"
  have "ch_open (w_chans w 0)"
    using server_run_ok [OF run] server_ok_parts(3) [of "?sv w [(a, s), (b, t)]" "(a, s)"] a by simp
  then have queue: "Message ''01A'' ''R'' ''kai'' 5 ''sealed'' True False None \<in> set (ch_queue (w_chans ?w 0))"
    using subscribe_served [of evening_app w "se_me a" "''R''" None 0] w(1) a(2) evening_frames [OF w(2)]
    by (simp add: queue_fold_send)
  have "event_fresh (Inbound (Some (Text [])) ?E) (w_db w)"
    using w(2) by (simp add: event_fresh_def same_messages_def evening_rows sample_env_def)
  moreover have "session_step evening_app (Inbound (Some (Text [])) ?E) a s w = (True, ?a, s, ?w)"
    using a(1) by (simp add: session_step_def Let_def handle_frame_def)
  ultimately have "server_step evening_app (?sv w [(a, s), (b, t)]) (?sv ?w [(?a, s), (b, t)])"
    using srv_turn [of "Inbound (Some (Text [])) ?E" w evening_app a s ?a s ?w "[]" "[]" "[(b, t)]"] by simp
  then have "server_run evening_app (?sv ?w [(?a, s), (b, t)] # ?sv w [(a, s), (b, t)] # svs)"
    by (rule run_step [OF run])
  then show ?thesis
    using queue a
    by (intro exI [of _ "?sv ?w [(?a, s), (b, t)] # ?sv w [(a, s), (b, t)] # svs"] exI [of _ "(?a, s)"]) simp
qed

theorem bodies_confined_witness:
  "\<exists>svs. server_run evening_app svs \<and>
     (\<exists>sv \<in> set svs. \<exists>m \<in> set (messages (w_db (sv_world sv))). ms_id m = ''01A'' \<and> ms_room_id m = ''R'' \<and>
        ms_recipient_account_id m = 1 \<and> ms_body m = ''sealed'') \<and>
     (\<exists>sv \<in> set svs. in_room ''R'' 1 (w_db (sv_world sv)))"
proof -
  obtain svs y where run: "server_run evening_app svs" "y \<in> set (sv_live (hd svs))" "me_id (se_me (fst y)) = 1"
    "Message ''01A'' ''R'' ''kai'' 5 ''sealed'' True False None \<in> set (ch_queue (w_chans (sv_world (hd svs)) (live_tx y)))"
    using evening_reading by blast
  show ?thesis
    using bodies_confined [OF run(1,2,4)] run(1,3) by (intro exI [of _ svs]) simp
qed

text \<open>
  C4. An accepted message arrives at once: in every reachable state, when the database serves the calls, each
  running session of each member of the room finds exactly one new frame on its channel, with the ciphertext
  under that member's own key; the sender's sessions find the self copy, with the client's id, if the sender
  made one; and no other session finds anything.
\<close>

theorem send_reaches_sessions:
  assumes "server_reach A sv" and "has_store A" and "w_faults (sv_world sv) = []"
    and "(ss, s) \<in> set (sv_live sv)" and "y \<in> set (sv_live sv)"
    and "\<forall>m \<in> set (messages (w_db (sv_world sv))). ms_id m \<noteq> ev_ulid E"
    and "send_accepted (lib A) (se_me ss) rid bodies (w_db (sv_world sv))"
  shows "ch_queue (w_chans (snd (handle_frame A E (Send rid bodies client) ss (sv_world sv))) (live_tx y)) =
    ch_queue (w_chans (sv_world sv) (live_tx y)) @
     (case map_of bodies (b64_encode (lib A) (me_x25519_pub (se_me (fst y)))) of None \<Rightarrow> []
      | Some body \<Rightarrow> let frame = Message (ev_ulid E) rid (me_username (se_me ss)) (ev_now E 0) body False False in
          if me_id (se_me (fst y)) = me_id (se_me ss) then [frame (Some client)]
          else if in_room rid (me_id (se_me (fst y))) (w_db (sv_world sv)) then [frame None] else [])"
  using send_reaches [OF server_reach_ok [OF assms(1)] assms(2-7), of client]
  by (simp add: handle_frame_def Let_def session_copy_def cong: option.case_cong)

theorem send_reaches_sessions_witness:
  "\<exists>(sv :: server) a b. {a, b} \<subseteq> set (sv_live sv) \<and>
     ch_queue (w_chans (snd (handle_frame evening_app sample_env (Send ''R'' letter 7) (fst a) (sv_world sv))) (live_tx b)) =
     ch_queue (w_chans (sv_world sv) (live_tx b)) @ [Message ''01J'' ''R'' ''court'' 1000 ''sealed'' False False None]"
proof -
  obtain w a b s t svs where run: "server_run evening_app (\<lparr>sv_world = w, sv_opening = [], sv_live = [(a, s), (b, t)]\<rparr> # svs)"
    and w: "w_faults w = []" "w_db w \<in> same_messages evening"
    and ab: "me_id (se_me a) = 1" "me_username (se_me a) = ''court''" "me_x25519_pub (se_me a) = [10]"
      "me_id (se_me b) = 2" "me_x25519_pub (se_me b) = [20]"
    using evening_run by (auto simp: rec_ident_def)
  have "\<forall>m \<in> set (messages (w_db w)). ms_id m \<noteq> ev_ulid sample_env"
    using w(2) by (simp add: same_messages_def evening_rows sample_env_def)
  then have "ch_queue (w_chans (snd (handle_frame evening_app sample_env (Send ''R'' letter 7) a w)) (live_tx (b, t))) =
     ch_queue (w_chans w (live_tx (b, t))) @ [Message ''01J'' ''R'' ''court'' 1000 ''sealed'' False False None]"
    using send_reaches_sessions [OF run_reach [OF run], of a s "(b, t)" sample_env "''R''" letter 7]
      evening_letter [OF w(2) ab(1,3)] evening_frames(3) [OF w(2)] w(1) ab
    by (simp add: letter_def sample_crates_def sample_env_def)
  then show ?thesis
    by (intro exI [of _ "\<lparr>sv_world = w, sv_opening = [], sv_live = [(a, s), (b, t)]\<rparr>"] exI [of _ "(a, s)"]
        exI [of _ "(b, t)"]) simp
qed

end
