(* ===== verification/Handling.thy ===== *)
theory Handling
  imports Guarantees Guards
begin

text \<open>
  Exact effects of further handlers: TURN credentials, attachments, read receipts, alert pushes.
\<close>

section \<open>TURN credentials\<close>

lemma send_frame_still: "still w v \<Longrightarrow> w_chans (send_frame tx f v) = w_chans (send_frame tx f w)"
  by (simp add: still_def send_frame_def)

text \<open>
  A request for TURN credentials is always answered, with one frame to the session that asked, and changes
  nothing else; whatever the database does, the answer carries credentials only if the account has a partner and
  the service is configured and answers, and is the empty list otherwise.
\<close>

theorem turn_needs_partner:
  "\<exists>ice. w_chans (handle_call_turn_request A me call tx w) = w_chans (send_frame tx (CallTurnGrant call ice) w)
    \<and> w_db (handle_call_turn_request A me call tx w) = w_db w
    \<and> (ice = empty_ice \<or> (has_store A \<and> partner_of (w_db w) (me_id me) \<noteq> None \<and>
         (\<exists>cfg. turn A = Some cfg \<and> ice_servers A cfg = Some ice)))"
proof -
  define G where "G (v :: world) \<longleftrightarrow> (\<exists>ice. w_chans v = w_chans (send_frame tx (CallTurnGrant call ice) w) \<and> w_db v = w_db w \<and>
      (ice = empty_ice \<or> (has_store A \<and> partner_of (w_db w) (me_id me) \<noteq> None \<and>
         (\<exists>cfg. turn A = Some cfg \<and> ice_servers A cfg = Some ice))))" for v
  have grant: "G (send_frame tx (CallTurnGrant call ice) v)"
    if "still w v" "w_db v = w_db w" "ice = empty_ice \<or> (has_store A \<and> partner_of (w_db w) (me_id me) \<noteq> None \<and>
         (\<exists>cfg. turn A = Some cfg \<and> ice_servers A cfg = Some ice))" for ice v
    unfolding G_def using that send_frame_still [of w v] by auto
  have "G (handle_call_turn_request A me call tx w)"
    unfolding handle_call_turn_request_def partner_account_id_for_def Let_def
    by (auto intro!: db_readI [where G = G] grant simp: partner_of_by_id [symmetric] split: option.split)
  then show ?thesis
    by (simp add: G_def)
qed

section \<open>Attachments\<close>

lemma upload_served:
  assumes "has_store A" and "r2 A = Some presigner" and "w_faults w = []"
  shows "handle_request_upload A E me request rid n tx w =
    (if n \<le> 0 \<or> MAX_ATTACHMENT_BYTES < n then send_error tx BLOB_TOO_LARGE '''' w
     else if \<not> in_room rid (me_id me) (w_db w) then send_error tx UNKNOWN_ROOM '''' w
     else case insert_attachment (ev_ulid E) rid (me_id me) n (w_db w) of
         (Inl e, d) \<Rightarrow> send_error tx ''Internal'' '''' (w\<lparr>w_db := d\<rparr>)
       | (Inr _, d) \<Rightarrow> send_frame tx (UploadGranted request (ev_ulid E) (presign_put presigner (ev_ulid E) PRESIGN_TTL)
           (ev_now E 0 + PRESIGN_TTL)) (w\<lparr>w_db := d\<rparr>))"
  using assms by (simp add: handle_request_upload_def is_member_def db_call_served)

text \<open>
  C26. Attachments: an upload of 1 byte to 256 MiB into an own room is granted and recorded under the fresh key, every
  other one is refused without a trace; and from then on exactly the members of that room are granted a download
  of the key, for the object the upload URL was signed for.
\<close>

theorem upload_then_download:
  assumes A: "has_store A" "r2 A = Some presigner" "w_faults w = []" and ok: "schema_ok (w_db w)"
    and fresh: "ev_ulid E \<notin> at_blob_key ` set (attachments (w_db w))"
    and w': "w' = handle_request_upload A E me request rid n tx w"
  shows "if 1 \<le> n \<and> n \<le> 256 * 1024 * 1024 \<and> in_room rid (me_id me) (w_db w)
    then w_chans w' = w_chans (send_frame tx (UploadGranted request (ev_ulid E)
          (presign_put presigner (ev_ulid E) PRESIGN_TTL) (ev_now E 0 + PRESIGN_TTL)) w)
      \<and> w_db w' = (w_db w)\<lparr>attachments := attachments (w_db w) @ [\<lparr>at_blob_key = ev_ulid E, at_room_id = rid,
          at_uploader_account_id = me_id me, at_byte_size = n, at_committed = False, at_created_at = db_now (w_db w)\<rparr>]\<rparr>
      \<and> (\<forall>E' them tx'. handle_request_download A E' them (ev_ulid E) tx' w' =
          (if in_room rid (me_id them) (w_db w)
           then send_frame tx' (DownloadGranted (ev_ulid E) (presign_get presigner (ev_ulid E) PRESIGN_TTL)
             (ev_now E' 0 + PRESIGN_TTL)) w'
           else send_error tx' UNKNOWN_BLOB '''' w'))
    else \<exists>code. w' = send_error tx code '''' w"
proof (cases "1 \<le> n \<and> n \<le> 256 * 1024 * 1024 \<and> in_room rid (me_id me) (w_db w)")
  case True
  let ?row = "\<lparr>at_blob_key = ev_ulid E, at_room_id = rid, at_uploader_account_id = me_id me, at_byte_size = n,
    at_committed = False, at_created_at = db_now (w_db w)\<rparr>"
  let ?d = "(w_db w)\<lparr>attachments := attachments (w_db w) @ [?row]\<rparr>"
  have "rid \<in> room_ids (w_db w)" "me_id me \<in> account_ids (w_db w)"
    using True ok in_room_ids [of "w_db w" rid "me_id me"] by (auto simp: schema_ok_def)
  then have "insert_attachment (ev_ulid E) rid (me_id me) n (w_db w) = (Inr (), ?d)"
    using fresh by (simp add: insert_attachment_def)
  then have eq: "w' = send_frame tx (UploadGranted request (ev_ulid E)
      (presign_put presigner (ev_ulid E) PRESIGN_TTL) (ev_now E 0 + PRESIGN_TTL)) (w\<lparr>w_db := ?d\<rparr>)"
    using True by (simp add: w' upload_served [OF A] MAX_ATTACHMENT_BYTES_def)
  have "find_first (\<lambda>t. at_blob_key t = ev_ulid E) (attachments (w_db w)) = None"
    using fresh by (auto simp: find_first_None_iff image_iff)
  then have "room_of_blob (ev_ulid E) (w_db w') = Some rid"
    by (simp add: eq room_of_blob_def find_first_append)
  moreover have "in_room rid i (w_db w') = in_room rid i (w_db w)" for i
    by (simp add: eq in_room_def)
  moreover have "w_faults w' = []"
    using A(3) by (simp add: eq)
  ultimately show ?thesis
    using True download_served [OF A(1,2)] by (simp add: eq send_frame_def)
next
  case False
  then show ?thesis
    by (auto simp: w' upload_served [OF A] MAX_ATTACHMENT_BYTES_def)
qed

theorem upload_then_download_witness:
  "\<exists>w. w = handle_request_upload sample_app sample_env court 3 ''R'' 1000 0 (sample_world home) \<and>
     handle_request_download sample_app sample_env kai ''01J'' 1 w =
       send_frame 1 (DownloadGranted ''01J'' ''get:01J'' (1000 + PRESIGN_TTL)) w"
proof -
  let ?w = "handle_request_upload sample_app sample_env court 3 ''R'' 1000 0 (sample_world home)"
  have "handle_request_download sample_app sample_env kai (ev_ulid sample_env) 1 ?w = send_frame 1
      (DownloadGranted (ev_ulid sample_env) (presign_get sample_presigner (ev_ulid sample_env) PRESIGN_TTL)
        (ev_now sample_env 0 + PRESIGN_TTL)) ?w"
    using upload_then_download [of sample_app sample_presigner "sample_world home" sample_env ?w court 3 "''R''" 1000 0]
    by simp
  then show ?thesis
    by (simp add: sample_env_def sample_presigner_def)
qed

section \<open>Alert pushes\<close>

text \<open>The alert for one token, and the tokens the answers condemn, when \<open>n\<close> messages have been pushed before.\<close>

definition alert_for :: "string \<Rightarrow> int \<Rightarrow> device_token \<Rightarrow> push_message" where
  "alert_for rid unread t = \<lparr>pm_token = dt_apns_token t, pm_environment = dt_environment t, pm_room_id = rid,
     pm_badge = of_int unread, pm_push_type = Alert, pm_call_id = None, pm_video = False\<rparr>"

fun condemned :: "(nat \<Rightarrow> push_message \<Rightarrow> send_outcome) \<Rightarrow> nat \<Rightarrow> push_message list \<Rightarrow> string set" where
  "condemned snd_fn n [] = {}"
| "condemned snd_fn n (m # ms) =
    (if snd_fn n m = DropToken then insert (pm_token m) else (\<lambda>s. s)) (condemned snd_fn (Suc n) ms)"

lemma push_all:
  assumes "w_faults w = []"
  shows "fold (\<lambda>t. send_push snd_fn i (alert_for rid unread t) (dt_apns_token t)) ts w =
    w\<lparr>w_pushed := w_pushed w @ map (alert_for rid unread) ts,
      w_db := (w_db w)\<lparr>device_push_tokens := filter (\<lambda>r. \<not> (pt_account_id r = i \<and>
        pt_apns_token r \<in> condemned snd_fn (length (w_pushed w)) (map (alert_for rid unread) ts)))
        (device_push_tokens (w_db w))\<rparr>\<rparr>"
  using assms
proof (induction ts arbitrary: w)
  case (Cons t ts)
  have one: "send_push snd_fn i (alert_for rid unread t) (dt_apns_token t) w = w\<lparr>w_pushed := w_pushed w @ [alert_for rid unread t],
      w_db := (w_db w)\<lparr>device_push_tokens := (if snd_fn (length (w_pushed w)) (alert_for rid unread t) = DropToken
        then filter (\<lambda>r. \<not> (pt_account_id r = i \<and> pt_apns_token r = dt_apns_token t)) (device_push_tokens (w_db w))
        else device_push_tokens (w_db w))\<rparr>\<rparr>"
    using Cons.prems by (simp add: send_push_def Let_def db_call_served delete_token_value_def)
  have tok: "pm_token (alert_for rid unread t) = dt_apns_token t"
    by (simp add: alert_for_def)
  have two: "(\<lambda>r :: push_token_row. (a r \<longrightarrow> b r) \<and> (a r \<longrightarrow> c r)) = (\<lambda>r. a r \<longrightarrow> b r \<and> c r)" for a b c
    by auto
  show ?case
    using Cons.prems by (simp add: one Cons.IH tok) (simp add: two)
qed simp

text \<open>
  C27. What a spawned push task does when the database serves it: it sends one alert to each alert token of the
  recipient, in the order of registration, with the number of the recipient's unread messages as the badge,
  and removes exactly the recipient's tokens that APNs condemned; nothing else is changed.
\<close>

theorem notify_exact:
  assumes "w_faults w = []"
  shows "notify_recipient snd_fn i rid w =
    (let unread = int (length (filter (\<lambda>m. ms_recipient_account_id m = i \<and> ms_from_account_id m \<noteq> i \<and> ms_read_at m = None)
           (messages (w_db w))));
         alerts = map (alert_for rid unread) (map (\<lambda>t. \<lparr>dt_apns_token = pt_apns_token t, dt_environment = pt_environment t\<rparr>)
           (filter (\<lambda>t. pt_account_id t = i \<and> pt_kind t = ''alert'') (device_push_tokens (w_db w))))
     in w\<lparr>w_pushed := w_pushed w @ alerts,
          w_db := (w_db w)\<lparr>device_push_tokens := filter (\<lambda>r. \<not> (pt_account_id r = i \<and>
            pt_apns_token r \<in> condemned snd_fn (length (w_pushed w)) alerts)) (device_push_tokens (w_db w))\<rparr>\<rparr>)"
proof -
  define k where "k = length (filter (\<lambda>m. ms_recipient_account_id m = i \<and> ms_from_account_id m \<noteq> i \<and> ms_read_at m = None)
    (messages (w_db w)))"
  define ts where "ts = map (\<lambda>t. \<lparr>dt_apns_token = pt_apns_token t, dt_environment = pt_environment t\<rparr>)
    (filter (\<lambda>t. pt_account_id t = i \<and> pt_kind t = ''alert'') (device_push_tokens (w_db w)))"
  have "notify_recipient snd_fn i rid w = fold (\<lambda>t. send_push snd_fn i (alert_for rid (int k) t) (dt_apns_token t)) ts w"
    using assms by (simp add: notify_recipient_def tokens_for_account_def tokens_of_kind_def unread_count_def
        KIND_ALERT_def alert_for_def k_def ts_def)
  then show ?thesis
    unfolding push_all [OF assms] by (simp only: k_def ts_def Let_def)
qed


text \<open>Two devices of account 1; APNs has given up on the first.\<close>

definition phones :: db where
  "phones = home\<lparr>
     messages := [\<lparr>ms_id = ''M'', ms_room_id = ''R'', ms_from_account_id = 2, ms_recipient_account_id = 1,
       ms_body = ''c'', ms_ts = 0, ms_read_at = None\<rparr>],
     device_push_tokens := map (\<lambda>t. \<lparr>pt_account_id = 1, pt_device_id = t, pt_apns_token = t, pt_environment = ''production'',
       pt_kind = ''alert'', pt_updated_at = 0\<rparr>) [''old'', ''new'']\<rparr>"

theorem notify_exact_witness:
  "let v = notify_recipient (\<lambda>_ m. if pm_token m = ''old'' then DropToken else Delivered) 1 ''R'' (sample_world phones)
   in map (\<lambda>m. (pm_token m, pm_badge m)) (w_pushed v) = [(''old'', 1), (''new'', 1)] \<and>
     map pt_apns_token (device_push_tokens (w_db v)) = [''new'']"
  using notify_exact [of "sample_world phones" "\<lambda>_ m. if pm_token m = ''old'' then DropToken else Delivered" 1 "''R''"]
  by (simp add: phones_def alert_for_def Let_def)

section \<open>Read receipts\<close>

lemma map_of_push_by_sender: "map_of (push_by_sender f mid g) i =
    (if i = f then Some ((case map_of g i of None \<Rightarrow> [] | Some ids \<Rightarrow> ids) @ [mid]) else map_of g i)"
  by (induction f mid g rule: push_by_sender.induct) auto

lemma keys_push_by_sender: "map fst (push_by_sender f mid g) = map fst g @ (if f \<in> fst ` set g then [] else [f])"
  by (induction f mid g rule: push_by_sender.induct) auto

text \<open>The groups: one for each sender, with the identifiers of that sender's messages in order.\<close>

lemma groups_from:
  "distinct (map fst g) \<Longrightarrow> distinct (map fst (fold (\<lambda>(mid, f). push_by_sender f mid) flipped g)) \<and>
    map_of (fold (\<lambda>(mid, f). push_by_sender f mid) flipped g) i =
      (let ids = map fst (filter (\<lambda>x. snd x = i) flipped) in
       if ids = [] then map_of g i else Some ((case map_of g i of None \<Rightarrow> [] | Some before \<Rightarrow> before) @ ids))"
proof (induction flipped arbitrary: g)
  case (Cons x flipped)
  have "distinct (map fst (push_by_sender (snd x) (fst x) g))"
    using Cons.prems unfolding keys_push_by_sender by auto
  then show ?case
    using Cons.IH [of "push_by_sender (snd x) (fst x) g"]
    by (simp add: case_prod_beta Let_def map_of_push_by_sender)
qed simp

lemma filter_keyed: "distinct (map fst g) \<Longrightarrow>
    filter (\<lambda>x. fst x = i) g = (case map_of g i of None \<Rightarrow> [] | Some v \<Rightarrow> [(i, v)])"
  by (induction g) (auto simp: filter_empty_conv map_of_eq_None_iff split: option.split intro: rev_image_eqI)

lemma group_of_sender: "filter (\<lambda>x. fst x = i) (group_by_sender flipped) =
    (let ids = map fst (filter (\<lambda>x. snd x = i) flipped) in if ids = [] then [] else [(i, ids)])"
  using groups_from [of "[]" flipped i] unfolding group_by_sender_def
  by (simp add: filter_keyed Let_def)


lemma relay_reads:
  assumes "\<And>u. distinct (sessions_of (w_routing w) u)" and "ch_open (w_chans w c)" and "w_faults w = []"
    and "account_by_id i (w_db w) \<noteq> None"
    and "\<And>a. a \<in> set (accounts (w_db w)) \<Longrightarrow> c \<in> set (sessions_of (w_routing w) (acc_username a)) \<longleftrightarrow> acc_id a = i"
  shows "ch_queue (w_chans (fold (relay_read me rid) gs w) c) = ch_queue (w_chans w c) @
    map (\<lambda>g. Read rid (snd g) (me_username me)) (filter (\<lambda>g. fst g = i) gs)"
  using assms
proof (induction gs arbitrary: w)
  case (Cons g gs)
  have read: "relay_read me rid g w = (case account_by_id (fst g) (w_db w) of None \<Rightarrow> w
      | Some a \<Rightarrow> deliver (acc_username a) (Read rid (snd g) (me_username me)) w)"
    using Cons.prems(3) by (simp add: relay_read_def lookup_full_account_by_id_def full_account_record_def split: option.split)
  show ?case
  proof (cases "account_by_id (fst g) (w_db w)")
    case None
    then have "fst g \<noteq> i"
      using Cons.prems(4) by auto
    then show ?thesis
      using Cons.IH [OF Cons.prems] None by (simp add: read)
  next
    case (Some a)
    let ?v = "deliver (acc_username a) (Read rid (snd g) (me_username me)) w"
    have "c \<in> set (sessions_of (w_routing w) (acc_username a)) \<longleftrightarrow> fst g = i"
      using Cons.prems(5) [of a] account_by_id_SomeD [OF Some] by simp
    then have v: "ch_queue (w_chans ?v c) = ch_queue (w_chans w c) @
        (if fst g = i then [Read rid (snd g) (me_username me)] else [])"
      using queue_deliver [OF Cons.prems(1)] Cons.prems(2) by simp
    have "ch_queue (w_chans (fold (relay_read me rid) gs ?v) c) = ch_queue (w_chans ?v c) @
        map (\<lambda>g. Read rid (snd g) (me_username me)) (filter (\<lambda>g. fst g = i) gs)"
      by (rule Cons.IH) (simp_all add: Cons.prems)
    then show ?thesis
      by (simp add: read Some v)
  qed
qed simp

lemma mark_read_served:
  assumes "has_store A" and "w_faults w = []" and "in_room rid (me_id me) (w_db w)"
  shows "handle_mark_read A me rid up_to tx w = fold (relay_read me rid)
      (group_by_sender (map (\<lambda>m. (ms_id m, ms_from_account_id m))
         (filter (unread_upto rid (me_id me) up_to) (messages (w_db w)))))
      (w\<lparr>w_db := snd (mark_read rid (me_id me) up_to (w_db w))\<rparr>)"
  using assms by (simp add: handle_mark_read_def is_member_def db_call_served mark_read_def)

lemma relay_reads_db: "w_db (fold (relay_read me rid) gs w) = w_db w"
proof (induction gs arbitrary: w)
  case (Cons g gs)
  have "w_db (relay_read me rid g w) = w_db w"
    unfolding relay_read_def lookup_full_account_by_id_def
    by (auto intro!: db_readI [where G = "\<lambda>v. w_db v = w_db w"] simp: deliver_def split: option.split)
  then show ?case
    using Cons.IH by simp
qed simp

text \<open>
  C14. Read receipts: in every reachable state, when a member reports having read a room up to a message and
  the database serves the calls, exactly the incoming messages up to it that were unread become read, and each
  running session of their senders finds one receipt with the identifiers of its own messages among them, and
  the name of the reader; no other session finds anything.
\<close>

theorem receipts_reach_senders:
  assumes "server_reach A sv" and "has_store A" and "w_faults (sv_world sv) = []"
    and "in_room rid (me_id (se_me ss)) (w_db (sv_world sv))" and y: "y \<in> set (sv_live sv)"
    and v: "(ss', v) = handle_frame A E (MarkRead rid up_to) ss (sv_world sv)"
  shows "w_db v = (w_db (sv_world sv))\<lparr>messages := update_where (unread_upto rid (me_id (se_me ss)) up_to)
        (\<lambda>m. m\<lparr>ms_read_at := Some (db_now (w_db (sv_world sv)))\<rparr>) (messages (w_db (sv_world sv)))\<rparr> \<and>
    ch_queue (w_chans v (live_tx y)) = ch_queue (w_chans (sv_world sv) (live_tx y)) @
     (let ids = map ms_id (filter (\<lambda>m. ms_from_account_id m = me_id (se_me (fst y)))
        (filter (unread_upto rid (me_id (se_me ss)) up_to) (messages (w_db (sv_world sv)))))
      in if ids = [] then [] else [Read rid ids (me_username (se_me ss))])"
proof -
  let ?w = "sv_world sv" and ?me = "se_me ss" and ?i = "me_id (se_me (fst y))"
  let ?w1 = "?w\<lparr>w_db := snd (mark_read rid (me_id ?me) up_to (w_db ?w))\<rparr>"
  let ?gs = "group_by_sender (map (\<lambda>m. (ms_id m, ms_from_account_id m))
      (filter (unread_upto rid (me_id ?me) up_to) (messages (w_db ?w))))"
  have ok: "server_ok sv"
    by (rule server_reach_ok [OF assms(1)])
  have eq: "v = fold (relay_read ?me rid) ?gs ?w1"
    using v mark_read_served [OF assms(2-4)] by (simp add: handle_frame_def Let_def)
  have same: "accounts (snd (mark_read rid (me_id ?me) up_to (w_db ?w))) = accounts (w_db ?w)"
    by (simp add: mark_read_def)
  obtain a where a: "a \<in> set (accounts (w_db ?w))" "acc_ident a = rec_ident (se_me (fst y))"
    using session_account [OF ok y] .
  then have "account_by_id ?i (w_db ?w) \<noteq> None"
    using server_ok_parts(1) [OF ok] account_by_id_unique [OF _ a(1)]
    by (simp add: schema_ok_def accounts_ok_def acc_ident_def rec_ident_def)
  then have known: "account_by_id ?i (w_db ?w1) \<noteq> None"
    by (simp add: account_by_id_def same)
  have "ch_queue (w_chans v (live_tx y)) = ch_queue (w_chans ?w (live_tx y)) @
      map (\<lambda>g. Read rid (snd g) (me_username ?me)) (filter (\<lambda>g. fst g = ?i) ?gs)"
    unfolding eq using server_ok_parts(2,3) [OF ok] y assms(3) known session_of_name [OF ok y]
    by (subst relay_reads [of _ _ ?i]) (simp_all add: same)
  moreover have "w_db v = snd (mark_read rid (me_id ?me) up_to (w_db ?w))"
    unfolding eq by (simp add: relay_reads_db)
  ultimately show ?thesis
    by (simp add: group_of_sender Let_def filter_map comp_def mark_read_def)
qed


theorem receipts_reach_senders_witness:
  "\<exists>(sv :: server) a b. {a, b} \<subseteq> set (sv_live sv) \<and> me_username (se_me (fst b)) = ''kai'' \<and>
     ch_queue (w_chans (snd (handle_frame evening_app sample_env (MarkRead ''R'' ''01A'') (fst a) (sv_world sv))) (live_tx b)) =
     ch_queue (w_chans (sv_world sv) (live_tx b)) @ [Read ''R'' [''01A''] ''court'']"
proof -
  obtain w a b s t svs where run: "server_run evening_app (\<lparr>sv_world = w, sv_opening = [], sv_live = [(a, s), (b, t)]\<rparr> # svs)"
    and w: "w_faults w = []" "w_db w \<in> same_messages evening"
    and ab: "me_id (se_me a) = 1" "me_username (se_me a) = ''court''" "me_id (se_me b) = 2" "me_username (se_me b) = ''kai''"
    using evening_run by (auto simp: rec_ident_def)
  obtain ss' v where v: "(ss', v) = handle_frame evening_app sample_env (MarkRead ''R'' ''01A'') a w"
    by (metis surj_pair)
  have "ch_queue (w_chans v (live_tx (b, t))) = ch_queue (w_chans w (live_tx (b, t))) @ [Read ''R'' [''01A''] ''court'']"
    using receipts_reach_senders [OF run_reach [OF run], of "''R''" a "(b, t)" ss' v sample_env "''01A''"]
      evening_frames(2) [OF w(2)] w ab v by (simp add: same_messages_def evening_rows unread_upto_def)
  then show ?thesis
    using ab(4) by (intro exI [of _ "\<lparr>sv_world = w, sv_opening = [], sv_live = [(a, s), (b, t)]\<rparr>"] exI [of _ "(a, s)"]
        exI [of _ "(b, t)"]) (simp flip: v)
qed

end
