(* ===== verification/Announcing.thy ===== *)
theory Announcing
  imports Handling Joining
begin

text \<open>
  Who hears of a change to a room: the frames that creating, renaming and leaving a room and typing in it
  put on the channels of the running sessions, in every state the server can reach.
\<close>

section \<open>A frame to the members of a room\<close>

text \<open>From one state to the next, a channel receives these frames.\<close>

definition hears :: "sender \<Rightarrow> world \<Rightarrow> world \<Rightarrow> room_server_frame list \<Rightarrow> bool" where
  "hears c w w' fs \<longleftrightarrow> ch_queue (w_chans w' c) = ch_queue (w_chans w c) @ fs"

lemma queue_deliver_all:
  assumes "\<And>u. distinct (sessions_of (w_routing w) u)" and "ch_open (w_chans w c)"
  shows "ch_queue (w_chans (deliver_all f ms w) c) = ch_queue (w_chans w c) @
    map (\<lambda>_. f) (filter (\<lambda>m. c \<in> set (sessions_of (w_routing w) (m_username m))) ms)"
  using assms
proof (induction ms arbitrary: w)
  case (Cons m ms)
  have "ch_queue (w_chans (deliver_all f ms (deliver (m_username m) f w)) c) = ch_queue (w_chans (deliver (m_username m) f w) c) @
      map (\<lambda>_. f) (filter (\<lambda>m. c \<in> set (sessions_of (w_routing w) (m_username m))) ms)"
    using Cons.IH [of "deliver (m_username m) f w"] by (simp add: Cons.prems)
  then show ?case
    using queue_deliver [OF Cons.prems(1)] Cons.prems(2) by (simp add: deliver_all_def)
qed (simp add: deliver_all_def)

lemma deliver_all_db [simp]: "w_db (deliver_all f ms w) = w_db w"
  by (induction ms arbitrary: w) (simp_all add: deliver_all_def)

lemma deliver_others_all: "deliver_others me f ms = deliver_all f (filter (\<lambda>m. m_account_id m \<noteq> me_id me) ms)"
  by (rule ext, induction ms) (simp_all add: deliver_others_def deliver_all_def fold_filter)

text \<open>What the members of a room, or some of them, are told: the roster is that of \<open>d\<close>.\<close>

lemma members_told:
  assumes ok: "server_ok sv" and y: "y \<in> set (sv_live sv)" and w: "still (sv_world sv) w"
    and d: "schema_ok d" "accounts d = accounts (w_db (sv_world sv))"
  shows "hears (live_tx y) (sv_world sv) (deliver_all f (filter (\<lambda>m. Q (m_account_id m)) (roster rid d)) w)
    (if in_room rid (me_id (se_me (fst y))) d \<and> Q (me_id (se_me (fst y))) then [f] else [])"
proof -
  let ?i = "me_id (se_me (fst y))"
  have ws: "w_routing w = w_routing (sv_world sv)" "w_chans w = w_chans (sv_world sv)"
    using w by (simp_all add: still_def)
  obtain a where a: "a \<in> set (accounts d)" "acc_id a = ?i"
    using session_account [OF ok y] d(2) by (metis acc_ident_def fst_conv rec_ident_def)
  have "live_tx y \<in> set (sessions_of (w_routing w) (m_username m)) \<longleftrightarrow> m_account_id m = acc_id a"
    if "m \<in> set (roster rid d)" for m
    using that session_of_name [OF ok y] by (auto simp: roster_members [OF d(1)] d(2) member_of_row_def a(2) ws)
  then have "filter (\<lambda>m. live_tx y \<in> set (sessions_of (w_routing w) (m_username m)))
      (filter (\<lambda>m. Q (m_account_id m)) (roster rid d)) =
      filter (\<lambda>m. Q (m_account_id m)) (filter (\<lambda>m. m_account_id m = acc_id a) (roster rid d))"
    by (auto intro!: filter_cong)
  also have "\<dots> = (if in_room rid ?i d \<and> Q ?i then [member_of_row a] else [])"
    unfolding roster_row [OF d(1) a(1)] by (simp add: a(2) member_of_row_def)
  finally show ?thesis
    using server_ok_parts(2,3) [OF ok] y unfolding hears_def by (subst queue_deliver_all) (simp_all add: ws)
qed

section \<open>Renaming, leaving, typing\<close>

lemma rename_served:
  assumes "has_store A" and "w_faults w = []" and "in_room rid (me_id me) (w_db w)" and "schema_ok (w_db w)"
  shows "handle_rename_room A me rid nm tx w = (if 64 < utf8_chars nm then send_error tx ''BadName'' ''name too long'' w
    else deliver_all (RoomRenamed rid nm) (roster rid (snd (rename_room rid nm (w_db w))))
      (w\<lparr>w_db := snd (rename_room rid nm (w_db w))\<rparr>))"
proof -
  have "rid \<in> room_ids (w_db w)"
    using assms(3,4) in_room_ids(1) by (auto simp: schema_ok_def)
  then show ?thesis
    using assms(1-3) by (simp add: handle_rename_room_def is_member_def members_for_room_def db_call_served
        rename_room_def MAX_ROOM_NAME_CHARS_def)
qed

lemma leave_served:
  assumes "has_store A" and "w_faults w = []" and "in_room rid (me_id me) (w_db w)"
    and "leave_room rid (me_id me) (w_db w) = (Inr out, d)"
  shows "handle_leave_room A me rid tx w =
    deliver_others me (MemberLeft rid (me_username me)) (roster rid (w_db w)) (w\<lparr>w_db := d\<rparr>)"
  using assms by (simp add: handle_leave_room_def is_member_def members_for_room_def db_call_served)

lemma typing_served:
  assumes "has_store A" and "w_faults w = []" and "in_room rid (me_id me) (w_db w)"
  shows "handle_typing A me rid typing w = deliver_others me (Typing rid (me_username me) typing) (roster rid (w_db w)) w"
  using assms by (simp add: handle_typing_def is_member_def members_for_room_def Let_def)

text \<open>
  C17. Who hears of a change to a room: in every reachable state, when the database serves the calls and the
  sender is a member, a new name of at most 64 characters reaches each running session of each member, the
  sender's own included; a departure and a typing notice reach each running session of each other member;
  each finds exactly one frame, and no other session finds anything.
\<close>

theorem room_events_reach:
  assumes "server_reach A sv" and "has_store A" and "w_faults (sv_world sv) = []" and y: "y \<in> set (sv_live sv)"
    and "in_room rid (me_id me) (w_db (sv_world sv))"
  defines "here \<equiv> in_room rid (me_id (se_me (fst y))) (w_db (sv_world sv))"
    and "other \<equiv> me_id (se_me (fst y)) \<noteq> me_id me"
  shows "(utf8_chars nm \<le> 64 \<longrightarrow> hears (live_tx y) (sv_world sv) (handle_rename_room A me rid nm tx (sv_world sv))
        (if here then [RoomRenamed rid nm] else [])) \<and>
    (\<not> isl (fst (leave_room rid (me_id me) (w_db (sv_world sv)))) \<longrightarrow>
      hears (live_tx y) (sv_world sv) (handle_leave_room A me rid tx (sv_world sv))
        (if here \<and> other then [MemberLeft rid (me_username me)] else [])) \<and>
    hears (live_tx y) (sv_world sv) (handle_typing A me rid typing (sv_world sv))
        (if here \<and> other then [Typing rid (me_username me) typing] else [])"
proof (intro conjI impI)
  let ?w = "sv_world sv" and ?d = "w_db (sv_world sv)"
  have ok: "server_ok sv" and schema: "schema_ok ?d"
    using server_reach_ok [OF assms(1)] server_ok_parts(1) by blast+
  have still: "still ?w (?w\<lparr>w_db := d'\<rparr>)" for d'
    by (simp add: still_def)
  {
    assume "utf8_chars nm \<le> 64"
    moreover have "schema_ok (snd (rename_room rid nm ?d))"
      using keeps_rename_room [of rid nm] schema by (simp add: keeps_def)
    moreover have "accounts (snd (rename_room rid nm ?d)) = accounts ?d"
      "in_room rid i (snd (rename_room rid nm ?d)) = in_room rid i ?d" for i
      by (simp_all add: rename_room_def in_room_def)
    ultimately show "hears (live_tx y) ?w (handle_rename_room A me rid nm tx ?w) (if here then [RoomRenamed rid nm] else [])"
      using members_told [OF ok y still, of "snd (rename_room rid nm ?d)" "RoomRenamed rid nm" "\<lambda>_. True" rid]
        rename_served [OF assms(2,3,5) schema] by (simp add: here_def)
  }
  note others = members_told [OF ok y _ schema refl, where Q = "\<lambda>i. i \<noteq> me_id me" and rid = rid, folded deliver_others_all]
  {
    assume "\<not> isl (fst (leave_room rid (me_id me) ?d))"
    then obtain out d where "leave_room rid (me_id me) ?d = (Inr out, d)"
      by (cases "leave_room rid (me_id me) ?d"; cases "fst (leave_room rid (me_id me) ?d)") auto
    then show "hears (live_tx y) ?w (handle_leave_room A me rid tx ?w) (if here \<and> other then [MemberLeft rid (me_username me)] else [])"
      using others [OF still] leave_served [OF assms(2,3,5)] by (simp add: here_def other_def)
  }
  show "hears (live_tx y) ?w (handle_typing A me rid typing ?w) (if here \<and> other then [Typing rid (me_username me) typing] else [])"
    using others [OF still_refl] typing_served [OF assms(2,3,5)] by (simp add: here_def other_def)
qed

theorem room_events_reach_witness:
  "\<exists>(sv :: server) a b. {a, b} \<subseteq> set (sv_live sv) \<and> me_username (se_me (fst b)) = ''kai'' \<and>
     hears (live_tx b) (sv_world sv) (handle_rename_room evening_app (se_me (fst a)) ''R'' ''home'' 0 (sv_world sv))
       [RoomRenamed ''R'' ''home''] \<and>
     hears (live_tx b) (sv_world sv) (handle_leave_room evening_app (se_me (fst a)) ''R'' 0 (sv_world sv)) [MemberLeft ''R'' ''court'']"
proof -
  obtain w a b s t svs where run: "server_run evening_app (\<lparr>sv_world = w, sv_opening = [], sv_live = [(a, s), (b, t)]\<rparr> # svs)"
    and w: "w_faults w = []" "w_db w \<in> same_messages evening"
    and ab: "me_id (se_me a) = 1" "me_username (se_me a) = ''court''" "me_id (se_me b) = 2" "me_username (se_me b) = ''kai''"
    using evening_run by (auto simp: rec_ident_def)
  let ?sv = "\<lparr>sv_world = w, sv_opening = [], sv_live = [(a, s), (b, t)]\<rparr>"
  have "room_members (w_db w) = room_members evening"
    using w(2) by (simp add: same_messages_def)
  then have "\<not> isl (fst (leave_room ''R'' 1 (w_db w)))"
    by (simp add: leave_room_cases evening_rows evening_home_eq)
  then have "hears (live_tx (b, t)) w (handle_rename_room evening_app (se_me a) ''R'' ''home'' 0 w) [RoomRenamed ''R'' ''home''] \<and>
      hears (live_tx (b, t)) w (handle_leave_room evening_app (se_me a) ''R'' 0 w) [MemberLeft ''R'' ''court'']"
    using room_events_reach [of evening_app ?sv "(b, t)" "''R''" "se_me a" "''home''" 0] run_reach [OF run]
      evening_frames(2,3) [OF w(2)] w ab by (simp add: utf8_chars_def utf8_continuation_def)
  then show ?thesis
    using ab(4) by (intro exI [of _ ?sv] exI [of _ "(a, s)"] exI [of _ "(b, t)"]) simp
qed


section \<open>Creating a room\<close>

definition created :: "string \<Rightarrow> string \<Rightarrow> account_id list \<Rightarrow> db \<Rightarrow> db" where
  "created rid nm is d = d\<lparr>rooms := rooms d @ [\<lparr>rm_id = rid, rm_name = nm, rm_created_at = db_now d\<rparr>],
     room_members := room_members d @ map (\<lambda>i. \<lparr>mb_room_id = rid, mb_account_id = i, mb_joined_at = db_now d\<rparr>) is\<rparr>"

lemma create_room_ok:
  assumes "members_ok d" and "rid \<notin> room_ids d" and "utf8_chars nm \<le> 64" and "host \<in> account_ids d"
    and "case partner of None \<Rightarrow> True | Some p \<Rightarrow> p \<in> account_ids d \<and> p \<noteq> host"
  shows "create_room_with_members rid host partner nm d = (Inr rid, created rid nm (host # (case partner of None \<Rightarrow> [] | Some p \<Rightarrow> [p])) d)"
proof -
  have "\<not> in_room rid i d" for i
    using in_room_ids(1) [OF assms(1)] assms(2) by blast
  then have "m \<in> set (room_members d) \<Longrightarrow> mb_room_id m \<noteq> rid" for m
    by (auto simp: in_room_def list_ex_iff)
  then show ?thesis
    using assms(2-5) by (auto simp: create_room_with_members_def transaction_def sql_then_def insert_room_def insert_member_def
        created_def in_room_def list_ex_iff account_ids_def room_ids_def split: option.split)
qed

lemma created_detail:
  assumes "rid \<notin> room_ids d" and "rooms d' = rooms d @ [\<lparr>rm_id = rid, rm_name = nm, rm_created_at = db_now d\<rparr>]"
  shows "room_detail rid d' = (Inr (Some \<lparr>rd_room_id = rid, rd_name = nm, rd_members = roster rid d', rd_created_at = db_now d\<rparr>), d')"
proof -
  have "find_first (\<lambda>r. rm_id r = rid) (rooms d) = None"
    using assms(1) by (auto simp: find_first_None_iff room_ids_def)
  then have "room_by_id rid d' = Some \<lparr>rm_id = rid, rm_name = nm, rm_created_at = db_now d\<rparr>"
    by (simp add: room_by_id_def assms(2) find_first_append)
  then show ?thesis
    by (simp add: room_detail_def sql_then_def members_for_room_def)
qed


lemma partner_known:
  assumes "accounts_ok d" and "partner_of d i = Some p" and "i \<in> account_ids d"
  shows "p \<in> account_ids d \<and> p \<noteq> i"
  using assms by (force simp: accounts_ok_def)

lemma keeps_rooms:
  "keeps schema_ok (create_room_with_members rid host partner nm)" "keeps schema_ok (create_invite_record i h expires r)"
  by (intro keeps_create_room keeps_insert_room keeps_insert_member keeps_create_invite keeps_delete_open_invites
      keeps_insert_invite)+

text \<open>The invite that waits in a room for a stranger, and what the handler does when the database serves it.\<close>

definition room_invite :: "app \<Rightarrow> env \<Rightarrow> account_id \<Rightarrow> bytes \<Rightarrow> db \<Rightarrow> db" where
  "room_invite A E i hash d = d\<lparr>invites := filter (\<lambda>r. \<not> is_open_invite_of i r) (invites d) @
     [\<lparr>iv_token_hash = hash, iv_inviter_id = i, iv_expires_at = ev_now E 0 + 3600 * 1000000,
       iv_consumed_at = None, iv_room_id = Some (ev_ulid E)\<rparr>]\<rparr>"

lemma create_served:
  assumes A: "has_store A" "w_faults w = []" and ok: "schema_ok (w_db w)" "me_id me \<in> account_ids (w_db w)"
    and fresh: "ev_ulid E \<notin> room_ids (w_db w)" and nm: "nm = (case name_opt of None \<Rightarrow> [] | Some n \<Rightarrow> n)" "utf8_chars nm \<le> 64"
    and inv: "generate_invite (lib A) (ev_random E) = (canonical, code, hash)" "hash \<notin> iv_token_hash ` set (invites (w_db w))"
    and partner: "partner = (if invite then partner_of (w_db w) (me_id me) else None)"
    and d1: "d1 = created (ev_ulid E) nm (me_id me # (case partner of None \<Rightarrow> [] | Some p \<Rightarrow> [p])) (w_db w)"
    and d2: "d2 = (if invite \<and> partner = None then room_invite A E (me_id me) hash d1 else d1)"
    and pend: "pend = (if invite \<and> partner = None then Some \<lparr>pi_code = code, pi_qr_png_base64 = qr_or_empty A code,
        pi_expires_at = ev_now E 0 + 3600 * 1000000\<rparr> else None)"
  shows "schema_ok d2"
    and "handle_create_room A E me name_opt invite tx w = deliver_all (RoomCreated (ev_ulid E) nm
      (map (member_into_wire (lib A)) (roster (ev_ulid E) d2)) pend) (roster (ev_ulid E) d2) (w\<lparr>w_db := d2\<rparr>)"
proof -
  have parts: "members_ok (w_db w)" "accounts_ok (w_db w)"
    using ok(1) by (simp_all add: schema_ok_def)
  have made: "create_room_with_members (ev_ulid E) (me_id me) partner nm (w_db w) = (Inr (ev_ulid E), d1)"
    unfolding d1 by (rule create_room_ok) (use parts fresh nm ok(2) partner_known [OF parts(2) _ ok(2)] partner
        in \<open>auto split: option.split if_splits\<close>)
  have invited: "create_invite_record (me_id me) hash (ev_now E 0 + 3600 * 1000000) (Some (ev_ulid E)) d1 =
      (Inr (), room_invite A E (me_id me) hash d1)"
    using inv(2) ok(2) by (subst create_invite_record_fresh)
      (simp_all add: d1 created_def account_ids_def room_ids_def room_invite_def)
  have d1_ok: "schema_ok d1"
    by (rule keepsD [OF keeps_rooms(1) ok(1) made])
  moreover have "schema_ok (room_invite A E (me_id me) hash d1)"
    by (rule keepsD [OF keeps_rooms(2) d1_ok invited])
  ultimately show "schema_ok d2"
    by (simp add: d2)
  have "room_detail (ev_ulid E) d2 = (Inr (Some \<lparr>rd_room_id = ev_ulid E, rd_name = nm, rd_members = roster (ev_ulid E) d2,
      rd_created_at = db_now (w_db w)\<rparr>), d2)"
    by (rule created_detail [OF fresh]) (simp add: d2 d1 room_invite_def created_def)
  then have announced: "announce_room A (ev_ulid E) p tx (w\<lparr>w_db := d2\<rparr>) = deliver_all (RoomCreated (ev_ulid E) nm
      (map (member_into_wire (lib A)) (roster (ev_ulid E) d2)) p) (roster (ev_ulid E) d2) (w\<lparr>w_db := d2\<rparr>)" for p
    using A(2) by (simp add: announce_room_def db_call_served)
  have "handle_create_room A E me name_opt invite tx w = create_room_for A E me nm invite partner tx w"
    using A nm by (simp add: handle_create_room_def Let_def partner MAX_ROOM_NAME_CHARS_def db_call_served
        partner_account_id_for_eq)
  also have "\<dots> = announce_room A (ev_ulid E) pend tx (w\<lparr>w_db := d2\<rparr>)"
  proof (cases "invite \<and> partner = None")
    case True
    then show ?thesis
      using A(2) made invited inv(1) by (simp add: create_room_for_def Let_def db_call_served default_expiry_def
          INVITE_TTL_SECONDS_def d2 pend)
  next
    case False
    then show ?thesis
      using A(2) made by (auto simp: create_room_for_def db_call_served d2 pend)
  qed
  finally show "handle_create_room A E me name_opt invite tx w = deliver_all (RoomCreated (ev_ulid E) nm
      (map (member_into_wire (lib A)) (roster (ev_ulid E) d2)) pend) (roster (ev_ulid E) d2) (w\<lparr>w_db := d2\<rparr>)"
    by (simp only: announced)
qed


text \<open>
  C15. Creating a room: in every reachable state, when the database serves the calls and the name has at most
  64 characters, a member of a couple who asks for the partner gets a room of exactly the two, and anyone else a
  room alone, with, if a partner was asked for, an invite that leads into this room, replaces the account's
  other open invites and is stored under the hash of its token; and each running session of each member, and
  no other session, finds one \<open>RoomCreated\<close> with the members and that invite.
\<close>

theorem created_room_reaches:
  assumes "server_reach A sv" and "has_store A" and "w_faults (sv_world sv) = []"
    and ss: "(ss, s) \<in> set (sv_live sv)" and y: "y \<in> set (sv_live sv)"
    and "ev_ulid E \<notin> room_ids (w_db (sv_world sv))" and nm: "nm = (case name_opt of None \<Rightarrow> [] | Some n \<Rightarrow> n)" "utf8_chars nm \<le> 64"
    and "generate_invite (lib A) (ev_random E) = (canonical, code, hash)" and "hash \<notin> iv_token_hash ` set (invites (w_db (sv_world sv)))"
    and v: "(ss', v) = handle_frame A E (CreateRoom name_opt invite) ss (sv_world sv)"
    and partner: "partner = (if invite then partner_of (w_db (sv_world sv)) (me_id (se_me ss)) else None)"
  shows "(\<forall>i. in_room (ev_ulid E) i (w_db v) \<longleftrightarrow> i = me_id (se_me ss) \<or> partner = Some i) \<and>
    (\<forall>rid. rid \<noteq> ev_ulid E \<longrightarrow> (\<forall>i. in_room rid i (w_db v) = in_room rid i (w_db (sv_world sv)))) \<and>
    invites (w_db v) = (if invite \<and> partner = None
      then filter (\<lambda>r. \<not> is_open_invite_of (me_id (se_me ss)) r) (invites (w_db (sv_world sv))) @
        [\<lparr>iv_token_hash = hash, iv_inviter_id = me_id (se_me ss), iv_expires_at = ev_now E 0 + 3600 * 1000000,
          iv_consumed_at = None, iv_room_id = Some (ev_ulid E)\<rparr>]
      else invites (w_db (sv_world sv))) \<and>
    hears (live_tx y) (sv_world sv) v (if me_id (se_me (fst y)) = me_id (se_me ss) \<or> partner = Some (me_id (se_me (fst y)))
      then [RoomCreated (ev_ulid E) nm (map (member_into_wire (lib A)) (roster (ev_ulid E) (w_db v)))
        (if invite \<and> partner = None then Some \<lparr>pi_code = code, pi_qr_png_base64 = qr_or_empty A code,
          pi_expires_at = ev_now E 0 + 3600 * 1000000\<rparr> else None)] else [])"
proof -
  let ?w = "sv_world sv" and ?me = "se_me ss" and ?d = "w_db (sv_world sv)"
  define d1 where "d1 = created (ev_ulid E) nm (me_id ?me # (case partner of None \<Rightarrow> [] | Some p \<Rightarrow> [p])) ?d"
  define d2 where "d2 = (if invite \<and> partner = None then room_invite A E (me_id ?me) hash d1 else d1)"
  have ok: "server_ok sv" and schema: "schema_ok ?d"
    using server_reach_ok [OF assms(1)] server_ok_parts(1) by blast+
  obtain a where "a \<in> set (accounts ?d)" "acc_ident a = rec_ident ?me"
    using session_account [OF ok ss] by (metis fst_conv)
  then have me: "me_id ?me \<in> account_ids ?d"
    by (auto simp: account_ids_def acc_ident_def rec_ident_def intro: rev_image_eqI)
  note served = create_served [OF assms(2,3) schema me assms(6-10) partner d1_def d2_def refl]
  have eq: "v = handle_create_room A E ?me name_opt invite (se_tx ss) ?w"
    using v by (simp add: handle_frame_def Let_def)
  have db: "w_db v = d2"
    unfolding eq served(2) by simp
  have room: "in_room rid i d2 \<longleftrightarrow> in_room rid i ?d \<or> rid = ev_ulid E \<and> (i = me_id ?me \<or> partner = Some i)" for rid i
    by (auto simp: d2_def d1_def room_invite_def created_def in_room_def list_ex_iff split: option.split)
  have new: "\<not> in_room (ev_ulid E) i ?d" for i
    using in_room_ids(1) [of ?d] schema assms(6) by (auto simp: schema_ok_def)
  have "accounts d2 = accounts ?d"
    by (simp add: d2_def d1_def room_invite_def created_def)
  then have "hears (live_tx y) ?w v (if in_room (ev_ulid E) (me_id (se_me (fst y))) d2 then [RoomCreated (ev_ulid E) nm
      (map (member_into_wire (lib A)) (roster (ev_ulid E) d2))
      (if invite \<and> partner = None then Some \<lparr>pi_code = code, pi_qr_png_base64 = qr_or_empty A code,
          pi_expires_at = ev_now E 0 + 3600 * 1000000\<rparr> else None)] else [])"
    unfolding eq served(2)
    using members_told [OF ok y _ served(1), of "?w\<lparr>w_db := d2\<rparr>" _ "\<lambda>_. True" "ev_ulid E"] by (simp add: still_def)
  moreover have "invites d2 = (if invite \<and> partner = None
      then filter (\<lambda>r. \<not> is_open_invite_of (me_id ?me) r) (invites ?d) @
        [\<lparr>iv_token_hash = hash, iv_inviter_id = me_id ?me, iv_expires_at = ev_now E 0 + 3600 * 1000000,
          iv_consumed_at = None, iv_room_id = Some (ev_ulid E)\<rparr>]
      else invites ?d)"
    by (simp add: d2_def d1_def room_invite_def created_def)
  ultimately show ?thesis
    unfolding db room using new by (intro conjI) simp_all
qed


theorem created_room_reaches_witness:
  "\<exists>(sv :: server) a b v. {a, b} \<subseteq> set (sv_live sv) \<and> me_id (se_me (fst b)) = 2 \<and>
     v = snd (handle_frame evening_app sample_env (CreateRoom (Some ''den'') True) (fst a) (sv_world sv)) \<and>
     in_room ''01J'' 1 (w_db v) \<and> in_room ''01J'' 2 (w_db v) \<and> \<not> in_room ''01J'' 3 (w_db v) \<and>
     hears (live_tx b) (sv_world sv) v [RoomCreated ''01J'' ''den'' (map (member_into_wire sample_crates) (roster ''01J'' (w_db v))) None]"
proof -
  obtain w a b s t svs where run: "server_run evening_app (\<lparr>sv_world = w, sv_opening = [], sv_live = [(a, s), (b, t)]\<rparr> # svs)"
    and w: "w_faults w = []" "w_db w \<in> same_messages evening"
    and ab: "me_id (se_me a) = 1" "me_id (se_me b) = 2"
    using evening_run by (auto simp: rec_ident_def)
  let ?sv = "\<lparr>sv_world = w, sv_opening = [], sv_live = [(a, s), (b, t)]\<rparr>"
  obtain canonical code hash where inv: "generate_invite (lib evening_app) (ev_random sample_env) = (canonical, code, hash)"
    by (metis prod_cases3)
  obtain ss' v where v: "(ss', v) = handle_frame evening_app sample_env (CreateRoom (Some ''den'') True) a w"
    by (metis surj_pair)
  have rows: "rooms (w_db w) = rooms evening_home" "invites (w_db w) = invites evening_home"
    using w(2) by (simp_all add: same_messages_def evening_eq)
  have columns: "map (\<lambda>r. (acc_id r, acc_partner_account_id r)) rs = zip (map fst (map acc_ident rs)) (map acc_partner_account_id rs)" for rs
    by (induction rs) (simp_all add: acc_ident_def)
  have "map (\<lambda>r. (acc_id r, acc_partner_account_id r)) (accounts (w_db w)) =
      map (\<lambda>r. (acc_id r, acc_partner_account_id r)) (accounts evening_couple)"
    unfolding columns using w(2) by (simp add: same_messages_def evening_rows del: map_map)
  then have couple: "partner_of (w_db w) 1 = Some 2"
    by (simp add: partner_of_def evening_couple_eq)
  have reach: "server_reach evening_app ?sv"
    using run_reach [OF run] by simp
  have fresh: "ev_ulid sample_env \<notin> room_ids (w_db (sv_world ?sv))"
    by (simp add: room_ids_def rows evening_home_eq sample_env_def)
  have unused: "hash \<notin> iv_token_hash ` set (invites (w_db (sv_world ?sv)))"
    by (simp add: rows evening_home_eq evening_couple_eq empty_db_def)
  have short: "utf8_chars (case Some ''den'' of None \<Rightarrow> [] | Some n \<Rightarrow> n) \<le> 64"
    by (simp add: utf8_chars_def utf8_continuation_def)
  note made = created_room_reaches [OF reach _ _ _ _ fresh refl short inv unused, of a s "(b, t)" ss' v True "Some 2"]
  have "ev_ulid sample_env = ''01J''"
    by (simp add: sample_env_def)
  from made [unfolded this] have "in_room ''01J'' 1 (w_db v) \<and> in_room ''01J'' 2 (w_db v) \<and> \<not> in_room ''01J'' 3 (w_db v) \<and>
      hears (live_tx (b, t)) w v [RoomCreated ''01J'' ''den'' (map (member_into_wire sample_crates) (roster ''01J'' (w_db v))) None]"
    using v w(1) ab couple by simp
  then show ?thesis
    using ab(2) by (intro exI [of _ ?sv] exI [of _ "(a, s)"] exI [of _ "(b, t)"] exI [of _ v]) (simp flip: v)
qed

end
