(* ===== verification/Aead.thy ===== *)
theory Aead
  imports Crates
begin

text \<open>
  \<open>crypto/src/aead.rs\<close> and \<open>crypto/src/ecdh.rs\<close>: the doubly base64-coded wire envelope around
  XChaCha20-Poly1305, and the room key two partners derive from an X25519 exchange. The 24 random
  nonce bytes are an argument of \<^term>\<open>encrypt_wire\<close> below.
\<close>

definition WIRE_NONCE_LEN :: nat where
  "WIRE_NONCE_LEN = 24"

datatype aead_error = Base64 | Json | NonceLen nat | Decrypt | Encrypt

definition encrypt_wire :: "crates \<Rightarrow> bytes \<Rightarrow> bytes \<Rightarrow> bytes \<Rightarrow> aead_error + string" where
  "encrypt_wire C nonce key plaintext =
    (case xchacha_encrypt C key nonce plaintext of
       None \<Rightarrow> Inl Encrypt
     | Some ct \<Rightarrow>
         let env = \<lparr>env_ciphertext = b64_encode C ct, env_nonce = b64_encode C nonce\<rparr> in
         (case envelope_to_json C env of
            None \<Rightarrow> Inl Json
          | Some json \<Rightarrow> Inr (b64_encode C json)))"

definition decrypt_wire :: "crates \<Rightarrow> bytes \<Rightarrow> string \<Rightarrow> aead_error + bytes" where
  "decrypt_wire C key wire =
    (case b64_decode C wire of
       None \<Rightarrow> Inl Base64
     | Some inner \<Rightarrow>
         (case envelope_from_json C inner of
            None \<Rightarrow> Inl Json
          | Some env \<Rightarrow>
              (case b64_decode C (env_ciphertext env) of
                 None \<Rightarrow> Inl Base64
               | Some ct \<Rightarrow>
                   (case b64_decode C (env_nonce env) of
                      None \<Rightarrow> Inl Base64
                    | Some nonce \<Rightarrow>
                        if length nonce \<noteq> WIRE_NONCE_LEN then Inl (NonceLen (length nonce))
                        else (case xchacha_decrypt C key nonce ct of
                                None \<Rightarrow> Inl Decrypt
                              | Some pt \<Rightarrow> Inr pt)))))"

definition HKDF_SALT :: bytes where
  "HKDF_SALT = byte_string ''littlelove.v0.2.room''"

datatype ecdh_error = EcdhBadPubkey nat | EcdhBadPrivkey nat | EcdhHkdf

definition derive_room_key :: "crates \<Rightarrow> bytes \<Rightarrow> bytes \<Rightarrow> string \<Rightarrow> ecdh_error + bytes" where
  "derive_room_key C my_priv peer_pub room_id =
    (case hkdf_sha256_32 C HKDF_SALT (x_diffie_hellman C my_priv peer_pub) (byte_string room_id) of
       None \<Rightarrow> Inl EcdhHkdf
     | Some out \<Rightarrow> Inr out)"

section \<open>What travels\<close>

text \<open>What a wire string carries under its two layers of base64 and the JSON between them: ciphertext and nonce.\<close>

definition wire_parts :: "crates \<Rightarrow> string \<Rightarrow> (bytes \<times> bytes) option" where
  "wire_parts C wire = Option.bind (b64_decode C wire) (\<lambda>inner. Option.bind (envelope_from_json C inner) (\<lambda>env.
     Option.bind (b64_decode C (env_ciphertext env)) (\<lambda>ct. map_option (Pair ct) (b64_decode C (env_nonce env)))))"

lemma decrypt_wire_parts:
  "decrypt_wire C key wire = Inr msg \<longleftrightarrow>
     (\<exists>ct nonce. wire_parts C wire = Some (ct, nonce) \<and> length nonce = WIRE_NONCE_LEN \<and> xchacha_decrypt C key nonce ct = Some msg)"
  by (auto simp: decrypt_wire_def wire_parts_def split: option.splits if_splits Option.bind_splits)

lemma encrypt_wire_parts:
  assumes "b64_law C" "json_law C" and "encrypt_wire C nonce key msg = Inr sealed"
  shows "\<exists>ct. xchacha_encrypt C key nonce msg = Some ct \<and> wire_parts C sealed = Some (ct, nonce)"
proof -
  from assms(3) obtain ct json where ct: "xchacha_encrypt C key nonce msg = Some ct"
    and json: "envelope_to_json C \<lparr>env_ciphertext = b64_encode C ct, env_nonce = b64_encode C nonce\<rparr> = Some json"
    and wire: "sealed = b64_encode C json"
    by (auto simp: encrypt_wire_def Let_def split: option.splits)
  from json assms(2) have "envelope_from_json C json =
      Some \<lparr>env_ciphertext = b64_encode C ct, env_nonce = b64_encode C nonce\<rparr>"
    by (metis json_law_def option.inject)
  then show ?thesis
    using assms(1) ct by (simp add: wire_parts_def wire b64_law_def)
qed

lemma encrypt_wire_total:
  "json_law C \<Longrightarrow> xchacha_encrypt C key nonce msg = Some ct \<Longrightarrow> \<exists>sealed. encrypt_wire C nonce key msg = Inr sealed"
  by (auto simp: encrypt_wire_def json_law_def Let_def split: option.split)

section \<open>Properties\<close>

text \<open>
  End-to-end round trip between the partners: what one seals with the room key it derived, the other
  opens with the key derived at its own end, for every room, nonce and text; the wire string is the
  only thing that travels.
\<close>

theorem partner_wire_roundtrip:
  assumes "b64_law C" "json_law C" "aead_law C" "dh_law C"
    and "derive_room_key C a (x_public_key C b) room = Inr key"
    and "encrypt_wire C nonce key msg = Inr wire" and "length nonce = WIRE_NONCE_LEN"
  shows "\<exists>key'. derive_room_key C b (x_public_key C a) room = Inr key' \<and> decrypt_wire C key' wire = Inr msg"
proof -
  from assms(4,5) have "derive_room_key C b (x_public_key C a) room = Inr key"
    by (simp add: derive_room_key_def dh_law_def)
  moreover have "decrypt_wire C key wire = Inr msg"
    using encrypt_wire_parts [OF assms(1,2,6)] assms(3,7) by (auto simp: decrypt_wire_parts aead_law_def)
  ultimately show ?thesis by blast
qed

theorem partner_wire_roundtrip_witness:
  "\<exists>key'. derive_room_key sample_crates [2] (x_public_key sample_crates [1]) ''r'' = Inr key' \<and>
     decrypt_wire sample_crates key'
       (case encrypt_wire sample_crates (replicate 24 0) [3, 114] [104, 105] of Inr w \<Rightarrow> w) = Inr [104, 105]"
proof (rule partner_wire_roundtrip [OF sample_b64_ok sample_json_ok sample_aead_ok sample_dh_ok])
  show "derive_room_key sample_crates [1] (x_public_key sample_crates [2]) ''r'' = Inr [3, 114]"
    by (simp add: derive_room_key_def sample_crates_def byte_string_def char_byte_def)
  show "length (replicate 24 (0 :: u8)) = WIRE_NONCE_LEN"
    unfolding WIRE_NONCE_LEN_def by (rule length_replicate)
qed (simp add: encrypt_wire_def sample_crates_def sample_json_def)

text \<open>
  C35. Nothing opens but what was sealed: with a key, a wire string opens to a message exactly when there is a
  nonce of 24 bytes with which sealing that message under that key makes a wire string that carries the same
  ciphertext and nonce; the two can only differ in how their base64 and JSON are spelled. A nonce of any other
  length opens nothing.
\<close>

theorem opens_only_sealed:
  assumes "b64_law C" "json_law C" "aead_law C" "seal_law C"
  shows "decrypt_wire C key wire = Inr msg \<longleftrightarrow>
    (\<exists>nonce sealed. length nonce = 24 \<and> encrypt_wire C nonce key msg = Inr sealed \<and> wire_parts C wire = wire_parts C sealed)"
proof
  assume "decrypt_wire C key wire = Inr msg"
  then obtain ct nonce where parts: "wire_parts C wire = Some (ct, nonce)" "length nonce = 24"
    and "xchacha_decrypt C key nonce ct = Some msg"
    by (auto simp: decrypt_wire_parts WIRE_NONCE_LEN_def)
  then have enc: "xchacha_encrypt C key nonce msg = Some ct"
    using assms(4) by (simp add: seal_law_def)
  then obtain sealed where "encrypt_wire C nonce key msg = Inr sealed"
    using encrypt_wire_total [OF assms(2)] by blast
  then show "\<exists>nonce sealed. length nonce = 24 \<and> encrypt_wire C nonce key msg = Inr sealed \<and> wire_parts C wire = wire_parts C sealed"
    using encrypt_wire_parts [OF assms(1,2)] parts enc by fastforce
next
  assume "\<exists>nonce sealed. length nonce = 24 \<and> encrypt_wire C nonce key msg = Inr sealed \<and> wire_parts C wire = wire_parts C sealed"
  then show "decrypt_wire C key wire = Inr msg"
    using encrypt_wire_parts [OF assms(1,2)] assms(3)
    by (auto simp: decrypt_wire_parts WIRE_NONCE_LEN_def aead_law_def) fastforce
qed

theorem opens_only_sealed_witness:
  "decrypt_wire sample_crates [3, 114]
     (case encrypt_wire sample_crates (replicate 24 0) [3, 114] [104, 105] of Inr w \<Rightarrow> w) = Inr [104, 105]"
proof -
  have "\<exists>sealed. encrypt_wire sample_crates (replicate 24 0) [3, 114] [104, 105] = Inr sealed"
    by (rule encrypt_wire_total [OF sample_json_ok]) (simp add: sample_crates_def)
  moreover have "length (replicate 24 (0 :: u8)) = 24"
    by (rule length_replicate)
  ultimately show ?thesis
    using opens_only_sealed [OF sample_b64_ok sample_json_ok sample_aead_ok sample_seal_ok] by fastforce
qed

end
