(* ===== verification/Delivery.thy ===== *)
theory Delivery
  imports Guarantees Aead
begin

text \<open>
  From the channel of a session to its socket (the outbound branch of the loop in \<open>handle_socket\<close>): what a
  running session has written and what is still queued for it form one stream, which only ever grows at its end.
\<close>

section \<open>The stream of a session\<close>

definition texts :: "ws_message list \<Rightarrow> string list" where
  "texts = List.map_filter (\<lambda>m. case m of Text t \<Rightarrow> Some t | _ \<Rightarrow> None)"

lemma texts_simps [simp]: "texts [] = []" "texts (ms @ ms') = texts ms @ texts ms'" "texts [Text t] = [t]" "texts [Ping bs] = []"
  by (simp_all add: texts_def List.map_filter_def)

lemma in_texts: "t \<in> set (texts ms) \<longleftrightarrow> Text t \<in> set ms"
  by (induction ms) (auto simp: texts_def List.map_filter_simps split: ws_message.splits)

text \<open>A frame that cannot be serialized is dropped with a warning.\<close>

definition lines :: "app \<Rightarrow> room_server_frame list \<Rightarrow> string list" where
  "lines A = List.map_filter (room_text A)"

lemma lines_simps [simp]: "lines A [] = []" "lines A (fs @ gs) = lines A fs @ lines A gs"
  "lines A (f # fs) = (case room_text A f of None \<Rightarrow> lines A fs | Some t \<Rightarrow> t # lines A fs)"
  by (simp_all add: lines_def List.map_filter_def split: option.split)

definition stream :: "app \<Rightarrow> world \<Rightarrow> session \<times> socket \<Rightarrow> string list" where
  "stream A w x = texts (sk_sent (snd x)) @ lines A (ch_queue (w_chans w (live_tx x)))"

lemma stream_grows:
  assumes "prefix (ch_queue (w_chans w (live_tx x))) (ch_queue (w_chans w' (live_tx x)))"
  shows "prefix (stream A w x) (stream A w' x)"
  using assms by (auto simp: stream_def prefix_def)

lemma queue_emits: "emits P w w' \<Longrightarrow> prefix (ch_queue (w_chans w c)) (ch_queue (w_chans w' c))"
  by (auto simp: emits_def prefix_def)

lemma queue_still: "still w w' \<Longrightarrow> prefix (ch_queue (w_chans w c)) (ch_queue (w_chans w' c))"
  by (simp add: still_def)

text \<open>One turn of a loop: for the session whose turn it is, and for every other channel.\<close>

lemma turn_stream:
  assumes "session_step A ev ss s w = (True, ss', s', w')"
  shows "prefix (stream A w (ss, s)) (stream A w' (ss', s'))"
proof -
  have tx: "se_tx ss' = se_tx ss"
    using session_step_keeps_self [OF assms] by simp
  show ?thesis
  proof (cases ev)
    case Outbound
    then show ?thesis
      using assms by (auto simp: session_step_def relay_outbound_def Let_def stream_def sock_send_def
          split: list.splits option.splits)
  next
    case (Ping_tick now)
    then show ?thesis
      using assms by (auto simp: session_step_def stream_def sock_send_def split: if_splits)
  next
    case (Inbound msg E)
    have "s' = s \<and> (w' = w \<or> (\<exists>f ss0. w' = snd (handle_frame A E f ss0 w)))"
      using assms Inbound by (auto simp: session_step_def Let_def split: option.splits ws_message.splits prod.splits)
        (metis snd_conv)
    then have "s' = s" "prefix (ch_queue (w_chans w (se_tx ss))) (ch_queue (w_chans w' (se_tx ss)))"
      using queue_emits [OF frame_log.frame_kept] by auto
    then show ?thesis
      by (auto simp: stream_def tx prefix_def)
  qed
qed

lemma turn_others:
  assumes "session_step A ev ss s w = (go, ss', s', w')" and "c \<noteq> se_tx ss"
  shows "prefix (ch_queue (w_chans w c)) (ch_queue (w_chans w' c))"
  using assms(1)
proof (cases rule: session_step_cases)
  case (frame t E f ss0)
  then show ?thesis using queue_emits [OF frame_log.frame_kept] by simp
qed (use assms(2) in simp_all)

lemma end_session_queue: "prefix (ch_queue (w_chans w c)) (ch_queue (w_chans (end_session A ss w) c))"
  using queue_emits [OF end_session_emits [of ss w A], of c] by (auto simp: end_session_def Let_def)

lemma start_session_queue:
  assumes "start_session A E me tx w = (ss, w')" and "c \<noteq> tx"
  shows "prefix (ch_queue (w_chans w c)) (ch_queue (w_chans w' c))"
  using start_session_emits [OF assms(1)] queue_emits [of _ "joined me tx w" w' c] assms(2)
  by (auto simp: joined_def open_channel_def)

section \<open>One step of the server\<close>

lemma same_tx: "distinct (map live_tx ls) \<Longrightarrow> x \<in> set ls \<Longrightarrow> x' \<in> set ls \<Longrightarrow> live_tx x' = live_tx x \<Longrightarrow> x' = x"
  by (metis distinct_map inj_onD)

lemma distinct_mid: "distinct (map f (xs @ y # zs)) \<Longrightarrow> x \<in> set xs \<union> set zs \<Longrightarrow> f x \<noteq> f y"
  by (force simp: image_iff)

lemma step_stream:
  assumes "server_step A sv sv'" and "server_ok sv" and "x \<in> set (sv_live sv)" and "x' \<in> set (sv_live sv')"
    and "live_tx x' = live_tx x"
  shows "prefix (stream A (sv_world sv) x) (stream A (sv_world sv') x')"
proof -
  have dist: "distinct (map live_tx (sv_live sv))"
    using assms(2) by (simp add: server_ok_def sessions_ok_def)
  have old: ?thesis if "x' \<in> set (sv_live sv)"
    "prefix (ch_queue (w_chans (sv_world sv) (live_tx x))) (ch_queue (w_chans (sv_world sv') (live_tx x)))"
    using same_tx [OF dist assms(3) that(1) assms(5)] stream_grows [OF that(2)] by simp
  show ?thesis
    using assms dist old
  proof (induction rule: server_step.induct)
    case (srv_rejected nonce s w s' w')
    then show ?case using queue_still [OF still_handshake [of w A nonce s]] by simp
  next
    case (srv_authenticated nonce s w me s' w')
    then show ?case using queue_still [OF still_handshake [of w A nonce s]] by simp
  next
    case (srv_started tx ls E me w ss w')
    then have "live_tx x \<noteq> tx"
      by auto
    then show ?case
      using srv_started start_session_queue [OF srv_started(2)] start_session_emits [OF srv_started(2)] by auto
  next
    case (srv_turn ev w ss s ss' s' w' ps ls1 ls2)
    note self = session_step_keeps_self [OF srv_turn(2)]
    show ?case
    proof (cases "x' = (ss', s')")
      case True
      then have "x = (ss, s)"
        using srv_turn(4,6,7) self by (intro same_tx [of "ls1 @ (ss, s) # ls2"]) simp_all
      then show ?thesis
        using turn_stream [OF srv_turn(2)] True by simp
    next
      case False
      then have x': "x' \<in> set ls1 \<union> set ls2"
        using srv_turn(5) by auto
      then have "live_tx x' \<noteq> se_tx ss"
        using srv_turn(7) distinct_mid [OF _ x', of live_tx "(ss, s)"] by simp
      then show ?thesis
        using srv_turn(6,8) x' turn_others [OF srv_turn(2), of "live_tx x"] by auto
    qed
  next
    case (srv_ended ev w ss s ss' s' w' ps ls1 ls2)
    then have "live_tx x' \<noteq> se_tx ss"
      using distinct_mid [of live_tx ls1 "(ss, s)" ls2 x'] by simp
    then have "prefix (ch_queue (w_chans w (live_tx x))) (ch_queue (w_chans (end_session A ss' w') (live_tx x)))"
      using turn_others [OF srv_ended(2), of "live_tx x"] end_session_queue [of w' "live_tx x" A ss'] srv_ended(6)
        prefix_order.trans by simp
    then show ?case
      using srv_ended by auto
  next
    case (srv_notify w ts1 i rid ts2 snd_fn)
    then show ?case
      using queue_emits [OF frame_log.task_kept, of "w\<lparr>w_tasks := ts1 @ ts2\<rparr>"] by simp
  qed (use queue_still [OF still_rest(1)] queue_still [OF still_rest(2)] queue_still [OF still_rest(3)] in simp_all)
qed


section \<open>Properties\<close>

text \<open>The server goes on while the session on a channel keeps running.\<close>

abbreviation while_running :: "app \<Rightarrow> sender \<Rightarrow> server \<Rightarrow> server \<Rightarrow> bool" where
  "while_running A c \<equiv> (\<lambda>sv sv'. server_step A sv sv' \<and> c \<in> live_tx ` set (sv_live sv'))\<^sup>*\<^sup>*"

lemma run_stream:
  assumes "while_running A (live_tx x) sv sv'" and "server_ok sv" and "x \<in> set (sv_live sv)"
  shows "server_ok sv' \<and> (\<forall>x' \<in> set (sv_live sv'). live_tx x' = live_tx x \<longrightarrow>
    prefix (stream A (sv_world sv) x) (stream A (sv_world sv') x'))"
  using assms(1)
proof (induction rule: rtranclp_induct)
  case base
  then show ?case
    using assms(2,3) same_tx [of "sv_live sv" x] by (auto simp: server_ok_def sessions_ok_def)
next
  case (step sv1 sv2)
  have "live_tx x \<in> live_tx ` set (sv_live sv1)"
    using step.hyps(1) assms(3) by (cases rule: rtranclp.cases) auto
  then obtain x1 where x1: "x1 \<in> set (sv_live sv1)" "live_tx x1 = live_tx x"
    by auto
  have "prefix (stream A (sv_world sv) x) (stream A (sv_world sv2) x')"
    if "x' \<in> set (sv_live sv2)" "live_tx x' = live_tx x" for x'
    using step_stream [of A sv1 sv2 x1 x'] step.IH step.hyps(2) x1 that prefix_order.trans by fastforce
  then show ?case
    using step.IH step.hyps(2) server_step_ok by blast
qed

text \<open>
  C6. Frames are written in order: in any run of the server during which a session stays open, what has been written
  to its socket, followed by what is queued for it, only grows at its end. So no frame is lost between the
  channel and the socket, repeated or overtaken, whatever the other connections do and whatever fails.
\<close>

theorem frames_in_order:
  assumes "server_reach A sv" and "x \<in> set (sv_live sv)" and "while_running A (live_tx x) sv sv'"
    and "x' \<in> set (sv_live sv')" and "live_tx x' = live_tx x"
  shows "prefix (texts (sk_sent (snd x)) @ lines A (ch_queue (w_chans (sv_world sv) (live_tx x))))
    (texts (sk_sent (snd x')) @ lines A (ch_queue (w_chans (sv_world sv') (live_tx x'))))"
  using run_stream [OF assms(3) server_reach_ok [OF assms(1)] assms(2)] assms(4,5) unfolding stream_def by blast

lemma prefix_next: "prefix (xs @ [t]) (ys @ zs) \<Longrightarrow> t \<in> set ys \<or> t \<in> set zs"
  by (auto simp: prefix_def dest!: arg_cong [where f = set])

text \<open>
  C5. An accepted message gets to the other member's device as far as the server can take it there: the next
  frame that the connection of each of their running sessions carries, after those already under way, is the
  message with the ciphertext under their own key; when at a later moment nothing is queued for a session that
  is still open, the message has been written to its socket.
\<close>

theorem accepted_message_written:
  assumes "server_reach A sv" and "has_store A" and "w_faults (sv_world sv) = []" and live: "sv_live sv = ls1 @ (ss, s) # ls2"
    and y: "y \<in> set (sv_live sv)" and other: "me_id (se_me (fst y)) \<noteq> me_id (se_me ss)"
    and member: "in_room rid (me_id (se_me (fst y))) (w_db (sv_world sv))"
    and key: "map_of bodies (b64_encode (lib A) (me_x25519_pub (se_me (fst y)))) = Some body"
    and fresh: "\<forall>m \<in> set (messages (w_db (sv_world sv))). ms_id m \<noteq> ev_ulid E"
    and acc: "send_accepted (lib A) (se_me ss) rid bodies (w_db (sv_world sv))"
    and parsed: "parse_room A raw = Some (Send rid bodies client)"
    and step: "session_step A (Inbound (Some (Text raw)) E) ss s (sv_world sv) = (True, ss', s', w')"
    and run: "while_running A (live_tx y) \<lparr>sv_world = w', sv_opening = sv_opening sv, sv_live = ls1 @ (ss', s') # ls2\<rparr> sv'"
    and z: "z \<in> set (sv_live sv')" "live_tx z = live_tx y"
    and written: "room_text A (Message (ev_ulid E) rid (me_username (se_me ss)) (ev_now E 0) body False False None) = Some line"
  shows "prefix (stream A (sv_world sv) y @ [line]) (stream A (sv_world sv') z) \<and>
    (ch_queue (w_chans (sv_world sv') (live_tx z)) = [] \<longrightarrow> Text line \<in> set (sk_sent (snd z)))"
proof -
  let ?sv1 = "\<lparr>sv_world = w', sv_opening = sv_opening sv, sv_live = ls1 @ (ss', s') # ls2\<rparr>"
  let ?ss0 = "ss\<lparr>last_seen := ev_instant E\<rparr>"
  have sv: "sv = \<lparr>sv_world = sv_world sv, sv_opening = sv_opening sv, sv_live = ls1 @ (ss, s) # ls2\<rparr>"
    using live by simp
  have "server_step A sv ?sv1"
    using srv_turn [of "Inbound (Some (Text raw)) E" "sv_world sv" A ss s ss' s' w' "sv_opening sv" ls1 ls2] fresh step
    by (subst sv) (simp add: event_fresh_def)
  then have ok: "server_ok sv" "server_ok ?sv1"
    using server_reach_ok [OF assms(1)] server_step_ok by blast+
  have w': "w' = handle_send A E (se_me ss) rid bodies client (se_tx ss) (sv_world sv)" and s': "s' = s"
    using step parsed by (auto simp: session_step_def Let_def handle_frame_def)
  have "y \<noteq> (ss, s)"
    using other by auto
  then have y1: "y \<in> set (sv_live ?sv1)"
    using y live by auto
  have "(ss, s) \<in> set (sv_live sv)"
    using live by simp
  from send_reaches [OF ok(1) assms(2,3) this y fresh acc, of client]
  have "ch_queue (w_chans w' (live_tx y)) = ch_queue (w_chans (sv_world sv) (live_tx y)) @
      [Message (ev_ulid E) rid (me_username (se_me ss)) (ev_now E 0) body False False None]"
    using key other member by (simp add: session_copy_def w')
  then have "stream A w' y = stream A (sv_world sv) y @ [line]"
    by (simp add: stream_def written)
  moreover have "prefix (stream A w' y) (stream A (sv_world sv') z)"
    using run_stream [OF run ok(2) y1] z by simp
  ultimately have all: "prefix (stream A (sv_world sv) y @ [line]) (stream A (sv_world sv') z)"
    by simp
  have "Text line \<in> set (sk_sent (snd z))" if "ch_queue (w_chans (sv_world sv') (live_tx z)) = []"
  proof -
    have "line \<in> set (texts (sk_sent (snd z)))"
      using prefix_next [OF all [unfolded stream_def [of A "sv_world sv'"]]] that by simp
    then show ?thesis
      by (simp only: in_texts)
  qed
  then show ?thesis
    using all by blast
qed


section \<open>The letter of the evening\<close>

text \<open>Court sends the letter; nothing else has happened yet.\<close>

lemma evening_sent:
  "\<exists>w a b s t w' a' s'. server_reach evening_app \<lparr>sv_world = w, sv_opening = [], sv_live = [(a, s), (b, t)]\<rparr> \<and>
     session_step evening_app (Inbound (Some (Text ''!'')) sample_env) a s w = (True, a', s', w') \<and>
     se_tx a' = 0 \<and> se_tx b = 1 \<and> w_faults w = [] \<and> w_db w \<in> same_messages evening \<and>
     rec_ident (se_me a) = (1, ''court'', signed_key, [10]) \<and> rec_ident (se_me b) = (2, ''kai'', signed_key, [20])"
proof -
  obtain w a b s t svs where run: "server_run evening_app (\<lparr>sv_world = w, sv_opening = [], sv_live = [(a, s), (b, t)]\<rparr> # svs)"
    and w: "w_faults w = []" "w_db w \<in> same_messages evening" "se_tx a = 0" "se_tx b = 1"
    and ab: "rec_ident (se_me a) = (1, ''court'', signed_key, [10])" "rec_ident (se_me b) = (2, ''kai'', signed_key, [20])"
    using evening_run by blast
  let ?ev = "Inbound (Some (Text ''!'')) sample_env"
  obtain a' w' where "handle_frame evening_app sample_env (Send ''R'' letter 7) (a\<lparr>last_seen := ev_instant sample_env\<rparr>) w = (a', w')"
    by fastforce
  then have step: "session_step evening_app ?ev a s w = (True, a', s, w')"
    by (simp add: session_step_def evening_send)
  show ?thesis
    using run_reach [OF run] step w ab session_step_keeps_self [OF step]
    by (intro exI [of _ w] exI [of _ a] exI [of _ b] exI [of _ s] exI [of _ t] exI [of _ w'] exI [of _ a'] exI [of _ s]) simp
qed

lemma evening_step:
  assumes "session_step evening_app (Inbound (Some (Text ''!'')) sample_env) a s w = (True, a', s', w')"
    and "w_db w \<in> same_messages evening"
  shows "server_step evening_app \<lparr>sv_world = w, sv_opening = [], sv_live = [(a, s), (b, t)]\<rparr>
    \<lparr>sv_world = w', sv_opening = [], sv_live = [(a', s'), (b, t)]\<rparr>"
  using srv_turn [OF _ assms(1), of "[]" "[]" "[(b, t)]"] assms(2)
  by (simp add: event_fresh_def same_messages_def evening_rows sample_env_def)

theorem frames_in_order_witness:
  "\<exists>(sv :: server) sv' y. server_step evening_app sv sv' \<and> y \<in> set (sv_live sv) \<and> y \<in> set (sv_live sv') \<and>
     prefix (lines evening_app (ch_queue (w_chans (sv_world sv) (live_tx y))))
       (lines evening_app (ch_queue (w_chans (sv_world sv') (live_tx y))))"
proof -
  obtain w a b s t w' a' s' where reach: "server_reach evening_app \<lparr>sv_world = w, sv_opening = [], sv_live = [(a, s), (b, t)]\<rparr>"
    and step: "session_step evening_app (Inbound (Some (Text ''!'')) sample_env) a s w = (True, a', s', w')"
    and db: "w_db w \<in> same_messages evening"
    using evening_sent by blast
  let ?sv = "\<lparr>sv_world = w, sv_opening = [], sv_live = [(a, s), (b, t)]\<rparr>"
    and ?sv' = "\<lparr>sv_world = w', sv_opening = [], sv_live = [(a', s'), (b, t)]\<rparr>"
  have one: "server_step evening_app ?sv ?sv'"
    by (rule evening_step [OF step db])
  then have "while_running evening_app (live_tx (b, t)) ?sv ?sv'"
    by (intro r_into_rtranclp) simp
  then show ?thesis
    using frames_in_order [OF reach, of "(b, t)" ?sv' "(b, t)"] one
    by (intro exI [of _ ?sv] exI [of _ ?sv'] exI [of _ "(b, t)"]) simp
qed

theorem accepted_message_written_witness:
  "\<exists>(sv :: server) sv' y. server_step evening_app sv sv' \<and> me_username (se_me (fst y)) = ''kai'' \<and>
     prefix (stream evening_app (sv_world sv) y @ [''sealed'']) (stream evening_app (sv_world sv') y)"
proof -
  obtain w a b s t w' a' s' where reach: "server_reach evening_app \<lparr>sv_world = w, sv_opening = [], sv_live = [(a, s), (b, t)]\<rparr>"
    and step: "session_step evening_app (Inbound (Some (Text ''!'')) sample_env) a s w = (True, a', s', w')"
    and w: "w_faults w = []" "w_db w \<in> same_messages evening"
    and ab: "rec_ident (se_me a) = (1, ''court'', signed_key, [10])" "rec_ident (se_me b) = (2, ''kai'', signed_key, [20])"
    using evening_sent by blast
  let ?sv = "\<lparr>sv_world = w, sv_opening = [], sv_live = [(a, s), (b, t)]\<rparr>"
    and ?sv' = "\<lparr>sv_world = w', sv_opening = [], sv_live = [(a', s'), (b, t)]\<rparr>"
  have me: "me_id (se_me a) = 1" "me_x25519_pub (se_me a) = [10]" "me_id (se_me b) = 2" "me_username (se_me b) = ''kai''"
    "me_x25519_pub (se_me b) = [20]"
    using ab by (simp_all add: rec_ident_def)
  have key: "map_of letter (b64_encode (lib evening_app) (me_x25519_pub (se_me b))) = Some ''sealed''"
    by (simp add: letter_def sample_crates_def me)
  have fresh: "\<forall>m \<in> set (messages (w_db w)). ms_id m \<noteq> ev_ulid sample_env"
    using w(2) by (simp add: same_messages_def evening_rows sample_env_def)
  have acc: "send_accepted (lib evening_app) (se_me a) ''R'' letter (w_db w)"
    using evening_letter [OF w(2) me(1,2)] by simp
  have "prefix (stream evening_app w (b, t) @ [''sealed'']) (stream evening_app w' (b, t))"
    using accepted_message_written [OF reach, of "[]" a s "[(b, t)]" "(b, t)" "''R''" letter "''sealed''" sample_env "''!''" 7 a' s' w'
        ?sv' "(b, t)" "''sealed''"] w key fresh acc evening_send step me evening_frames(3) [OF w(2)] by simp
  then show ?thesis
    using evening_step [OF step w(2), of b t] me(4) by (intro exI [of _ ?sv] exI [of _ ?sv'] exI [of _ "(b, t)"]) simp
qed


section \<open>From one application to the other\<close>

text \<open>
  C2. End to end: in every reachable state, what one partner's application seals with the room key it derived and
  sends under the other's key arrives unchanged as one frame on each of the other's running sessions, and the
  other's application, which derives the room key from its own secret and the sender's public key, opens it to
  exactly what was sealed.
\<close>

theorem sealed_message_opens:
  assumes "b64_law (lib A)" "json_law (lib A)" "aead_law (lib A)" "dh_law (lib A)"
    and "server_reach A sv" and "has_store A" and "w_faults (sv_world sv) = []"
    and "(ss, s) \<in> set (sv_live sv)" and "y \<in> set (sv_live sv)" and "me_id (se_me (fst y)) \<noteq> me_id (se_me ss)"
    and "in_room rid (me_id (se_me (fst y))) (w_db (sv_world sv))"
    and "\<forall>m \<in> set (messages (w_db (sv_world sv))). ms_id m \<noteq> ev_ulid E"
    and "send_accepted (lib A) (se_me ss) rid bodies (w_db (sv_world sv))"
    and sender: "me_x25519_pub (se_me ss) = x_public_key (lib A) mine"
    and reader: "me_x25519_pub (se_me (fst y)) = x_public_key (lib A) theirs"
    and sealed: "derive_room_key (lib A) mine (me_x25519_pub (se_me (fst y))) rid = Inr key"
      "encrypt_wire (lib A) nonce key msg = Inr wire" "length nonce = WIRE_NONCE_LEN"
    and key: "map_of bodies (b64_encode (lib A) (me_x25519_pub (se_me (fst y)))) = Some wire"
  shows "ch_queue (w_chans (snd (handle_frame A E (Send rid bodies client) ss (sv_world sv))) (live_tx y)) =
      ch_queue (w_chans (sv_world sv) (live_tx y)) @
        [Message (ev_ulid E) rid (me_username (se_me ss)) (ev_now E 0) wire False False None] \<and>
    (\<exists>key'. derive_room_key (lib A) theirs (me_x25519_pub (se_me ss)) rid = Inr key' \<and>
      decrypt_wire (lib A) key' wire = Inr msg)"
proof
  show "ch_queue (w_chans (snd (handle_frame A E (Send rid bodies client) ss (sv_world sv))) (live_tx y)) =
      ch_queue (w_chans (sv_world sv) (live_tx y)) @
        [Message (ev_ulid E) rid (me_username (se_me ss)) (ev_now E 0) wire False False None]"
    using send_reaches [OF server_reach_ok [OF assms(5)] assms(6-9,12,13), of client] assms(10,11) key
    by (simp add: handle_frame_def Let_def session_copy_def)
  show "\<exists>key'. derive_room_key (lib A) theirs (me_x25519_pub (se_me ss)) rid = Inr key' \<and>
      decrypt_wire (lib A) key' wire = Inr msg"
    using partner_wire_roundtrip [OF assms(1-4) sealed(1) [unfolded reader] sealed(2,3)] by (simp only: sender)
qed

text \<open>With the sample cipher a key of 11 bytes seals the byte 104; the keys of the couple are one byte long.\<close>

theorem sealed_message_opens_witness:
  "\<exists>(sv :: server) a b wire. {a, b} \<subseteq> set (sv_live sv) \<and>
     ch_queue (w_chans (snd (handle_frame evening_app sample_env (Send ''R'' [(sample_b64 [20], wire)] 7) (fst a) (sv_world sv))) (live_tx b)) =
       ch_queue (w_chans (sv_world sv) (live_tx b)) @ [Message ''01J'' ''R'' ''court'' 1000 wire False False None] \<and>
     (\<exists>key'. derive_room_key sample_crates [20] [10] ''R'' = Inr key' \<and> decrypt_wire sample_crates key' wire = Inr [104])"
proof -
  obtain w a b s t where reach: "server_reach evening_app \<lparr>sv_world = w, sv_opening = [], sv_live = [(a, s), (b, t)]\<rparr>"
    and w: "w_faults w = []" "w_db w \<in> same_messages evening"
    and ab: "rec_ident (se_me a) = (1, ''court'', signed_key, [10])" "rec_ident (se_me b) = (2, ''kai'', signed_key, [20])"
    using evening_sent by blast
  let ?sv = "\<lparr>sv_world = w, sv_opening = [], sv_live = [(a, s), (b, t)]\<rparr>"
  have me: "me_id (se_me a) = 1" "me_username (se_me a) = ''court''" "me_x25519_pub (se_me a) = [10]" "me_id (se_me b) = 2"
    "me_x25519_pub (se_me b) = [20]"
    using ab by (simp_all add: rec_ident_def)
  obtain key where key: "derive_room_key sample_crates [10] [20] ''R'' = Inr key"
    by (simp add: derive_room_key_def sample_crates_def)
  define nonce where "nonce = replicate 24 (0 :: u8)"
  obtain wire where wire: "encrypt_wire sample_crates nonce key [104] = Inr wire"
    by (simp add: encrypt_wire_def sample_crates_def sample_json_def)
  have nonce: "length nonce = WIRE_NONCE_LEN"
    unfolding nonce_def WIRE_NONCE_LEN_def by (rule length_replicate)
  have pairs: "length (concat (map (\<lambda>c. [0, g c]) cs)) = 2 * length cs" for g :: "u8 \<Rightarrow> u8" and cs
    by (induction cs) simp_all
  have "length wire = 75"
    using wire nonce by (auto simp: encrypt_wire_def sample_crates_def sample_json_def sample_b64_def comp_def pairs WIRE_NONCE_LEN_def)
  then have acc: "send_accepted (lib evening_app) (se_me a) ''R'' [(sample_b64 [20], wire)] (w_db w)"
    using evening_letter [OF w(2) me(1,3)]
    by (simp add: send_accepted_def letter_def body_keys_def MAX_BODY_BYTES_def)
  have fresh: "\<forall>m \<in> set (messages (w_db w)). ms_id m \<noteq> ev_ulid sample_env"
    using w(2) by (simp add: same_messages_def evening_rows sample_env_def)
  have pub: "x_public_key sample_crates k = k" "b64_encode sample_crates k = sample_b64 k" for k
    by (simp_all add: sample_crates_def)
  have "ch_queue (w_chans (snd (handle_frame evening_app sample_env (Send ''R'' [(sample_b64 [20], wire)] 7) a w)) (live_tx (b, t))) =
       ch_queue (w_chans w (live_tx (b, t))) @ [Message ''01J'' ''R'' ''court'' 1000 wire False False None] \<and>
     (\<exists>key'. derive_room_key sample_crates [20] [10] ''R'' = Inr key' \<and> decrypt_wire sample_crates key' wire = Inr [104])"
    using sealed_message_opens [OF _ _ _ _ reach, of a s "(b, t)" "''R''" sample_env "[(sample_b64 [20], wire)]" "[10]" "[20]" key
        nonce "[104]" wire 7] w(1) me key wire nonce acc fresh evening_frames(3) [OF w(2)]
    by (simp add: pub) (simp add: sample_env_def)
  then show ?thesis
    by (intro exI [of _ ?sv] exI [of _ "(a, s)"] exI [of _ "(b, t)"] exI [of _ wire]) simp
qed

end
