(* ===== verification/Stored.thy ===== *)
theory Stored
  imports Server
begin

text \<open>
  The values the tables hold: no constraint of the schema bounds them, only the checks of the handlers do. They
  hold in every state that a server reaches from a database in which they hold.
\<close>

definition stored_ok :: "db \<Rightarrow> bool" where
  "stored_ok d \<longleftrightarrow>
     (\<forall>k \<in> acc_ident ` set (accounts d). case k of (i, u, ed, x) \<Rightarrow> username_ok u \<and> length ed = 32 \<and> length x = 32) \<and>
     (\<forall>body \<in> ms_body ` set (messages d). length body \<le> MAX_BODY_BYTES) \<and>
     (\<forall>n \<in> at_byte_size ` set (attachments d). 0 < n \<and> n \<le> MAX_ATTACHMENT_BYTES)"

section \<open>The statements\<close>

lemma ball_antimono: "\<forall>x \<in> B. P x \<Longrightarrow> A \<subseteq> B \<Longrightarrow> \<forall>x \<in> A. P x"
  by blast

lemma stored_ok_mono:
  assumes "stored_ok d" and "acc_ident ` set (accounts d') \<subseteq> acc_ident ` set (accounts d)"
    and "ms_body ` set (messages d') \<subseteq> ms_body ` set (messages d)"
    and "at_byte_size ` set (attachments d') \<subseteq> at_byte_size ` set (attachments d)"
  shows "stored_ok d'"
  using assms unfolding stored_ok_def by (elim conjE, intro conjI) (erule (1) ball_antimono)+

lemma image_update_where:
  assumes "\<And>x. f (g x) = f x"
  shows "f ` set (update_where P g xs) = f ` set xs"
  using arg_cong [OF map_update_where [of f g P xs, OF assms], of set] by simp

lemma keeps_stored_stmts:
  "keeps stored_ok (touch_last_seen i)" "keeps stored_ok (link_partner a b)"
  "keeps stored_ok (insert_member rid i)" "keeps stored_ok (rename_room rid nm)"
  "keeps stored_ok (mark_consumed h at)" "keeps stored_ok (mark_read rid i up_to)"
  "keeps stored_ok (upsert_token i device token environment kind)" "keeps stored_ok (delete_token i device)"
  "keeps stored_ok (delete_token_value i token)" "keeps stored_ok (upsert_profile i envelope avatar)"
  "keeps stored_ok (insert_room rid nm)" "keeps stored_ok (delete_member rid i)"
  "keeps stored_ok (delete_room rid)" "keeps stored_ok (delete_open_invites i)"
  "keeps stored_ok (insert_invite h i expires r)"
  by (rule keepsI, erule stored_ok_mono; auto simp: op_defs Let_def image_update_where acc_ident_def)+

lemma keeps_stored_rooms:
  "keeps stored_ok (create_room_with_members rid host partner nm)" "keeps stored_ok (leave_room rid i)"
  "keeps stored_ok (create_invite_record i h expires r)"
  by (rule keeps_create_room keeps_leave_room keeps_create_invite; rule keeps_stored_stmts)+

lemma keeps_stored_link: "keeps stored_ok (set_partner_link a b)"
  unfolding set_partner_link_def
  by (intro keeps_transaction keeps_then keeps_read)
    (auto intro!: keeps_then keeps_read keeps_stored_stmts split: option.split)

lemma keeps_stored_insert_many:
  assumes "list_all (\<lambda>row. length (mr_body row) \<le> MAX_BODY_BYTES) rows"
  shows "keeps stored_ok (insert_many rows)"
proof -
  have "keeps stored_ok (insert_message row)" if "length (mr_body row) \<le> MAX_BODY_BYTES" for row
    using that by (intro keepsI) (auto simp: insert_message_def stored_ok_def)
  then have "keeps stored_ok (insert_each rows)"
    using assms by (induction rows) (auto intro!: keeps_then keeps_read)
  then show ?thesis
    unfolding insert_many_def by (rule keeps_transaction)
qed

lemma keeps_stored_new:
  "0 < n \<Longrightarrow> n \<le> MAX_ATTACHMENT_BYTES \<Longrightarrow> keeps stored_ok (insert_attachment key rid i n)"
  "username_ok u \<Longrightarrow> length ed = 32 \<Longrightarrow> length x = 32 \<Longrightarrow> keeps stored_ok (insert_account u ed x)"
  by (auto intro!: keepsI simp: insert_attachment_def insert_account_cases stored_ok_def acc_ident_def)

section \<open>The server\<close>

lemma stored_ok_clock [simp]: "stored_ok (d\<lparr>db_now := t\<rparr>) = stored_ok d"
  by (simp add: stored_ok_def)

lemma stmt_ok_stored: "keeps stored_ok q \<Longrightarrow> stmt_ok (\<lambda>w w'. stored_ok (w_db w) \<longrightarrow> stored_ok (w_db w')) q"
  by (simp add: stmt_ok_def keeps_def)

interpretation stored_values: server_frame "\<lambda>w w'. stored_ok (w_db w) \<longrightarrow> stored_ok (w_db w')"
  by unfold_locales (simp_all add: stmt_ok_stored keeps_stored_stmts keeps_stored_rooms keeps_stored_link
      keeps_stored_insert_many keeps_stored_new)

text \<open>
  C12. What the server stores is well-formed: from a database in which this holds, as an empty one, whatever
  clients send and whatever fails, every user name the server ever stores is 3 to 20 lower-case letters, digits and
  underscores, every key has 32 bytes, every ciphertext at most 96 KiB, and the size that a client declared for an
  attachment, which is the column \<open>byte_size\<close>, is 1 byte to 256 MiB. The bytes of an attachment go to the
  object store and never pass the server, which does not bound their number.
\<close>

theorem stored_values_typed:
  assumes "(server_step A)\<^sup>*\<^sup>* (start_server d fs) sv" and "stored_ok d"
  shows "(\<forall>a \<in> set (accounts (w_db (sv_world sv))). utf8_chars (acc_username a) \<in> {3..20} \<and>
      set (acc_username a) \<subseteq> {CHR ''a''..CHR ''z''} \<union> {CHR ''0''..CHR ''9''} \<union> {CHR ''_''} \<and>
      length (acc_ed25519_pub a) = 32 \<and> length (acc_x25519_pub a) = 32) \<and>
    (\<forall>m \<in> set (messages (w_db (sv_world sv))). length (ms_body m) \<le> 98304) \<and>
    (\<forall>t \<in> set (attachments (w_db (sv_world sv))). at_byte_size t \<in> {1..268435456})"
proof -
  have "stored_ok (w_db (sv_world sv))"
    using stored_values.server_run_kept [OF assms(1)] assms(2) by (simp add: start_server_def)
  then show ?thesis
    unfolding stored_ok_def username_ok_exact
    by (simp add: acc_ident_def MAX_BODY_BYTES_def MAX_ATTACHMENT_BYTES_def) (simp add: int_one_le_iff_zero_less)
qed


text \<open>A server on an empty database that has created one account.\<close>

theorem stored_values_typed_witness:
  "\<exists>sv :: server. (server_step sample_app)\<^sup>*\<^sup>* (start_server empty_db []) sv \<and>
     (\<exists>a \<in> set (accounts (w_db (sv_world sv))). acc_username a = ''court'' \<and> length (acc_ed25519_pub a) = 32)"
proof -
  let ?req = "\<lparr>ca_username = ''court'', ca_ed25519_pub = sample_b64 key32, ca_x25519_pub = sample_b64 key32\<rparr>"
  let ?w = "sv_world (start_server empty_db [])"
  let ?sv = "\<lparr>sv_world = snd (create_account sample_app ?req ?w), sv_opening = [], sv_live = []\<rparr>"
  have run: "(server_step sample_app)\<^sup>*\<^sup>* (start_server empty_db []) ?sv"
    using srv_account [of sample_app ?w "[]" "[]" ?req] by (simp add: start_server_def r_into_rtranclp)
  have "username_ok ''court''"
    by (simp add: username_ok_def is_ascii_lowercase_def is_ascii_digit_def)
  then have "\<exists>a \<in> set (accounts (w_db (sv_world ?sv))). acc_username a = ''court''"
    by (simp add: create_account_def key32_decodes db_call_served insert_account_cases start_server_def account_ids_def
        empty_db_def)
  moreover have "stored_ok empty_db"
    by (simp add: stored_ok_def empty_db_def)
  ultimately show ?thesis
    using stored_values_typed [OF run] run by blast
qed

end
