(* ===== verification/CryptoTests.thy ===== *)
theory CryptoTests
  imports InviteCode Sig Identity Aead
begin

text \<open>
  The unit tests of \<open>crypto/src/invite.rs\<close>, \<open>sig.rs\<close>, \<open>identity.rs\<close> and \<open>ecdh.rs\<close>, replayed on the model: one
  definition for each test, its assertions in the order of the source. What a test draws at random (nonces, seeds,
  keys) is an argument, so a test that passes here passes for every outcome of the generator. The two tests that only
  sample the generator have no counterpart.
\<close>

section \<open>\<open>invite.rs\<close>\<close>

definition round_trip_encodes_then_decodes_identity :: "unicode \<Rightarrow> bool" where
  "round_trip_encodes_then_decodes_identity U \<longleftrightarrow>
     list_all (\<lambda>seed. let canonical = canonical_token_from_n44 seed; code = encode_code canonical
       in decode_code U code = Inr canonical) [0, 1, 42, 0x123456789AB, push_bit 44 1 - 1]"

definition encode_zero_token_is_four_abandons :: bool where
  "encode_zero_token_is_four_abandons \<longleftrightarrow>
     (let canonical = canonical_token_from_n44 0 in encode_code canonical = ''abandon-abandon-abandon-abandon'')"

definition encode_max_token_is_four_zoos :: bool where
  "encode_max_token_is_four_zoos \<longleftrightarrow>
     (let canonical = canonical_token_from_n44 (push_bit 44 1 - 1) in encode_code canonical = ''zoo-zoo-zoo-zoo'')"

definition decode_rejects_unknown_word :: "unicode \<Rightarrow> bool" where
  "decode_rejects_unknown_word U \<longleftrightarrow>
     decode_code U ''abandon-abandon-abandon-bogusword'' = Inl (UnknownWord ''bogusword'')"

definition decode_rejects_wrong_word_count :: "unicode \<Rightarrow> bool" where
  "decode_rejects_wrong_word_count U \<longleftrightarrow> decode_code U ''abandon-abandon-abandon'' = Inl (WrongWordCount 4 3)"

text \<open>\<open>to_uppercase\<close> of the code, which is ASCII.\<close>

definition upper :: "string \<Rightarrow> string" where
  "upper s = map (\<lambda>c. let n = (of_char c :: nat) in if 97 \<le> n \<and> n \<le> 122 then char_of (n - 32) else c) s"

definition decode_is_case_insensitive :: "unicode \<Rightarrow> bool" where
  "decode_is_case_insensitive U \<longleftrightarrow>
     (let canonical = canonical_token_from_n44 0; code = encode_code canonical
      in decode_code U (upper code) = Inr canonical)"

definition generate_invite_produces_consistent_hash :: "unicode \<Rightarrow> crates \<Rightarrow> bytes \<Rightarrow> bool" where
  "generate_invite_produces_consistent_hash U C raw \<longleftrightarrow>
     (case generate_invite C raw of (canonical, code, hash) \<Rightarrow>
        hash = sha256 C canonical \<and> decode_code U code = Inr canonical)"

definition canonical_token_zero_pads_bytes_six_to_thirty_two :: bool where
  "canonical_token_zero_pads_bytes_six_to_thirty_two \<longleftrightarrow>
     (let token = canonical_token_from_n44 0x123456789AB in list_all (\<lambda>b. b = 0) (drop 6 token))"

definition canonical_token_first_six_bytes_carry_the_44_bits :: bool where
  "canonical_token_first_six_bytes_carry_the_44_bits \<longleftrightarrow>
     (let n44 = 0x123456789AB; token = canonical_token_from_n44 n44
      in take 6 token = [0x12, 0x34, 0x56, 0x78, 0x9A, 0xB0])"

lemma encode_extremes: "encode_zero_token_is_four_abandons" "encode_max_token_is_four_zoos"
  by code_simp+

lemma ascending_sorted: "ascending xs \<Longrightarrow> sorted_wrt (<) xs"
proof (induction xs)
  case (Cons x xs)
  then have "ascending xs" by (cases xs) auto
  with Cons show ?case by (auto dest: ascending_less)
qed simp

lemma between_words:
  assumes "ws = BIP39_EN" and "Suc i < 2048" and "ws ! i < w" and "w < ws ! Suc i"
  shows "word_index w = None"
proof -
  have less: "j < k \<Longrightarrow> k < 2048 \<Longrightarrow> ws ! j < ws ! k" for j k
    using ascending_sorted [OF BIP39_EN_ascending] assms(1) by (simp add: sorted_wrt_iff_nth_less BIP39_EN_length)
  have "w \<noteq> ws ! k" if "k < 2048" for k
  proof (cases "k \<le> i")
    case True
    then have "ws ! k \<le> ws ! i" using less [of k i] assms(2) by (cases "k = i") auto
    then show ?thesis using assms(3) by auto
  next
    case False
    then have "ws ! Suc i \<le> ws ! k" using less [of "Suc i" k] that by (cases "k = Suc i") auto
    then show ?thesis using assms(4) by auto
  qed
  then show ?thesis
    using assms(1) by (auto simp: bip39.index_None_iff in_set_conv_nth BIP39_EN_length)
qed

lemma bogusword_unknown: "word_index ''bogusword'' = None"
proof (rule between_words [OF refl, of 199])
  have "BIP39_EN ! 199 = ''body''" "BIP39_EN ! Suc 199 = ''boil''"
    by code_simp+
  then show "BIP39_EN ! 199 < ''bogusword''" "''bogusword'' < BIP39_EN ! Suc 199"
    by (simp_all add: less_char_def)
qed simp

lemma abandon_known: "word_index ''abandon'' = Some 0"
proof -
  have "BIP39_EN ! 0 = ''abandon''" by code_simp
  then show ?thesis using bip39.index_nth [of 0] by simp
qed

lemma token_layout: "canonical_token_zero_pads_bytes_six_to_thirty_two"
    "canonical_token_first_six_bytes_carry_the_44_bits"
  by code_simp+

theorem invite_tests_pass:
  assumes "unicode_ascii U"
  shows "round_trip_encodes_then_decodes_identity U \<and> encode_zero_token_is_four_abandons \<and>
      encode_max_token_is_four_zoos \<and>
    decode_rejects_unknown_word U \<and> decode_rejects_wrong_word_count U \<and> decode_is_case_insensitive U \<and>
    generate_invite_produces_consistent_hash U C raw \<and> canonical_token_zero_pads_bytes_six_to_thirty_two \<and>
    canonical_token_first_six_bytes_carry_the_44_bits"
proof (intro conjI encode_extremes token_layout)
  have norm: "str_lowercase U (str_trim U s) = to_ascii_lowercase (trim_ascii s)" if "is_ascii s" "is_ascii
      (trim_ascii s)" for s
    using assms that by (simp add: unicode_ascii_def)
  note norms = norm is_ascii_def trim_ascii_def ascii_space_def to_ascii_lowercase_def ascii_lower_def
  have decodes: "decode_code U (encode_code (canonical_token_from_n44 seed)) = Inr (canonical_token_from_n44 seed)"
    if "unat seed < 2 ^ 44" for seed
    using that unfolding decode_encode [OF assms] n44_of_canonical_token bound_44_iff [symmetric] by simp
  show "round_trip_encodes_then_decodes_identity U"
    unfolding round_trip_encodes_then_decodes_identity_def Let_def by (simp add: decodes)
  show "decode_rejects_unknown_word U"
    by (simp add: decode_rejects_unknown_word_def decode_code_def norms CODE_WORDS_def bogusword_unknown abandon_known)
  show "decode_rejects_wrong_word_count U"
    by (simp add: decode_rejects_wrong_word_count_def decode_code_def norms CODE_WORDS_def)
  have "upper ''abandon-abandon-abandon-abandon'' = ''ABANDON-ABANDON-ABANDON-ABANDON''"
    by code_simp
  then have zero: "upper (encode_code (canonical_token_from_n44 0)) = ''ABANDON-ABANDON-ABANDON-ABANDON''"
    using encode_extremes(1) by (simp add: encode_zero_token_is_four_abandons_def)
  have lower: "to_ascii_lowercase (trim_ascii ''ABANDON-ABANDON-ABANDON-ABANDON'') =
      ''abandon-abandon-abandon-abandon''"
    by code_simp
  have "str_lowercase U (str_trim U ''ABANDON-ABANDON-ABANDON-ABANDON'') = ''abandon-abandon-abandon-abandon''"
    unfolding lower [symmetric] by (rule norm) code_simp+
  then have "decode_code U ''ABANDON-ABANDON-ABANDON-ABANDON'' = Inr (canonical_token_from_n44 0)"
    by (simp add: decode_code_def CODE_WORDS_def abandon_known pack_indices_def)
  then show "decode_is_case_insensitive U"
    by (simp add: decode_is_case_insensitive_def zero)
  show "generate_invite_produces_consistent_hash U C raw"
    using decodes [OF n44_of_be_fold [of raw]] by (simp add: generate_invite_produces_consistent_hash_def
        generate_invite_def Let_def)
qed

section \<open>The shared fixture\<close>

text \<open>
  \<open>server/tests/data/invite_vectors.json\<close>, which the Rust and the Dart tests share: the 44 bits, the first six bytes of
  the token (the others are zero) and the code (\<open>crypto/tests/invite_vectors.rs\<close>).
\<close>

definition fixture :: "(u64 \<times> bytes \<times> string) list" where
  "fixture =
    [(0x00000000000, [0x00, 0x00, 0x00, 0x00, 0x00, 0x00], ''abandon-abandon-abandon-abandon''),
     (0xFFFFFFFFFFF, [0xFF, 0xFF, 0xFF, 0xFF, 0xFF, 0xF0], ''zoo-zoo-zoo-zoo''),
     (0x05555555555, [0x05, 0x55, 0x55, 0x55, 0x55, 0x50], ''aim-primary-fetch-primary''),
     (0x0AAAAAAAAAA, [0x0A, 0xAA, 0xAA, 0xAA, 0xAA, 0xA0], ''apple-fetch-primary-fetch''),
     (0x0123456789A, [0x01, 0x23, 0x45, 0x67, 0x89, 0xA0], ''abuse-boss-fly-battle''),
     (0x0FEDCBA9876, [0x0F, 0xED, 0xCB, 0xA9, 0x87, 0x60], ''avocado-hour-tuna-attract''),
     (0x00000000001, [0x00, 0x00, 0x00, 0x00, 0x00, 0x10], ''abandon-abandon-abandon-ability''),
     (0x08000000000, [0x08, 0x00, 0x00, 0x00, 0x00, 0x00], ''amount-abandon-abandon-abandon'')]"

definition invite_vectors_match_shared_fixture :: "unicode \<Rightarrow> bool" where
  "invite_vectors_match_shared_fixture U \<longleftrightarrow> list_all (\<lambda>(n44, prefix, code).
     let token = canonical_token_from_n44 n44
     in token = prefix @ replicate 26 0 \<and> encode_code token = code \<and> decode_code U code = Inr token) fixture"

lemma fixture_words: "map ((!) BIP39_EN) [0, 1, 9, 42, 64, 85, 118, 127, 154, 209, 682, 719, 882, 1365, 1875] =
    [''abandon'', ''ability'', ''abuse'', ''aim'', ''amount'', ''apple'', ''attract'', ''avocado'',
     ''battle'', ''boss'', ''fetch'', ''fly'', ''hour'', ''primary'', ''tuna'']"
  by code_simp

definition code_indices :: "u64 \<Rightarrow> nat list" where
  "code_indices n44 = (let n = n44_from_token_prefix (canonical_token_from_n44 n44)
     in map unat [drop_bit 33 n AND 0x7FF, drop_bit 22 n AND 0x7FF, drop_bit 11 n AND 0x7FF, n AND 0x7FF])"

lemma encode_indices:
  "encode_code (canonical_token_from_n44 n44) = join_with CHR ''-'' (map (\<lambda>i. BIP39_EN ! i) (code_indices n44))"
  by (simp add: encode_words code_indices_def Let_def)

lemma fixture_indices:
  "code_indices 0x05555555555 = [42, 1365, 682, 1365]"
  "code_indices 0x0AAAAAAAAAA = [85, 682, 1365, 682]"
  "code_indices 0x0123456789A = [9, 209, 719, 154]"
  "code_indices 0x0FEDCBA9876 = [127, 882, 1875, 118]"
  "code_indices 0x00000000001 = [0, 0, 0, 1]"
  "code_indices 0x08000000000 = [64, 0, 0, 0]"
  by code_simp+

lemma fixture_codes:
  "encode_code (canonical_token_from_n44 0x05555555555) = ''aim-primary-fetch-primary''"
  "encode_code (canonical_token_from_n44 0x0AAAAAAAAAA) = ''apple-fetch-primary-fetch''"
  "encode_code (canonical_token_from_n44 0x0123456789A) = ''abuse-boss-fly-battle''"
  "encode_code (canonical_token_from_n44 0x0FEDCBA9876) = ''avocado-hour-tuna-attract''"
  "encode_code (canonical_token_from_n44 0x00000000001) = ''abandon-abandon-abandon-ability''"
  "encode_code (canonical_token_from_n44 0x08000000000) = ''amount-abandon-abandon-abandon''"
  using fixture_words by (simp_all add: encode_indices fixture_indices)

lemma fixture_tokens:
  "list_all (\<lambda>(n44, prefix, code). canonical_token_from_n44 n44 = prefix @ replicate 26 0) fixture"
  by code_simp

lemma fixture_bits: "list_all (\<lambda>(n44, prefix, code). unat n44 < 2 ^ 44) fixture"
  by (simp add: fixture_def)

theorem invite_vectors_replay:
  assumes "unicode_ascii U"
  shows "invite_vectors_match_shared_fixture U"
proof -
  have "decode_code U (encode_code (canonical_token_from_n44 n44)) = Inr (canonical_token_from_n44 n44)"
    if "unat n44 < 2 ^ 44" for n44
    using that unfolding decode_encode [OF assms] n44_of_canonical_token bound_44_iff [symmetric] by simp
  moreover have "list_all (\<lambda>(n44, prefix, code). encode_code (canonical_token_from_n44 n44) = code) fixture"
    using encode_extremes fixture_codes
    by (simp add: fixture_def encode_zero_token_is_four_abandons_def encode_max_token_is_four_zoos_def)
  ultimately show ?thesis
    using fixture_tokens fixture_bits unfolding invite_vectors_match_shared_fixture_def list_all_iff Let_def by
        fastforce
qed

theorem invite_vectors_replay_witness: "invite_vectors_match_shared_fixture ascii_only"
  by (rule invite_vectors_replay [OF unicode_ascii_ascii_only])

section \<open>\<open>sig.rs\<close>\<close>

text \<open>A signing key of a test: its public key and what it signs.\<close>

record signer =
  verifying_key :: bytes
  sign :: "bytes \<Rightarrow> bytes"

definition verify_signature_accepts_valid_sig :: "crates \<Rightarrow> signer \<Rightarrow> bytes \<Rightarrow> bool" where
  "verify_signature_accepts_valid_sig C sk nonce \<longleftrightarrow>
     (let s = sign sk (challenge_signing_input nonce) in verify_signature C (verifying_key sk) nonce s = Inr ())"

definition verify_signature_rejects_tampered_nonce :: "crates \<Rightarrow> signer \<Rightarrow> bytes \<Rightarrow> bool" where
  "verify_signature_rejects_tampered_nonce C sk nonce \<longleftrightarrow>
     (let s = sign sk (challenge_signing_input nonce); bad = nonce[0 := nonce ! 0 XOR 1]
      in verify_signature C (verifying_key sk) bad s = Inl Mismatch)"

definition verify_signature_rejects_wrong_key :: "crates \<Rightarrow> signer \<Rightarrow> signer \<Rightarrow> bytes \<Rightarrow> bool" where
  "verify_signature_rejects_wrong_key C sk other nonce \<longleftrightarrow>
     (let s = sign sk (challenge_signing_input nonce) in verify_signature C (verifying_key other) nonce s = Inl
         Mismatch)"

definition verify_signature_rejects_bare_nonce_signature :: "crates \<Rightarrow> signer \<Rightarrow> bytes \<Rightarrow> bool" where
  "verify_signature_rejects_bare_nonce_signature C sk nonce \<longleftrightarrow>
     (let bare_sig = sign sk nonce in verify_signature C (verifying_key sk) nonce bare_sig = Inl Mismatch)"

definition challenge_signing_input_has_expected_layout :: bool where
  "challenge_signing_input_has_expected_layout \<longleftrightarrow>
     (let nonce = replicate 32 0; input = challenge_signing_input nonce
      in length input = 58 \<and> take 25 input = CHALLENGE_DOMAIN_TAG \<and> input ! 25 = 0 \<and> drop 26 input = nonce)"

definition invite_consume_signing_input_has_expected_layout :: bool where
  "invite_consume_signing_input_has_expected_layout \<longleftrightarrow>
     (let token = replicate 32 0; input = invite_consume_signing_input token
      in length input = 63 \<and> take 30 input = INVITE_CONSUME_DOMAIN_TAG \<and> input ! 30 = 0 \<and> drop 31 input = token)"

definition verify_invite_consume_accepts_valid_sig :: "crates \<Rightarrow> signer \<Rightarrow> bool" where
  "verify_invite_consume_accepts_valid_sig C sk \<longleftrightarrow>
     (let token = replicate 32 0x42; s = sign sk (invite_consume_signing_input token)
      in verify_invite_consume_signature C (verifying_key sk) token s = Inr ())"

definition verify_invite_consume_rejects_bare_token_signature :: "crates \<Rightarrow> signer \<Rightarrow> bool" where
  "verify_invite_consume_rejects_bare_token_signature C sk \<longleftrightarrow>
     (let token = replicate 32 0x42; bare_sig = sign sk token
      in verify_invite_consume_signature C (verifying_key sk) token bare_sig = Inl Mismatch)"

definition verify_invite_consume_rejects_cross_context_signature :: "crates \<Rightarrow> signer \<Rightarrow> bool" where
  "verify_invite_consume_rejects_cross_context_signature C sk \<longleftrightarrow>
     (let token = replicate 32 0x42; wrong_domain_sig = sign sk (challenge_signing_input token)
      in verify_invite_consume_signature C (verifying_key sk) token wrong_domain_sig = Inl Mismatch)"

definition verify_signature_rejects_wrong_pubkey_length :: "crates \<Rightarrow> bool" where
  "verify_signature_rejects_wrong_pubkey_length C \<longleftrightarrow>
     (let s = replicate 64 0; nonce = replicate 32 0; pk = replicate 31 0
      in verify_signature C pk nonce s = Inl (BadPubkey 31))"

definition verify_signature_rejects_wrong_sig_length :: "crates \<Rightarrow> bool" where
  "verify_signature_rejects_wrong_sig_length C \<longleftrightarrow>
     (let pk = replicate 32 0; nonce = replicate 32 0; s = replicate 63 0
      in verify_signature C pk nonce s = Inl (BadSignature 63))"

definition b64_round_trip :: "crates \<Rightarrow> bool" where
  "b64_round_trip C \<longleftrightarrow> (let bs = [0, 1, 2, 254, 255]; s = encode_b64 C bs in decode_b64 C s = Inr bs)"

text \<open>
  Ed25519, for the messages the tests sign: a signature has 64 bytes and verifies under the key of its signer for the
  signed bytes, not for another one of the messages, and not under the other key.
\<close>

definition test_messages :: "bytes \<Rightarrow> bytes list" where
  "test_messages nonce = (let token = replicate 32 0x42 in
     [nonce, challenge_signing_input nonce, challenge_signing_input (nonce[0 := nonce ! 0 XOR 1]), token,
      challenge_signing_input token, invite_consume_signing_input token])"

definition signer_law :: "crates \<Rightarrow> bytes list \<Rightarrow> signer \<Rightarrow> bool" where
  "signer_law C ms sk \<longleftrightarrow> length (verifying_key sk) = 32 \<and> ed_from_bytes_ok C (verifying_key sk) \<and>
     (\<forall>m \<in> set ms. length (sign sk m) = 64 \<and>
        (\<forall>m' \<in> set ms. ed_verify_strict C (verifying_key sk) m' (sign sk m) \<longleftrightarrow> m' = m))"

definition foreign_key :: "crates \<Rightarrow> bytes list \<Rightarrow> signer \<Rightarrow> signer \<Rightarrow> bool" where
  "foreign_key C ms sk other \<longleftrightarrow>
     (\<forall>m \<in> set ms. \<forall>m' \<in> set ms. \<not> ed_verify_strict C (verifying_key other) m' (sign sk m))"

lemma signer_verifies:
  assumes "signer_law C ms sk" and "m \<in> set ms" and "m' \<in> set ms"
  shows "verify_domain_separated C (verifying_key sk) m' (sign sk m) = (if m' = m then Inr () else Inl Mismatch)"
  using assms by (simp add: verify_domain_separated_def signer_law_def)

lemma foreign_refused:
  assumes "signer_law C ms sk" "signer_law C ms other" "foreign_key C ms sk other" and "m \<in> set ms" "m' \<in> set ms"
  shows "verify_domain_separated C (verifying_key other) m' (sign sk m) = Inl Mismatch"
  using assms by (simp add: verify_domain_separated_def signer_law_def foreign_key_def)

lemma tampered: "length nonce = 32 \<Longrightarrow> nonce[0 := nonce ! 0 XOR 1] \<noteq> (nonce :: bytes)"
proof
  assume "length nonce = 32" "nonce[0 := nonce ! 0 XOR 1] = nonce"
  then have "(nonce ! 0) XOR 1 = nonce ! 0" by (metis nth_list_update_eq zero_less_numeral)
  then show False by (metis bit.xor_left_self one_neq_zero xor.right_neutral)
qed

lemma longer: "length nonce = 32 \<Longrightarrow> signing_input tag nonce \<noteq> nonce"
  by (auto simp: signing_input_def dest: arg_cong [where f = length])

lemmas sig_test_defs = verify_signature_accepts_valid_sig_def verify_signature_rejects_tampered_nonce_def
  verify_signature_rejects_wrong_key_def verify_signature_rejects_bare_nonce_signature_def
  verify_invite_consume_accepts_valid_sig_def verify_invite_consume_rejects_bare_token_signature_def
  verify_invite_consume_rejects_cross_context_signature_def verify_signature_rejects_wrong_pubkey_length_def
  verify_signature_rejects_wrong_sig_length_def b64_round_trip_def

theorem sig_tests_pass:
  assumes "signer_law C (test_messages nonce) sk" "signer_law C (test_messages nonce) other"
    and "foreign_key C (test_messages nonce) sk other" "b64_law C" "length nonce = NONCE_LEN"
  shows "verify_signature_accepts_valid_sig C sk nonce \<and> verify_signature_rejects_tampered_nonce C sk nonce \<and>
    verify_signature_rejects_wrong_key C sk other nonce \<and> verify_signature_rejects_bare_nonce_signature C sk nonce \<and>
    challenge_signing_input_has_expected_layout \<and> invite_consume_signing_input_has_expected_layout \<and>
    verify_invite_consume_accepts_valid_sig C sk \<and> verify_invite_consume_rejects_bare_token_signature C sk \<and>
    verify_invite_consume_rejects_cross_context_signature C sk \<and> verify_signature_rejects_wrong_pubkey_length C \<and>
    verify_signature_rejects_wrong_sig_length C \<and> b64_round_trip C"
proof -
  note verify = verify_signature_def verify_invite_consume_signature_def
  note inputs = challenge_signing_input_def invite_consume_signing_input_def
  note messages = test_messages_def Let_def
  have layouts: "challenge_signing_input_has_expected_layout" "invite_consume_signing_input_has_expected_layout"
    by code_simp+
  have separate: "signing_input CHALLENGE_DOMAIN_TAG x \<noteq> signing_input INVITE_CONSUME_DOMAIN_TAG y" for x y
    by (rule challenge_vs_invite.inputs_differ)
  note cases = signer_verifies [OF assms(1)] foreign_refused [OF assms(1-3)]
  have challenge: "verify_signature_accepts_valid_sig C sk nonce" "verify_signature_rejects_tampered_nonce C sk nonce"
      "verify_signature_rejects_wrong_key C sk other nonce" "verify_signature_rejects_bare_nonce_signature C sk nonce"
    using tampered [of nonce] longer [of nonce] assms(5)
    by (simp_all add: sig_test_defs verify cases messages inputs NONCE_LEN_def signing_input_inj)
  have invite: "verify_invite_consume_accepts_valid_sig C sk" "verify_invite_consume_rejects_bare_token_signature C sk"
      "verify_invite_consume_rejects_cross_context_signature C sk"
    using longer [of "replicate 32 0x42"] separate [THEN not_sym]
    by (simp_all add: sig_test_defs verify cases messages inputs)
  show ?thesis
    using layouts challenge invite assms(4)
    by (simp add: sig_test_defs verify Let_def verify_domain_separated_def decode_b64_def encode_b64_def b64_law_def)
qed

text \<open>Crates for which the hypotheses hold: a signature is the first byte of the key, then the padded message.\<close>

definition test_crates :: crates where
  "test_crates = sample_crates\<lparr>
     ed_verify_strict := (\<lambda>k m s. s = take 1 k @ take 63 (m @ replicate 63 0)),
     hkdf_sha256_32 := (\<lambda>salt ikm info. Some (take 32 (info @ ikm)))\<rparr>"

definition test_signer :: "u8 \<Rightarrow> signer" where
  "test_signer b = \<lparr>verifying_key = replicate 32 b, sign = (\<lambda>m. b # take 63 (m @ replicate 63 0))\<rparr>"

lemma test_crates_laws: "b64_law test_crates" "dh_law test_crates"
  using sample_b64_ok sample_dh_ok by (simp_all add: test_crates_def b64_law_def dh_law_def)

theorem sig_tests_pass_witness:
  "verify_signature_rejects_bare_nonce_signature test_crates (test_signer 1) (replicate 32 9)"
proof -
  let ?nonce = "replicate 32 9 :: bytes"
  have "signer_law test_crates (test_messages ?nonce) (test_signer 1)"
    "signer_law test_crates (test_messages ?nonce) (test_signer 2)"
    "foreign_key test_crates (test_messages ?nonce) (test_signer 1) (test_signer 2)"
    by code_simp+
  then show ?thesis
    using sig_tests_pass [OF _ _ _ test_crates_laws(1)] by (simp add: NONCE_LEN_def)
qed

section \<open>\<open>identity.rs\<close> and \<open>ecdh.rs\<close>\<close>

definition phrase_rejects_unknown_word :: "unicode \<Rightarrow> bool" where
  "phrase_rejects_unknown_word U \<longleftrightarrow>
     (let bogus = join_with CHR '' '' (map (\<lambda>_. ''bogusword'') [0 ..< 24])
      in case phrase_to_seed U bogus of Inl (UnknownWord_id _) \<Rightarrow> True | _ \<Rightarrow> False)"

definition both_sides_derive_the_same_key :: "crates \<Rightarrow> bytes \<Rightarrow> bytes \<Rightarrow> bool" where
  "both_sides_derive_the_same_key C a_priv b_priv \<longleftrightarrow>
     (let a_pub = x_public_key C a_priv; b_pub = x_public_key C b_priv in
      case (derive_room_key C a_priv b_pub ''room-01J'', derive_room_key C b_priv a_pub ''room-01J'') of
        (Inr a_to_b, Inr b_to_a) \<Rightarrow> a_to_b = b_to_a | _ \<Rightarrow> False)"

definition different_room_ids_yield_different_keys :: "crates \<Rightarrow> bytes \<Rightarrow> bytes \<Rightarrow> bool" where
  "different_room_ids_yield_different_keys C a_priv b_priv \<longleftrightarrow>
     (let a_pub = x_public_key C a_priv; b_pub = x_public_key C b_priv in
      case (derive_room_key C a_priv b_pub ''room-01J'', derive_room_key C b_priv a_pub ''room-02K'') of
        (Inr k1, Inr k2) \<Rightarrow> k1 \<noteq> k2 | _ \<Rightarrow> False)"

text \<open>HKDF expands to 32 bytes without fail, and to different ones for the infos of two rooms.\<close>

definition hkdf_law :: "crates \<Rightarrow> bool" where
  "hkdf_law C \<longleftrightarrow> (\<forall>salt ikm info. hkdf_sha256_32 C salt ikm info \<noteq> None) \<and>
     (\<forall>salt ikm. hkdf_sha256_32 C salt ikm (byte_string ''room-01J'') \<noteq> hkdf_sha256_32 C salt ikm (byte_string
         ''room-02K''))"

theorem key_tests_pass:
  assumes "unicode_ascii U" "dh_law C" "hkdf_law C"
  shows "phrase_rejects_unknown_word U \<and> both_sides_derive_the_same_key C a b \<and>
    different_room_ids_yield_different_keys C a b"
proof (intro conjI)
  let ?bogus = "join_with CHR '' '' (map (\<lambda>_. ''bogusword'') [0 ..< 24])"
  have "is_ascii ?bogus" and split: "split_ascii_space [] ?bogus = replicate 24 ''bogusword''"
    by code_simp+
  then have "str_split_whitespace U ?bogus = replicate 24 ''bogusword''"
    using assms(1) by (simp only: unicode_ascii_def)
  then show "phrase_rejects_unknown_word U"
    by (simp add: phrase_rejects_unknown_word_def phrase_to_seed_def Let_def bogusword_unknown numeral_eq_Suc)
  obtain k1 k2 where "hkdf_sha256_32 C HKDF_SALT (x_diffie_hellman C a (x_public_key C b)) (byte_string
      ''room-01J'') = Some k1"
    "hkdf_sha256_32 C HKDF_SALT (x_diffie_hellman C a (x_public_key C b)) (byte_string ''room-02K'') = Some k2"
        "k1 \<noteq> k2"
    using assms(3) unfolding hkdf_law_def by (metis option.collapse)
  moreover have "x_diffie_hellman C b (x_public_key C a) = x_diffie_hellman C a (x_public_key C b)"
    using assms(2) by (simp add: dh_law_def)
  ultimately show "both_sides_derive_the_same_key C a b" "different_room_ids_yield_different_keys C a b"
    by (simp_all add: both_sides_derive_the_same_key_def different_room_ids_yield_different_keys_def
        derive_room_key_def)
qed

theorem key_tests_pass_witness: "both_sides_derive_the_same_key test_crates [1] [2]"
proof -
  have "hkdf_law test_crates"
    by (simp add: hkdf_law_def test_crates_def byte_string_def char_byte_def)
  then show ?thesis
    using key_tests_pass [OF unicode_ascii_ascii_only test_crates_laws(2)] by blast
qed

end
