(* ===== verification/Legacy.thy ===== *)
theory Legacy
  imports Frames
begin

text \<open>
  The deprecated v0.1 frames of \<open>server/src/wire.rs\<close> (\<open>ClientFrame\<close>, \<open>ServerFrame\<close>), tagged with a lower-case
  \<open>type\<close>. No handler reads or sends them; the tests of the migration do.
\<close>

record msg_payload =
  mp_id :: uuid
  mp_from :: string
  mp_to :: string
  mp_body :: string
  mp_ts :: timestamp
  mp_replayed :: bool

record hello_payload =
  hp_since :: timestamp

datatype client_frame = Client_msg msg_payload | Client_hello hello_payload

datatype server_frame = Server_msg msg_payload

definition msg_payload_fields :: "codecs \<Rightarrow> msg_payload \<Rightarrow> fields" where
  "msg_payload_fields K p =
     [(''id'', wr_uuid K (mp_id p)), (''from'', JString (mp_from p)), (''to'', JString (mp_to p)),
      (''body'', JString (mp_body p)), (''ts'', wr_time K (mp_ts p))] @ unless_false ''replayed'' (mp_replayed p)"

definition msg_payload_of :: "codecs \<Rightarrow> fields \<Rightarrow> msg_payload option" where
  "msg_payload_of K kvs = do {
     i \<leftarrow> required (rd_uuid K) ''id'' kvs; sender \<leftarrow> required rd_str ''from'' kvs; to \<leftarrow> required rd_str ''to'' kvs;
     body \<leftarrow> required rd_str ''body'' kvs; t \<leftarrow> required (rd_time K) ''ts'' kvs;
     b \<leftarrow> defaulted False rd_bool ''replayed'' kvs;
     Some \<lparr>mp_id = i, mp_from = sender, mp_to = to, mp_body = body, mp_ts = t, mp_replayed = b\<rparr> }"

definition hello_payload_of :: "codecs \<Rightarrow> fields \<Rightarrow> hello_payload option" where
  "hello_payload_of K kvs = do { t \<leftarrow> required (rd_time K) ''since'' kvs; Some \<lparr>hp_since = t\<rparr> }"

definition typed :: "fields \<Rightarrow> (string \<times> fields) option" where
  "typed kvs = do { ty \<leftarrow> required rd_str ''type'' kvs; Some (ty, filter (\<lambda>kv. fst kv \<noteq> ''type'') kvs) }"

definition client_frame_json :: "codecs \<Rightarrow> client_frame \<Rightarrow> json" where
  "client_frame_json K f = (case f of
       Client_msg p \<Rightarrow> JObject ((''type'', JString ''msg'') # msg_payload_fields K p)
     | Client_hello p \<Rightarrow> JObject [(''type'', JString ''hello''), (''since'', wr_time K (hp_since p))])"

definition client_frame_of :: "codecs \<Rightarrow> fields \<Rightarrow> client_frame option" where
  "client_frame_of K kvs = do {
     (ty, rest) \<leftarrow> typed kvs;
     if ty = ''msg'' then map_option Client_msg (msg_payload_of K rest)
     else if ty = ''hello'' then map_option Client_hello (hello_payload_of K rest) else None }"

definition server_frame_json :: "codecs \<Rightarrow> server_frame \<Rightarrow> json" where
  "server_frame_json K f = (case f of Server_msg p \<Rightarrow> JObject ((''type'', JString ''msg'') # msg_payload_fields K p))"

definition server_frame_of :: "codecs \<Rightarrow> fields \<Rightarrow> server_frame option" where
  "server_frame_of K kvs = do {
     (ty, rest) \<leftarrow> typed kvs; if ty = ''msg'' then map_option Server_msg (msg_payload_of K rest) else None }"

lemma typed_fields:
  assumes "values_at ''type'' kvs = []"
  shows "typed ((''type'', JString ty) # kvs) = Some (ty, kvs)"
proof -
  have "filter (\<lambda>kv. fst kv \<noteq> ''type'') kvs = kvs"
    using assms by (auto simp: values_at_def filter_empty_conv filter_id_conv)
  then show ?thesis
    using assms by (simp add: typed_def required_def rd_str_def)
qed

lemma msg_payload_fields_type: "values_at ''type'' (msg_payload_fields K p) = []"
  by (simp add: msg_payload_fields_def unless_false_def)

lemma msg_payload_roundtrip: "codec_law K \<Longrightarrow> msg_payload_of K (msg_payload_fields K p) = Some p"
  by (simp add: msg_payload_fields_def msg_payload_of_def field_defs unless_false_def rd_uuid_wr rd_time_wr)

text \<open>A legacy frame is read back as it was written, and an old one without \<open>replayed\<close> is a fresh message.\<close>

theorem legacy_roundtrip:
  assumes "codec_law K"
  shows "rd_struct (client_frame_of K) (client_frame_json K f) = Some f \<and>
    rd_struct (server_frame_of K) (server_frame_json K g) = Some g"
  using assms by (cases f; cases g) (simp_all add: rd_struct_def client_frame_of_def client_frame_json_def server_frame_of_def
      server_frame_json_def typed_fields msg_payload_fields_type msg_payload_roundtrip hello_payload_of_def required_def rd_time_wr)

end
