(* ===== verification/WireTests.thy ===== *)
theory WireTests
  imports Legacy
begin

text \<open>
  The unit tests of \<open>server/src/wire.rs\<close>, replayed on the model: one definition for each test, its assertions
  in the order of the source. The raw text of a test is written as the JSON value it denotes, and \<open>s.contains(..)\<close>
  on the output as the entry it looks for, at any depth. A test in which \<open>parse().unwrap()\<close> or a \<open>match\<close> fails
  is False. \<open>chrono\<close> and \<open>uuid\<close> stay the parameter \<open>K\<close>, which has to know the texts of the tests.
\<close>

fun entries :: "json \<Rightarrow> fields" where
  "entries (JObject kvs) = kvs @ concat (map (\<lambda>kv. entries (snd kv)) kvs)"
| "entries (JArray vs) = concat (map entries vs)"
| "entries _ = []"

definition under :: "string \<Rightarrow> (json \<Rightarrow> bool) \<Rightarrow> json \<Rightarrow> bool" where
  "under k P j \<longleftrightarrow> list_ex (\<lambda>kv. fst kv = k \<and> P (snd kv)) (entries j)"

definition writes :: "string \<Rightarrow> json \<Rightarrow> json \<Rightarrow> bool" where
  "writes k v j \<longleftrightarrow> under k (\<lambda>x. x = v) j"

definition mentions :: "string \<Rightarrow> json \<Rightarrow> bool" where
  "mentions k j \<longleftrightarrow> under k (\<lambda>x. True) j"

definition is_array :: "json \<Rightarrow> bool" where
  "is_array v \<longleftrightarrow> (case v of JArray _ \<Rightarrow> True | _ \<Rightarrow> False)"

definition is_object :: "json \<Rightarrow> bool" where
  "is_object v \<longleftrightarrow> (case v of JObject _ \<Rightarrow> True | _ \<Rightarrow> False)"

text \<open>\<open>j["key"]\<close> and \<open>j.get("key")\<close>.\<close>

definition field :: "string \<Rightarrow> json \<Rightarrow> json option" where
  "field k j = (case j of JObject kvs \<Rightarrow> map_of kvs k | _ \<Rightarrow> None)"

section \<open>The tests\<close>

definition parses_a_msg_frame :: "codecs \<Rightarrow> bool" where
  "parses_a_msg_frame K \<longleftrightarrow>
    (case client_frame_of K
      [(''type'', JString ''msg''), (''id'', JString ''7c4e1c8a-7e7e-4b7a-9f23-1a0a17070707''), (''from'', JString ''court''), (''to'', JString ''kaitlyn''), (''body'', JString ''hey''), (''ts'', JString ''2026-06-09T17:00:00Z'')] of
      Some (Client_msg m) \<Rightarrow> mp_from m = ''court'' \<and> mp_to m = ''kaitlyn'' \<and> mp_body m = ''hey'' \<and> \<not> mp_replayed m | _ \<Rightarrow> False)"

definition serializes_msg_without_replayed_when_false :: "codecs \<Rightarrow> bool" where
  "serializes_msg_without_replayed_when_false K \<longleftrightarrow>
    (case read_time K ''2026-06-09T17:00:00Z'' of None \<Rightarrow> False | Some t \<Rightarrow>
      let out = server_frame_json K (Server_msg \<lparr>mp_id = 0, mp_from = ''court'', mp_to = ''kaitlyn'', mp_body = ''hi'', mp_ts = t, mp_replayed = False\<rparr>) in
      \<not> mentions ''replayed'' out \<and> writes ''type'' (JString ''msg'') out)"

definition parses_a_hello_frame :: "codecs \<Rightarrow> bool" where
  "parses_a_hello_frame K \<longleftrightarrow>
    (case (client_frame_of K [(''type'', JString ''hello''), (''since'', JString ''2026-06-08T00:00:00Z'')],
        read_time K ''2026-06-08T00:00:00Z'') of
      (Some (Client_hello h), Some expected) \<Rightarrow> hp_since h = expected | _ \<Rightarrow> False)"

definition serializes_msg_with_replayed_when_true :: "codecs \<Rightarrow> bool" where
  "serializes_msg_with_replayed_when_true K \<longleftrightarrow>
    (case read_time K ''2026-06-09T17:00:00Z'' of None \<Rightarrow> False | Some t \<Rightarrow>
      writes ''replayed'' (JBool True) (server_frame_json K (Server_msg \<lparr>mp_id = 0, mp_from = ''court'', mp_to = ''kaitlyn'', mp_body = ''hi'', mp_ts = t, mp_replayed = True\<rparr>)))"

definition parses_an_identify_frame :: "bool" where
  "parses_an_identify_frame \<longleftrightarrow>
    (case auth_client_of [(''kind'', JString ''Identify''), (''username'', JString ''court''), (''signature'', JString ''AAAA'')] of
      Some (Identify p) \<Rightarrow> id_username p = ''court'' \<and> id_signature p = ''AAAA'' | _ \<Rightarrow> False)"

definition serializes_challenge_frame :: "bool" where
  "serializes_challenge_frame \<longleftrightarrow>
    (let s = auth_server_json (Challenge ''AAAA'') in
      writes ''kind'' (JString ''Challenge'') s \<and> writes ''nonce'' (JString ''AAAA'') s)"

definition serializes_authenticated_frame :: "bool" where
  "serializes_authenticated_frame \<longleftrightarrow>
    auth_server_json Authenticated = JObject [(''kind'', JString ''Authenticated'')]"

definition serializes_error_frame :: "bool" where
  "serializes_error_frame \<longleftrightarrow>
    (let s = auth_server_json (AuthError ''InvalidSignature'' ''bad sig'') in
      writes ''kind'' (JString ''Error'') s \<and> writes ''code'' (JString ''InvalidSignature'') s)"

definition parses_create_invite_frame :: "codecs \<Rightarrow> bool" where
  "parses_create_invite_frame K \<longleftrightarrow>
    room_client_of K
      [(''kind'', JString ''CreateInvite'')] = Some CreateInvite"

definition parses_consume_invite_frame :: "codecs \<Rightarrow> bool" where
  "parses_consume_invite_frame K \<longleftrightarrow>
    (case room_client_of K
      [(''kind'', JString ''ConsumeInvite''), (''code'', JString ''a-b-c-d''), (''signature_over_token'', JString ''AAAA'')] of
      Some (ConsumeInvite code signature_over_token) \<Rightarrow> code = ''a-b-c-d'' \<and> signature_over_token = ''AAAA'' | _ \<Rightarrow> False)"

definition parses_subscribe_frame_with_null_since :: "codecs \<Rightarrow> bool" where
  "parses_subscribe_frame_with_null_since K \<longleftrightarrow>
    (case room_client_of K
      [(''kind'', JString ''Subscribe''), (''room_id'', JString ''01J''), (''since_message_id'', JNull)] of
      Some (Subscribe room_id since_message_id) \<Rightarrow> room_id = ''01J'' \<and> since_message_id = None | _ \<Rightarrow> False)"

definition parses_send_frame_with_bodies_map :: "codecs \<Rightarrow> bool" where
  "parses_send_frame_with_bodies_map K \<longleftrightarrow>
    (case room_client_of K
      [(''kind'', JString ''Send''), (''room_id'', JString ''01J''), (''bodies'', JObject [(''AAAA'', JString ''ct1''), (''BBBB'', JString ''ct2'')]), (''client_msg_id'', JString ''7c4e1c8a-7e7e-4b7a-9f23-1a0a17070707'')] of
      Some (Send room_id bodies client_msg_id) \<Rightarrow> room_id = ''01J'' \<and> length bodies = 2 \<and>
        map_of bodies ''AAAA'' = Some ''ct1'' \<and> map_of bodies ''BBBB'' = Some ''ct2'' \<and> client_msg_id \<noteq> 0 | _ \<Rightarrow> False)"

definition parses_create_room_frame_with_defaults :: "codecs \<Rightarrow> bool" where
  "parses_create_room_frame_with_defaults K \<longleftrightarrow>
    (case room_client_of K
      [(''kind'', JString ''CreateRoom'')] of
      Some (CreateRoom nm invite_human_partner) \<Rightarrow> nm = None \<and> \<not> invite_human_partner | _ \<Rightarrow> False)"

definition parses_create_room_frame_with_fields :: "codecs \<Rightarrow> bool" where
  "parses_create_room_frame_with_fields K \<longleftrightarrow>
    (case room_client_of K
      [(''kind'', JString ''CreateRoom''), (''name'', JString ''Travel''), (''invite_human_partner'', JBool True)] of
      Some (CreateRoom nm invite_human_partner) \<Rightarrow> nm = Some ''Travel'' \<and> invite_human_partner | _ \<Rightarrow> False)"

definition parses_rename_room_frame :: "codecs \<Rightarrow> bool" where
  "parses_rename_room_frame K \<longleftrightarrow>
    (case room_client_of K
      [(''kind'', JString ''RenameRoom''), (''room_id'', JString ''01J''), (''name'', JString ''New name'')] of
      Some (RenameRoom room_id nm) \<Rightarrow> room_id = ''01J'' \<and> nm = ''New name'' | _ \<Rightarrow> False)"

definition parses_leave_room_frame :: "codecs \<Rightarrow> bool" where
  "parses_leave_room_frame K \<longleftrightarrow>
    (case room_client_of K
      [(''kind'', JString ''LeaveRoom''), (''room_id'', JString ''01J'')] of
      Some (LeaveRoom room_id) \<Rightarrow> room_id = ''01J'' | _ \<Rightarrow> False)"

definition serializes_rooms_frame_with_member_roster :: "codecs \<Rightarrow> bool" where
  "serializes_rooms_frame_with_member_roster K \<longleftrightarrow>
    (case read_time K ''2026-06-09T17:00:00Z'' of None \<Rightarrow> False | Some t \<Rightarrow>
      let s = room_server_json K (Rooms [\<lparr>wr_room_id = ''01J'', wr_name = [],
        wr_members = [\<lparr>wm_account_id = 1, wm_username = ''court'', wm_ed25519_pub = ''AAAA'', wm_x25519_pub = ''BBBB''\<rparr>,
          \<lparr>wm_account_id = 2, wm_username = ''kaitlyn'', wm_ed25519_pub = ''CCCC'', wm_x25519_pub = ''DDDD''\<rparr>],
        wr_created_at = t\<rparr>]) in
      writes ''kind'' (JString ''Rooms'') s \<and> under ''members'' is_array s
       \<and> writes ''username'' (JString ''court'') s \<and> writes ''username'' (JString ''kaitlyn'') s)"

definition serializes_invite_created_frame :: "codecs \<Rightarrow> bool" where
  "serializes_invite_created_frame K \<longleftrightarrow>
    (case read_time K ''2026-06-09T18:00:00Z'' of None \<Rightarrow> False | Some t \<Rightarrow>
      let s = room_server_json K (InviteCreated ''amber-fern-locket-tide'' [] t) in
      writes ''kind'' (JString ''InviteCreated'') s \<and> writes ''code'' (JString ''amber-fern-locket-tide'') s)"

definition serializes_room_created_with_pending_invite :: "codecs \<Rightarrow> bool" where
  "serializes_room_created_with_pending_invite K \<longleftrightarrow>
    (case read_time K ''2026-06-09T18:00:00Z'' of None \<Rightarrow> False | Some t \<Rightarrow>
      let s = room_server_json K (RoomCreated ''01J'' ''Travel planning'' []
        (Some \<lparr>pi_code = ''amber-fern-locket-tide'', pi_qr_png_base64 = [], pi_expires_at = t\<rparr>)) in
      writes ''kind'' (JString ''RoomCreated'') s \<and> under ''pending_invite'' is_object s
       \<and> writes ''code'' (JString ''amber-fern-locket-tide'') s)"

definition serializes_room_created_omits_null_pending_invite :: "codecs \<Rightarrow> bool" where
  "serializes_room_created_omits_null_pending_invite K \<longleftrightarrow>
    (let s = room_server_json K (RoomCreated ''01J'' [] [] None) in
      \<not> mentions ''pending_invite'' s)"

definition serializes_invite_consumed_frame :: "codecs \<Rightarrow> bool" where
  "serializes_invite_consumed_frame K \<longleftrightarrow>
    (let s = room_server_json K (InviteConsumed ''01J'' [] [\<lparr>wm_account_id = 1, wm_username = ''court'', wm_ed25519_pub = ''AAAA'', wm_x25519_pub = ''BBBB''\<rparr>]) in
      writes ''kind'' (JString ''InviteConsumed'') s \<and> writes ''username'' (JString ''court'') s)"

definition serializes_room_renamed_frame :: "codecs \<Rightarrow> bool" where
  "serializes_room_renamed_frame K \<longleftrightarrow>
    (let s = room_server_json K (RoomRenamed ''01J'' ''Travel'') in
      writes ''kind'' (JString ''RoomRenamed'') s \<and> writes ''name'' (JString ''Travel'') s)"

definition serializes_member_left_frame :: "codecs \<Rightarrow> bool" where
  "serializes_member_left_frame K \<longleftrightarrow>
    (let s = room_server_json K (MemberLeft ''01J'' ''kaitlyn'') in
      writes ''kind'' (JString ''MemberLeft'') s \<and> writes ''username'' (JString ''kaitlyn'') s)"

definition serializes_room_message_frame :: "codecs \<Rightarrow> bool" where
  "serializes_room_message_frame K \<longleftrightarrow>
    (case read_time K ''2026-06-09T17:00:00Z'' of None \<Rightarrow> False | Some t \<Rightarrow>
      let s = room_server_json K (Message ''01J'' ''01J'' ''court'' t ''hi'' False False None) in
      writes ''kind'' (JString ''Message'') s \<and> \<not> mentions ''replayed'' s \<and> \<not> mentions ''client_msg_id'' s)"

definition serializes_room_error_frame :: "codecs \<Rightarrow> bool" where
  "serializes_room_error_frame K \<longleftrightarrow>
    (let s = room_server_json K (Error ALREADY_PAIRED []) in
      writes ''kind'' (JString ''Error'') s \<and> writes ''code'' (JString ''AlreadyPaired'') s \<and> \<not> mentions ''message'' s)"

definition error_codes_module_carries_pairing_codes :: "bool" where
  "error_codes_module_carries_pairing_codes \<longleftrightarrow>
    FAN_OUT_MISMATCH = ''FanOutMismatch'' \<and> MONOGAMY_VIOLATION = ''MonogamyViolation'' \<and> ALREADY_PAIRED = ''AlreadyPaired''"

definition parses_mark_read_frame :: "codecs \<Rightarrow> bool" where
  "parses_mark_read_frame K \<longleftrightarrow>
    (case room_client_of K
      [(''kind'', JString ''MarkRead''), (''room_id'', JString ''01J''), (''up_to_message_id'', JString ''01JX'')] of
      Some (MarkRead room_id up_to_message_id) \<Rightarrow> room_id = ''01J'' \<and> up_to_message_id = ''01JX'' | _ \<Rightarrow> False)"

definition parses_register_push_frame :: "codecs \<Rightarrow> bool" where
  "parses_register_push_frame K \<longleftrightarrow>
    (case room_client_of K
      [(''kind'', JString ''RegisterPush''), (''device_id'', JString ''dev-1''), (''apns_token'', JString ''abcd''), (''environment'', JString ''sandbox'')] of
      Some (RegisterPush device_id apns_token environment token_kind) \<Rightarrow> device_id = ''dev-1'' \<and> apns_token = ''abcd'' \<and> environment = ''sandbox'' \<and> token_kind = ''alert'' | _ \<Rightarrow> False)"

definition parses_register_push_frame_with_voip_kind :: "codecs \<Rightarrow> bool" where
  "parses_register_push_frame_with_voip_kind K \<longleftrightarrow>
    (case room_client_of K
      [(''kind'', JString ''RegisterPush''), (''device_id'', JString ''dev-1''), (''apns_token'', JString ''abcd''), (''environment'', JString ''sandbox''), (''token_kind'', JString ''voip'')] of
      Some (RegisterPush device_id apns_token environment token_kind) \<Rightarrow> token_kind = ''voip'' | _ \<Rightarrow> False)"

definition parses_unregister_push_frame :: "codecs \<Rightarrow> bool" where
  "parses_unregister_push_frame K \<longleftrightarrow>
    (case room_client_of K
      [(''kind'', JString ''UnregisterPush''), (''device_id'', JString ''dev-1'')] of
      Some (UnregisterPush device_id) \<Rightarrow> device_id = ''dev-1'' | _ \<Rightarrow> False)"

definition parses_request_upload_frame :: "codecs \<Rightarrow> bool" where
  "parses_request_upload_frame K \<longleftrightarrow>
    (case room_client_of K
      [(''kind'', JString ''RequestUpload''), (''request_id'', JString ''7c4e1c8a-7e7e-4b7a-9f23-1a0a17070707''), (''room_id'', JString ''01J''), (''byte_size'', JNumber ''1048576'')] of
      Some (RequestUpload request_id room_id byte_size) \<Rightarrow> room_id = ''01J'' \<and> byte_size = 1048576 | _ \<Rightarrow> False)"

definition serializes_read_marker_frame :: "codecs \<Rightarrow> bool" where
  "serializes_read_marker_frame K \<longleftrightarrow>
    (case read_time K ''2026-11-04T17:00:00.123456Z'' of None \<Rightarrow> False | Some t \<Rightarrow>
      let s = room_server_json K (ReadMarker ''01J'' t) in
      writes ''kind'' (JString ''ReadMarker'') s \<and> writes ''room_id'' (JString ''01J'') s \<and> writes ''read_up_to'' (JString ''2026-11-04T17:00:00.123456Z'') s)"

definition serializes_read_frame :: "codecs \<Rightarrow> bool" where
  "serializes_read_frame K \<longleftrightarrow>
    (let s = room_server_json K (Read ''01J'' [''01JA'', ''01JB''] ''kaitlyn'') in
      writes ''kind'' (JString ''Read'') s \<and> writes ''reader'' (JString ''kaitlyn'') s \<and> writes ''message_ids'' (JArray [JString ''01JA'', JString ''01JB'']) s)"

definition serializes_message_frame_with_read_true :: "codecs \<Rightarrow> bool" where
  "serializes_message_frame_with_read_true K \<longleftrightarrow>
    (case read_time K ''2026-06-09T17:00:00Z'' of None \<Rightarrow> False | Some t \<Rightarrow>
      let s = room_server_json K (Message ''01J'' ''01J'' ''court'' t ''hi'' True True None) in
      writes ''read'' (JBool True) s)"

definition message_frame_omits_read_when_false :: "codecs \<Rightarrow> bool" where
  "message_frame_omits_read_when_false K \<longleftrightarrow>
    (case read_time K ''2026-06-09T17:00:00Z'' of None \<Rightarrow> False | Some t \<Rightarrow>
      let s = room_server_json K (Message ''01J'' ''01J'' ''court'' t ''hi'' False False None) in
      \<not> mentions ''read'' s)"

definition parses_typing_frame :: "codecs \<Rightarrow> bool" where
  "parses_typing_frame K \<longleftrightarrow>
    (case room_client_of K
      [(''kind'', JString ''Typing''), (''room_id'', JString ''01J''), (''typing'', JBool True)] of
      Some (Typing_req room_id typing) \<Rightarrow> room_id = ''01J'' \<and> typing | _ \<Rightarrow> False)"

definition serializes_typing_server_frame :: "codecs \<Rightarrow> bool" where
  "serializes_typing_server_frame K \<longleftrightarrow>
    (let s = room_server_json K (Typing ''01J'' ''court'' False) in
      writes ''kind'' (JString ''Typing'') s \<and> writes ''from'' (JString ''court'') s \<and> writes ''typing'' (JBool False) s)"

definition serializes_presence_server_frame :: "codecs \<Rightarrow> bool" where
  "serializes_presence_server_frame K \<longleftrightarrow>
    (let s = room_server_json K (Presence ''kaitlyn'' True None) in
      writes ''kind'' (JString ''Presence'') s \<and> writes ''user'' (JString ''kaitlyn'') s \<and> writes ''online'' (JBool True) s)"

definition presence_serializes_last_seen :: "codecs \<Rightarrow> bool" where
  "presence_serializes_last_seen K \<longleftrightarrow>
    (case read_time K ''2026-06-24T17:00:00Z'' of None \<Rightarrow> False | Some t \<Rightarrow>
      let j = room_server_json K (Presence ''court'' False (Some t)) in
      field ''kind'' j = Some (JString ''Presence'') \<and> field ''online'' j = Some (JBool False) \<and>
      field ''last_seen'' j = Some (JString ''2026-06-24T17:00:00Z'')) \<and>
    field ''last_seen'' (room_server_json K (Presence ''court'' True None)) = None"

definition parses_request_download_frame :: "codecs \<Rightarrow> bool" where
  "parses_request_download_frame K \<longleftrightarrow>
    (case room_client_of K
      [(''kind'', JString ''RequestDownload''), (''blob_key'', JString ''01JBLOB'')] of
      Some (RequestDownload blob_key) \<Rightarrow> blob_key = ''01JBLOB'' | _ \<Rightarrow> False)"

definition serializes_upload_granted_frame :: "codecs \<Rightarrow> bool" where
  "serializes_upload_granted_frame K \<longleftrightarrow>
    (case read_time K ''2026-06-16T18:00:00Z'' of None \<Rightarrow> False | Some t \<Rightarrow>
      let s = room_server_json K (UploadGranted 0 ''01JBLOB'' ''https://r2/put'' t) in
      writes ''kind'' (JString ''UploadGranted'') s \<and> writes ''blob_key'' (JString ''01JBLOB'') s)"

definition serializes_download_granted_frame :: "codecs \<Rightarrow> bool" where
  "serializes_download_granted_frame K \<longleftrightarrow>
    (case read_time K ''2026-06-16T18:00:00Z'' of None \<Rightarrow> False | Some t \<Rightarrow>
      let s = room_server_json K (DownloadGranted ''01JBLOB'' ''https://r2/get'' t) in
      writes ''kind'' (JString ''DownloadGranted'') s)"

definition parses_call_turn_request_frame :: "codecs \<Rightarrow> bool" where
  "parses_call_turn_request_frame K \<longleftrightarrow>
    (case room_client_of K
      [(''kind'', JString ''CallTurnRequest''), (''call_id'', JString ''01JCALL'')] of
      Some (CallTurnRequest call_id) \<Rightarrow> call_id = ''01JCALL'' | _ \<Rightarrow> False)"

definition parses_call_invite_frame :: "codecs \<Rightarrow> bool" where
  "parses_call_invite_frame K \<longleftrightarrow>
    (case room_client_of K
      [(''kind'', JString ''CallInvite''), (''room_id'', JString ''01J''), (''call_id'', JString ''01JCALL''), (''offer'', JString ''ENCSDP'')] of
      Some (CallInvite_req room_id call_id offer video) \<Rightarrow> room_id = ''01J'' \<and> call_id = ''01JCALL'' \<and> offer = ''ENCSDP'' \<and> \<not> video | _ \<Rightarrow> False)"

definition parses_call_invite_frame_with_video :: "codecs \<Rightarrow> bool" where
  "parses_call_invite_frame_with_video K \<longleftrightarrow>
    (case room_client_of K
      [(''kind'', JString ''CallInvite''), (''room_id'', JString ''01J''), (''call_id'', JString ''01JCALL''), (''offer'', JString ''ENC''), (''video'', JBool True)] of
      Some (CallInvite_req room_id call_id offer video) \<Rightarrow> video | _ \<Rightarrow> False)"

definition parses_call_hangup_frame_with_reason :: "codecs \<Rightarrow> bool" where
  "parses_call_hangup_frame_with_reason K \<longleftrightarrow>
    (case room_client_of K
      [(''kind'', JString ''CallHangup''), (''room_id'', JString ''01J''), (''call_id'', JString ''01JCALL''), (''reason'', JString ''decline'')] of
      Some (CallHangup_req room_id call_id reason) \<Rightarrow> reason = ''decline'' | _ \<Rightarrow> False)"

definition serializes_server_call_invite_with_from :: "codecs \<Rightarrow> bool" where
  "serializes_server_call_invite_with_from K \<longleftrightarrow>
    (let s = room_server_json K (CallInvite ''01J'' ''01JCALL'' ''court'' ''ENCSDP'' False) in
      writes ''kind'' (JString ''CallInvite'') s \<and> writes ''from'' (JString ''court'') s \<and> writes ''offer'' (JString ''ENCSDP'') s)"

definition serializes_call_turn_grant_frame_with_ice_servers :: "codecs \<Rightarrow> bool" where
  "serializes_call_turn_grant_frame_with_ice_servers K \<longleftrightarrow>
    (let s = room_server_json K (CallTurnGrant ''01JCALL''
        (JObject [(''iceServers'', JArray [JObject [(''urls'', JString ''turn:turn.example:3478''),
          (''username'', JString ''u''), (''credential'', JString ''c'')]])])) in
      writes ''kind'' (JString ''CallTurnGrant'') s \<and> writes ''call_id'' (JString ''01JCALL'') s
       \<and> under ''iceServers'' (\<lambda>v. case v of JArray (JObject _ # _) \<Rightarrow> True | _ \<Rightarrow> False) s \<and> writes ''urls'' (JString ''turn:turn.example:3478'') s)"

section \<open>The model passes them\<close>

text \<open>The texts of the tests are canonical: \<open>chrono\<close> and \<open>uuid\<close> read them, and a time is printed as it was written.\<close>

definition test_times :: "string list" where
  "test_times = [''2026-06-08T00:00:00Z'', ''2026-06-09T17:00:00Z'', ''2026-06-09T18:00:00Z'', ''2026-06-16T18:00:00Z'',
     ''2026-06-24T17:00:00Z'', ''2026-11-04T17:00:00.123456Z'']"

definition knows_test_texts :: "codecs \<Rightarrow> bool" where
  "knows_test_texts K \<longleftrightarrow> list_all (\<lambda>s. map_option (show_time K) (read_time K s) = Some s) test_times \<and>
     pred_option (\<lambda>u. u \<noteq> 0) (read_uuid K ''7c4e1c8a-7e7e-4b7a-9f23-1a0a17070707'') \<and>
     read_uuid K ''7c4e1c8a-7e7e-4b7a-9f23-1a0a17070707'' \<noteq> None"

lemma known_times:
  assumes "knows_test_texts K" and "set ss \<subseteq> set test_times"
  shows "\<forall>s \<in> set ss. \<exists>t. read_time K s = Some t \<and> show_time K t = s"
  using assms by (auto simp: knows_test_texts_def list_all_iff)

lemma known_uuid:
  assumes "knows_test_texts K"
  obtains u where "read_uuid K ''7c4e1c8a-7e7e-4b7a-9f23-1a0a17070707'' = Some u" and "u \<noteq> 0"
  using assms by (auto simp: knows_test_texts_def)

lemmas test_defs = writes_def mentions_def under_def is_array_def is_object_def field_def Let_def variant_def
  unless_none_def unless_false_def unless_empty_def wr_time_def wr_uuid_def rd_time_def rd_uuid_def field_defs

theorem legacy_and_handshake_tests_pass:
  assumes "knows_test_texts K"
  shows "parses_a_msg_frame K \<and> serializes_msg_without_replayed_when_false K \<and>
    parses_a_hello_frame K \<and> serializes_msg_with_replayed_when_true K \<and>
    parses_an_identify_frame \<and> serializes_challenge_frame \<and>
    serializes_authenticated_frame \<and> serializes_error_frame"
proof -
  obtain u where "read_uuid K ''7c4e1c8a-7e7e-4b7a-9f23-1a0a17070707'' = Some u"
    using known_uuid [OF assms] .
  moreover obtain t t' where "read_time K ''2026-06-09T17:00:00Z'' = Some t" "read_time K ''2026-06-08T00:00:00Z'' = Some t'"
    using known_times [OF assms, of "[''2026-06-09T17:00:00Z'', ''2026-06-08T00:00:00Z'']"] by (auto simp: test_times_def)
  ultimately show ?thesis
    by (simp add: test_defs client_frame_of_def typed_def msg_payload_of_def hello_payload_of_def auth_client_of_def
      tagged_def identify_of_def server_frame_json_def msg_payload_fields_def auth_server_json_def
      parses_a_msg_frame_def serializes_msg_without_replayed_when_false_def
      parses_a_hello_frame_def serializes_msg_with_replayed_when_true_def
      parses_an_identify_frame_def serializes_challenge_frame_def
      serializes_authenticated_frame_def serializes_error_frame_def)
qed

theorem client_frame_tests_pass:
  assumes "knows_test_texts K"
  shows "parses_create_invite_frame K \<and> parses_consume_invite_frame K \<and>
    parses_subscribe_frame_with_null_since K \<and> parses_send_frame_with_bodies_map K \<and>
    parses_create_room_frame_with_defaults K \<and> parses_create_room_frame_with_fields K \<and>
    parses_rename_room_frame K \<and> parses_leave_room_frame K \<and>
    parses_mark_read_frame K \<and> parses_register_push_frame K \<and>
    parses_register_push_frame_with_voip_kind K \<and> parses_unregister_push_frame K \<and>
    parses_request_upload_frame K \<and> parses_typing_frame K \<and>
    parses_request_download_frame K \<and> parses_call_turn_request_frame K \<and>
    parses_call_invite_frame K \<and> parses_call_invite_frame_with_video K \<and>
    parses_call_hangup_frame_with_reason K"
proof -
  obtain u where "read_uuid K ''7c4e1c8a-7e7e-4b7a-9f23-1a0a17070707'' = Some u" "u \<noteq> 0"
    using known_uuid [OF assms] .
  then show ?thesis
    by (simp add: test_defs room_client_of_def room_client_variant_def tagged_def rd_bodies_def read_i64_def
      parses_create_invite_frame_def parses_consume_invite_frame_def
      parses_subscribe_frame_with_null_since_def parses_send_frame_with_bodies_map_def
      parses_create_room_frame_with_defaults_def parses_create_room_frame_with_fields_def
      parses_rename_room_frame_def parses_leave_room_frame_def
      parses_mark_read_frame_def parses_register_push_frame_def
      parses_register_push_frame_with_voip_kind_def parses_unregister_push_frame_def
      parses_request_upload_frame_def parses_typing_frame_def
      parses_request_download_frame_def parses_call_turn_request_frame_def
      parses_call_invite_frame_def parses_call_invite_frame_with_video_def
      parses_call_hangup_frame_with_reason_def)
qed

theorem server_frame_tests_pass:
  assumes "knows_test_texts K"
  shows "serializes_rooms_frame_with_member_roster K \<and> serializes_invite_created_frame K \<and>
    serializes_room_created_with_pending_invite K \<and> serializes_room_created_omits_null_pending_invite K \<and>
    serializes_invite_consumed_frame K \<and> serializes_room_renamed_frame K \<and>
    serializes_member_left_frame K \<and> serializes_room_message_frame K \<and>
    serializes_room_error_frame K \<and> error_codes_module_carries_pairing_codes \<and>
    serializes_read_marker_frame K \<and> serializes_read_frame K \<and>
    serializes_message_frame_with_read_true K \<and> message_frame_omits_read_when_false K \<and>
    serializes_typing_server_frame K \<and> serializes_presence_server_frame K \<and>
    presence_serializes_last_seen K \<and> serializes_upload_granted_frame K \<and>
    serializes_download_granted_frame K \<and> serializes_server_call_invite_with_from K \<and>
    serializes_call_turn_grant_frame_with_ice_servers K"
proof -
  obtain t1 t2 t3 t4 t5 where "read_time K ''2026-06-09T17:00:00Z'' = Some t1" "read_time K ''2026-06-09T18:00:00Z'' = Some t2"
    "read_time K ''2026-11-04T17:00:00.123456Z'' = Some t3" "show_time K t3 = ''2026-11-04T17:00:00.123456Z''"
    "read_time K ''2026-06-24T17:00:00Z'' = Some t4" "show_time K t4 = ''2026-06-24T17:00:00Z''"
    "read_time K ''2026-06-16T18:00:00Z'' = Some t5"
    using known_times [OF assms order_refl] by (auto simp: test_times_def)
  then show ?thesis
    by (simp add: test_defs room_server_json_def room_json_def member_json_def pending_invite_json_def error_codes
      serializes_rooms_frame_with_member_roster_def serializes_invite_created_frame_def
      serializes_room_created_with_pending_invite_def serializes_room_created_omits_null_pending_invite_def
      serializes_invite_consumed_frame_def serializes_room_renamed_frame_def
      serializes_member_left_frame_def serializes_room_message_frame_def
      serializes_room_error_frame_def error_codes_module_carries_pairing_codes_def
      serializes_read_marker_frame_def serializes_read_frame_def
      serializes_message_frame_with_read_true_def message_frame_omits_read_when_false_def
      serializes_typing_server_frame_def serializes_presence_server_frame_def
      presence_serializes_last_seen_def serializes_upload_granted_frame_def
      serializes_download_granted_frame_def serializes_server_call_invite_with_from_def
      serializes_call_turn_grant_frame_with_ice_servers_def)
qed

text \<open>Codecs that know the texts: a time is its place in the list.\<close>

definition test_codecs :: codecs where
  "test_codecs = sample_codecs\<lparr>show_time := (\<lambda>t. test_times ! nat t),
     read_time := map_of (zip test_times [0, 1, 2, 3, 4, 5]), read_uuid := (\<lambda>s. Some 7)\<rparr>"

theorem server_frame_tests_pass_witness: "presence_serializes_last_seen test_codecs"
proof -
  have "knows_test_texts test_codecs"
    by (simp add: knows_test_texts_def test_codecs_def test_times_def)
  then show ?thesis
    using server_frame_tests_pass by blast
qed

end
