(* ===== verification/StoreTests.thy ===== *)
theory StoreTests
  imports Pairing Invites Store Registry
begin

text \<open>
  The integration tests of \<open>server/tests\<close> that work on the tables directly, replayed on the model. A test is a
  transaction script that starts on an empty database and answers whether its assertions hold; a statement that fails
  where the test unwraps it fails the test. The identifiers a test draws are fixed, and so is the clock.
\<close>

definition test_passes :: "bool sql \<Rightarrow> bool" where
  "test_passes test \<longleftrightarrow> fst (test empty_db) = Inr True"

text \<open>\<open>unwrap\<close> and \<open>unwrap_err\<close> on the inner result of a statement, \<open>assert!\<close> on what a query answers.\<close>

definition expect :: "'a sql \<Rightarrow> ('a \<Rightarrow> bool) \<Rightarrow> bool sql \<Rightarrow> bool sql" where
  "expect q P rest = sql_then q (\<lambda>x. if P x then rest else sql_read (\<lambda>_. False))"

abbreviation accept :: "bool sql" where
  "accept \<equiv> sql_read (\<lambda>_. True)"

abbreviation granted :: "'e + unit \<Rightarrow> bool" where
  "granted r \<equiv> r = Inr ()"

abbreviation always :: "'a \<Rightarrow> bool" where
  "always x \<equiv> True"

section \<open>What the tests start from (\<open>common/mod.rs\<close>)\<close>

text \<open>On a fresh store the sequence of account ids starts at 1, so the ids of the seeded accounts are known.\<close>

definition the_room :: string where "the_room = ''01J0000000000000000000ROOM''"
definition court_id :: account_id where "court_id = 1"
definition kait_id :: account_id where "kait_id = 2"
definition riley_id :: account_id where "riley_id = 3"

definition key_of :: "8 word \<Rightarrow> bytes" where
  "key_of b = replicate 32 b"

definition set_partner_column :: "account_id \<Rightarrow> account_id \<Rightarrow> unit sql" where
  "set_partner_column a b d =
    (if list_ex (\<lambda>r. acc_id r \<noteq> a \<and> acc_partner_account_id r = Some b) (accounts d) then (Inl UniqueViolation, d)
     else (Inr (), d\<lparr>accounts := update_where (\<lambda>r. acc_id r = a) (\<lambda>r. r\<lparr>acc_partner_account_id := Some b\<rparr>)
         (accounts d)\<rparr>))"

definition seed_two_humans :: "bool sql \<Rightarrow> bool sql" where
  "seed_two_humans rest =
     expect (insert_account ''court'' (key_of 10) (key_of 11)) always
     (expect (insert_account ''kaitlyn'' (key_of 20) (key_of 21)) always rest)"

definition seed_three_humans :: "bool sql \<Rightarrow> bool sql" where
  "seed_three_humans rest =
     seed_two_humans (expect (insert_account ''riley'' (key_of 40) (key_of 41)) always rest)"

definition seed_couple :: "bool sql \<Rightarrow> bool sql" where
  "seed_couple rest =
     seed_two_humans
     (expect (set_partner_column court_id kait_id) always
     (expect (set_partner_column kait_id court_id) always rest))"

definition seed_trio_room :: "bool sql \<Rightarrow> bool sql" where
  "seed_trio_room rest =
     seed_couple
     (expect (insert_account ''riley'' (key_of 30) (key_of 31)) always
     (expect (insert_room the_room '''') always
     (expect (insert_members the_room [court_id, kait_id, riley_id]) always rest)))"

definition seed_couple_room :: "bool sql \<Rightarrow> bool sql" where
  "seed_couple_room rest =
     seed_couple
     (expect (insert_room the_room '''') always
     (expect (insert_members the_room [court_id, kait_id]) always rest))"

lemmas seeds = test_passes_def expect_def seed_two_humans_def seed_three_humans_def seed_couple_def seed_trio_room_def
  seed_couple_room_def set_partner_column_def

section \<open>\<open>partner_helpers.rs\<close> and \<open>partner_race.rs\<close>\<close>

definition monogamy_check_allows_null_pair :: "bool sql" where
  "monogamy_check_allows_null_pair =
     seed_two_humans (expect (monogamy_check court_id kait_id) granted accept)"

definition monogamy_check_accepts_already_paired_couple :: "bool sql" where
  "monogamy_check_accepts_already_paired_couple =
     seed_two_humans
     (expect (set_partner_link court_id kait_id) granted
     (expect (monogamy_check court_id kait_id) granted accept))"

definition monogamy_check_rejects_third_human :: "bool sql" where
  "monogamy_check_rejects_third_human =
     seed_three_humans
     (expect (set_partner_link court_id kait_id) granted
     (expect (monogamy_check court_id riley_id) (\<lambda>r. r = Inl WrongPartner) accept))"

definition set_partner_link_is_idempotent :: "bool sql" where
  "set_partner_link_is_idempotent =
     seed_two_humans
     (expect (set_partner_link court_id kait_id) granted
     (expect (set_partner_link court_id kait_id) granted
     (expect (partner_account_id_for court_id) (\<lambda>p. p = Some kait_id) accept)))"

definition set_partner_link_rejects_third_human :: "bool sql" where
  "set_partner_link_rejects_third_human =
     seed_three_humans
     (expect (set_partner_link court_id kait_id) granted
     (expect (set_partner_link court_id riley_id) (\<lambda>r. r = Inl WrongPartner) accept))"

definition partial_unique_index_backstops_app_check :: "bool sql" where
  "partial_unique_index_backstops_app_check =
     seed_three_humans
     (expect (set_partner_column court_id kait_id) always
     (expect (\<lambda>d. (Inr (fst (set_partner_column riley_id kait_id d)), d)) (\<lambda>r. r = Inl UniqueViolation) accept))"

theorem partner_tests_pass:
  "test_passes monogamy_check_allows_null_pair \<and> test_passes monogamy_check_accepts_already_paired_couple \<and>
   test_passes monogamy_check_rejects_third_human \<and> test_passes set_partner_link_is_idempotent \<and>
   test_passes set_partner_link_rejects_third_human \<and> test_passes partial_unique_index_backstops_app_check"
  by (intro conjI; code_simp)

text \<open>
  The attempts to pair one account that run in parallel. The locked rows make each of them atomic, so the outcomes
  are those of some order of the attempts. Whatever it is, the first one wins and is the only one, for any number of
  peers; the tests are the cases of two and of eight peers.
\<close>

fun attempts :: "account_id \<Rightarrow> account_id list \<Rightarrow> account_id list sql" where
  "attempts a [] = sql_read (\<lambda>_. [])"
| "attempts a (p # ps) = sql_then (set_partner_link a p) (\<lambda>r. sql_then (attempts a ps) (\<lambda>won.
     sql_read (\<lambda>_. if granted r then p # won else won)))"

lemma late_attempts_lose:
  assumes "pairing_ok d" and "partner_of d a = Some b"
  shows "b \<notin> set ps \<Longrightarrow> attempts a ps d = (Inr [], d)"
proof (induction ps)
  case (Cons p ps)
  have "set_partner_link a p d = (Inr (Inl WrongPartner), d)"
    using assms Cons.prems set_partner_link_eq [of d a p] by (auto simp: pairing_ok_def schema_ok_def)
  then show ?case
    using Cons by (simp add: sql_then_def)
qed simp

theorem parallel_attempts_one_winner:
  assumes ok: "pairing_ok d" and "a \<in> account_ids d" and "p \<in> account_ids d"
    and "partner_of d a = None" and "partner_of d p = None" and "distinct (a # p # ps)"
  shows "attempts a (p # ps) d = (Inr [p], link_both a p d) \<and> partner_of (link_both a p d) a = Some p"
proof -
  have link: "set_partner_link a p d = (Inr (Inr ()), link_both a p d)"
    using assms set_partner_link_eq [of d a p] by (auto simp: pairing_ok_def schema_ok_def)
  have partner: "partner_of (link_both a p d) a = Some p"
    using partner_of_link_both assms by simp
  have "pairing_ok (link_both a p d)"
    using keeps_pairing_set_partner_link [of a p] ok link by (simp add: keeps_def) (metis snd_conv)
  then have "attempts a ps (link_both a p d) = (Inr [], link_both a p d)"
    using late_attempts_lose [OF _ partner, of ps] assms(6) by simp
  then show ?thesis
    using link partner by (simp add: sql_then_def)
qed

definition parallel_pair_attempts_only_one_wins :: "account_id list \<Rightarrow> bool sql" where
  "parallel_pair_attempts_only_one_wins order =
     seed_three_humans
     (expect (attempts court_id order) (\<lambda>won. length won = 1)
     (expect (partner_account_id_for court_id) (\<lambda>p. p \<noteq> None) accept))"

fun seed_peers :: "(string \<times> nat) list \<Rightarrow> bool sql \<Rightarrow> bool sql" where
  "seed_peers [] rest = rest"
| "seed_peers ((u, i) # peers) rest =
     expect (insert_account u (key_of (of_nat (20 + i))) (key_of (of_nat (21 + i)))) always (seed_peers peers rest)"

definition peer_names :: "(string \<times> nat) list" where
  "peer_names = zip [''peer0'', ''peer1'', ''peer2'', ''peer3'', ''peer4'', ''peer5'', ''peer6'', ''peer7''] [0..<8]"

definition many_parallel_pair_attempts_still_resolve_to_one_winner :: "account_id list \<Rightarrow> bool sql" where
  "many_parallel_pair_attempts_still_resolve_to_one_winner order =
     expect (insert_account ''court'' (key_of 10) (key_of 11)) always
     (seed_peers peer_names
     (sql_then (attempts court_id order) (\<lambda>won.
        if length won = 1 then expect (partner_account_id_for court_id) (\<lambda>p. p = Some (won ! 0)) accept
        else sql_read (\<lambda>_. False))))"

theorem race_tests_pass:
  "list_all (\<lambda>order. test_passes (parallel_pair_attempts_only_one_wins order)) [[kait_id, riley_id], [riley_id,
      kait_id]]"
  "list_all (\<lambda>n. test_passes (many_parallel_pair_attempts_still_resolve_to_one_winner (rotate n [2, 3, 4, 5, 6,
      7, 8, 9])))
     [0, 5]"
  by code_simp+

section \<open>\<open>room_mutations.rs\<close>, \<open>rooms_detail.rs\<close>, \<open>last_seen_store.rs\<close>\<close>

definition create_room_with_two_humans :: "bool sql" where
  "create_room_with_two_humans =
     seed_two_humans
     (expect (create_room_with_members the_room court_id (Some kait_id) ''Garden'') always
     (expect (room_detail the_room) (\<lambda>det. case det of None \<Rightarrow> False
        | Some r \<Rightarrow> rd_name r = ''Garden'' \<and> length (rd_members r) = 2) accept))"

text \<open>The new name ends in a seedling, four bytes in UTF-8.\<close>

definition garden_seedling :: string where
  "garden_seedling = ''Garden '' @ map char_of [0xF0 :: nat, 0x9F, 0x8C, 0xBF]"

definition rename_room_changes_name :: "bool sql" where
  "rename_room_changes_name =
     seed_two_humans
     (expect (create_room_with_members the_room court_id (Some kait_id) ''Garden'') always
     (expect (rename_room the_room garden_seedling) always
     (expect (room_detail the_room) (\<lambda>det. map_option rd_name det = Some garden_seedling) accept)))"

definition leave_room_removes_member_and_cascades_when_last_member_leaves :: "bool sql" where
  "leave_room_removes_member_and_cascades_when_last_member_leaves =
     seed_two_humans
     (expect (create_room_with_members the_room court_id None ''Solo'') always
     (expect (leave_room the_room court_id) room_deleted
     (expect (room_detail the_room) (\<lambda>det. det = None) accept)))"

definition leave_room_keeps_room_when_other_member_remains :: "bool sql" where
  "leave_room_keeps_room_when_other_member_remains =
     seed_trio_room
     (expect (leave_room the_room court_id) (\<lambda>outcome. \<not> room_deleted outcome)
     (expect (room_detail the_room) (\<lambda>det. case det of None \<Rightarrow> False
        | Some r \<Rightarrow> ''kaitlyn'' \<in> set (map m_username (rd_members r)) \<and>
            ''court'' \<notin> set (map m_username (rd_members r))) accept))"

definition members_for_room_returns_full_roster :: "bool sql" where
  "members_for_room_returns_full_roster =
     seed_trio_room
     (expect (members_for_room the_room) (\<lambda>ms. length ms = 3 \<and>
        set (map m_username ms) = {''court'', ''kaitlyn'', ''riley''})
     (expect (room_detail the_room) (\<lambda>det. case det of None \<Rightarrow> False
        | Some r \<Rightarrow> length (rd_members r) = 3 \<and> rd_room_id r = the_room) accept))"

definition touch_and_read_last_seen :: "timestamp \<Rightarrow> timestamp \<Rightarrow> bool sql" where
  "touch_and_read_last_seen t1 t2 =
     expect (insert_account ''court'' (key_of 7) (key_of 0)) always
     (expect (account_id_by_username ''court'') (\<lambda>i. i = Some court_id)
     (expect (last_seen_for court_id) (\<lambda>t. t = None)
     (\<lambda>d. expect (touch_last_seen court_id) always
     (expect (last_seen_for court_id) (\<lambda>t. t = Some t1)
     (\<lambda>d. expect (touch_last_seen court_id) always
     (expect (last_seen_for court_id) (\<lambda>t. case t of None \<Rightarrow> False | Some t \<Rightarrow> t1 \<le> t) accept) (d\<lparr>db_now := t2\<rparr>)))
       (d\<lparr>db_now := t1\<rparr>))))"

theorem room_tests_pass:
  "test_passes create_room_with_two_humans \<and> test_passes rename_room_changes_name \<and>
   test_passes leave_room_removes_member_and_cascades_when_last_member_leaves \<and>
   test_passes leave_room_keeps_room_when_other_member_remains \<and> test_passes members_for_room_returns_full_roster"
  by (intro conjI; code_simp)

theorem last_seen_test_passes: "t1 \<le> t2 \<Longrightarrow> test_passes (touch_and_read_last_seen t1 t2)"
  by (simp add: seeds touch_and_read_last_seen_def sql_then_def insert_account_def empty_db_def account_ids_def Let_def
      account_id_by_username_def account_by_name_def account_by_id_def court_id_def last_seen_for_def
      touch_last_seen_def update_where_def)

section \<open>\<open>store_per_recipient.rs\<close> and \<open>read_receipts_store.rs\<close>\<close>

definition id1 :: string where "id1 = ''01J000000000000000000000AA''"
definition id2 :: string where "id2 = ''01J000000000000000000000BB''"

definition new_row :: "string \<Rightarrow> account_id \<Rightarrow> account_id \<Rightarrow> string \<Rightarrow> timestamp \<Rightarrow> message_row" where
  "new_row i sender rcpt body ts = \<lparr>mr_id = i, mr_room_id = the_room, mr_from_account_id = sender,
     mr_recipient_account_id = rcpt, mr_body = body, mr_ts = ts, mr_read = False\<rparr>"

definition insert_and_replay_per_recipient :: "bool sql" where
  "insert_and_replay_per_recipient =
     seed_trio_room
     (expect (insert_message (new_row id1 court_id kait_id ''b_kait'' 1)) always
     (expect (insert_message (new_row id1 court_id riley_id ''b_riley'' 1)) always
     (expect (messages_for_recipient the_room kait_id None)
        (\<lambda>ms. length ms = 1 \<and> mr_body (ms ! 0) = ''b_kait'' \<and> mr_id (ms ! 0) = id1)
     (expect (messages_for_recipient the_room riley_id None)
        (\<lambda>ms. length ms = 1 \<and> mr_body (ms ! 0) = ''b_riley'') accept))))"

definition since_message_id_skips_replay_at_or_before :: "bool sql" where
  "since_message_id_skips_replay_at_or_before =
     seed_trio_room
     (expect (insert_message (new_row id1 court_id kait_id ''first'' 1)) always
     (expect (insert_message (new_row id2 court_id kait_id ''second'' 1)) always
     (expect (messages_for_recipient the_room kait_id (Some id1))
        (\<lambda>ms. length ms = 1 \<and> mr_body (ms ! 0) = ''second'') accept)))"

text \<open>One message of Court's: Kaitlyn's row and his own copy.\<close>

definition send_one :: "string \<Rightarrow> timestamp \<Rightarrow> bool sql \<Rightarrow> bool sql" where
  "send_one i ts rest =
     expect (insert_message (new_row i court_id kait_id ''to_kait'' ts)) always
     (expect (insert_message (new_row i court_id court_id ''self_copy'' ts)) always rest)"

definition mark_read_flips_partner_rows_and_reports_senders :: "bool sql" where
  "mark_read_flips_partner_rows_and_reports_senders =
     seed_couple_room (send_one id1 1 (send_one id2 2
     (expect (mark_read the_room kait_id id2) (\<lambda>flipped. length flipped = 2 \<and>
        list_all (\<lambda>(_, sender). sender = court_id) flipped \<and> sort (map fst flipped) = [id1, id2])
     (expect (mark_read the_room kait_id id2) (\<lambda>again. again = []) accept))))"

definition read_sent_message_ids_lists_only_partner_read_ids :: "bool sql" where
  "read_sent_message_ids_lists_only_partner_read_ids =
     seed_couple_room (send_one id1 1 (send_one id2 2
     (expect (read_sent_message_ids the_room court_id) (\<lambda>ids. ids = [])
     (expect (mark_read the_room kait_id id1) always
     (expect (read_sent_message_ids the_room court_id) (\<lambda>ids. ids = [id1])
     (expect (mark_read the_room kait_id id2) always
     (expect (read_sent_message_ids the_room court_id) (\<lambda>ids. ids = [id1, id2])
     (expect (read_sent_message_ids the_room kait_id) (\<lambda>ids. ids = []) accept))))))))"

definition replay_reports_read_state_on_senders_self_copy :: "bool sql" where
  "replay_reports_read_state_on_senders_self_copy =
     seed_couple_room (send_one id1 1
     (expect (messages_for_recipient the_room court_id None) (\<lambda>before. length before = 1 \<and> \<not> mr_read (before ! 0))
     (expect (mark_read the_room kait_id id1) always
     (expect (messages_for_recipient the_room court_id None) (\<lambda>after. length after = 1 \<and> mr_read (after ! 0))
         accept))))"

definition newest_read_incoming_ts_ignores_unread_and_my_own_messages :: "bool sql" where
  "newest_read_incoming_ts_ignores_unread_and_my_own_messages =
     seed_couple_room
     (expect (newest_read_incoming_ts the_room kait_id) (\<lambda>t. t = None)
     (send_one id1 1 (send_one id2 2
     (expect (mark_read the_room kait_id id1) always
     (expect (newest_read_incoming_ts the_room kait_id) (\<lambda>t. t = Some 1)
     (expect (newest_read_incoming_ts the_room court_id) (\<lambda>t. t = None) accept))))))"

theorem message_tests_pass:
  "test_passes insert_and_replay_per_recipient \<and> test_passes since_message_id_skips_replay_at_or_before \<and>
   test_passes mark_read_flips_partner_rows_and_reports_senders \<and> test_passes
       read_sent_message_ids_lists_only_partner_read_ids \<and>
   test_passes replay_reports_read_state_on_senders_self_copy \<and>
   test_passes newest_read_incoming_ts_ignores_unread_and_my_own_messages"
  by (intro conjI; code_simp)

section \<open>\<open>attachments_store.rs\<close>, \<open>profiles_store.rs\<close>, \<open>push_tokens_store.rs\<close>\<close>

definition insert_then_lookup_room :: "bool sql" where
  "insert_then_lookup_room =
     seed_trio_room
     (expect (account_id_by_username ''court'') (\<lambda>uploader. uploader = Some court_id)
     (expect (insert_attachment ''01JBLOBKEY'' the_room court_id 1234) always
     (expect (attachment_room ''01JBLOBKEY'') (\<lambda>found. found = Some the_room)
     (expect (attachment_room ''missing'') (\<lambda>found. found = None) accept))))"

definition text_bytes :: "string \<Rightarrow> bytes" where
  "text_bytes s = map (\<lambda>c. word_of_nat (of_char c)) s"

definition profile_is :: "string \<Rightarrow> string option \<Rightarrow> stored_profile option \<Rightarrow> bool" where
  "profile_is envelope avatar p =
     (case p of None \<Rightarrow> False | Some q \<Rightarrow> sp_envelope q = text_bytes envelope \<and> sp_avatar_key q = avatar)"

definition upsert_then_read_roundtrips_latest :: "bool sql" where
  "upsert_then_read_roundtrips_latest =
     seed_couple_room
     (expect (profile_for_account court_id) (\<lambda>p. p = None)
     (expect (upsert_profile court_id (text_bytes ''env-1'') None) always
     (expect (profile_for_account court_id) (profile_is ''env-1'' None)
     (expect (insert_attachment ''01JBLOBKEY'' the_room court_id 1234) always
     (expect (upsert_profile court_id (text_bytes ''env-2'') (Some ''01JBLOBKEY'')) always
     (expect (profile_for_account court_id) (profile_is ''env-2'' (Some ''01JBLOBKEY'')) accept))))))"

definition deleting_the_avatar_room_nulls_avatar_key_not_blocks :: "bool sql" where
  "deleting_the_avatar_room_nulls_avatar_key_not_blocks =
     seed_couple_room
     (expect (insert_attachment ''AVBLOB'' the_room court_id 10) always
     (expect (upsert_profile court_id (text_bytes ''env'') (Some ''AVBLOB'')) always
     (expect (delete_room the_room) always
     (expect (profile_for_account court_id) (profile_is ''env'' None) accept))))"

definition upsert_is_idempotent_and_updates_token :: "bool sql" where
  "upsert_is_idempotent_and_updates_token =
     seed_two_humans
     (expect (upsert_token court_id ''dev-1'' ''tokenAAAA'' ''sandbox'' KIND_ALERT) always
     (expect (upsert_token court_id ''dev-1'' ''tokenBBBB'' ''production'' KIND_ALERT) always
     (expect (tokens_for_account court_id) (\<lambda>tokens. length tokens = 1 \<and>
        dt_apns_token (tokens ! 0) = ''tokenBBBB'' \<and> dt_environment (tokens ! 0) = ''production'') accept)))"

definition delete_by_device_and_by_value :: "bool sql" where
  "delete_by_device_and_by_value =
     seed_two_humans
     (expect (upsert_token court_id ''dev-1'' ''tokAAA'' ''sandbox'' KIND_ALERT) always
     (expect (upsert_token court_id ''dev-2'' ''tokBBB'' ''sandbox'' KIND_ALERT) always
     (expect (delete_token court_id ''dev-1'') always
     (expect (tokens_for_account court_id) (\<lambda>after. length after = 1 \<and> dt_apns_token (after ! 0) = ''tokBBB'')
     (expect (delete_token_value court_id ''tokBBB'') always
     (expect (tokens_for_account court_id) (\<lambda>left. left = []) accept))))))"

definition alert_and_voip_tokens_coexist_per_device :: "bool sql" where
  "alert_and_voip_tokens_coexist_per_device =
     seed_two_humans
     (expect (upsert_token court_id ''dev-1'' ''alertTOK'' ''sandbox'' KIND_ALERT) always
     (expect (upsert_token court_id ''dev-1'' ''voipTOK'' ''sandbox'' KIND_VOIP) always
     (expect (tokens_for_account court_id) (\<lambda>alert. length alert = 1 \<and> dt_apns_token (alert ! 0) = ''alertTOK'')
     (expect (voip_tokens_for court_id) (\<lambda>voip. length voip = 1 \<and> dt_apns_token (voip ! 0) = ''voipTOK'') accept))))"

theorem registry_tests_pass:
  "test_passes insert_then_lookup_room \<and> test_passes upsert_then_read_roundtrips_latest \<and>
   test_passes deleting_the_avatar_room_nulls_avatar_key_not_blocks \<and> test_passes
       upsert_is_idempotent_and_updates_token \<and>
   test_passes delete_by_device_and_by_value \<and> test_passes alert_and_voip_tokens_coexist_per_device"
  by (intro conjI; code_simp)

end
