(* ===== verification/WsTests.thy ===== *)
theory WsTests
  imports Session Rest StoreTests
begin

text \<open>
  The integration tests of \<open>server/tests\<close> that talk to a running server, replayed on the model: clients that
      sign in, send
  frames and read what the server queues for them. A test is a script over a bench of sessions, with a small
  signature scheme in place of Ed25519 and JSON left out: what a client sends is the frame itself. Every frame is
  handled at its own time, with its own ULID.
\<close>

section \<open>The bench (\<open>common/mod.rs\<close>)\<close>

record bench =
  bn_world :: world
  bn_sessions :: "(sender \<times> session) list"
  bn_time :: int

type_synonym script = "bench \<Rightarrow> bool"

definition toy_sign :: "bytes \<Rightarrow> bytes \<Rightarrow> bytes" where
  "toy_sign key msg = take 64 (take 1 key @ rev msg @ replicate 64 0)"

definition bench_crates :: crates where
  "bench_crates = sample_crates\<lparr>ed_verify_strict := (\<lambda>key msg sig. sig = toy_sign key msg)\<rparr>"

definition bench_app :: app where
  "bench_app = sample_app\<lparr>lib := bench_crates\<rparr>"

definition env_at :: "int \<Rightarrow> env" where
  "env_at n = \<lparr>ev_ulid = ''01J'' @ [''ABCDEFGHIJ'' ! nat n], ev_random = replicate 8 (of_int n),
     ev_now = (\<lambda>k. 1000 * n + int k), ev_instant = 1000000 * n\<rparr>"

text \<open>\<open>insert_account\<close> of \<open>common/mod.rs\<close>: the X25519 key is the name, padded with zeros.\<close>

definition x25519_for :: "string \<Rightarrow> bytes" where
  "x25519_for u = take 32 (text_bytes u @ replicate 32 0)"

definition x25519_b64 :: "string \<Rightarrow> string" where
  "x25519_b64 u = b64_encode bench_crates (x25519_for u)"

definition add_account :: "string \<Rightarrow> 8 word \<Rightarrow> db \<Rightarrow> db" where
  "add_account u k d = snd (insert_account u (key_of k) (x25519_for u) d)"

definition spawn_server :: "db \<Rightarrow> bench" where
  "spawn_server d = \<lparr>bn_world = sample_world d, bn_sessions = [], bn_time = 1\<rparr>"

definition is_presence :: "room_server_frame \<Rightarrow> bool" where
  "is_presence f = (case f of Presence _ _ _ \<Rightarrow> True | _ \<Rightarrow> False)"

definition next_frame :: "sender \<Rightarrow> (room_server_frame \<Rightarrow> script) \<Rightarrow> script" where
  "next_frame i k b =
    (let w = bn_world b; ch = w_chans w in
     case dropWhile is_presence (ch_queue (ch i)) of
       [] \<Rightarrow> False
     | f # fs \<Rightarrow> k f (b\<lparr>bn_world := w\<lparr>w_chans := ch(i := (ch i)\<lparr>ch_queue := fs\<rparr>)\<rparr>\<rparr>))"

definition no_frame :: "sender \<Rightarrow> script \<Rightarrow> script" where
  "no_frame i rest b = (dropWhile is_presence (ch_queue (w_chans (bn_world b) i)) = [] \<and> rest b)"

definition drain_rooms :: "sender \<Rightarrow> script \<Rightarrow> script" where
  "drain_rooms i rest = next_frame i (\<lambda>f. case f of Rooms rs \<Rightarrow> rest | _ \<Rightarrow> (\<lambda>b. False))"

text \<open>The client with the signing key \<open>k\<close> signs in as \<open>u\<close> and runs its session on channel \<open>i\<close>.\<close>

definition bench_nonce :: "int \<Rightarrow> bytes" where
  "bench_nonce n = key_of (of_int n)"

definition identify :: "string \<Rightarrow> 8 word \<Rightarrow> bytes \<Rightarrow> socket" where
  "identify u k nonce = \<lparr>sk_inbox = [Text (u @ '':'' @ b64_encode bench_crates (toy_sign (key_of k)
      (challenge_signing_input nonce)))],
     sk_sent = [], sk_ok = (\<lambda>_. True)\<rparr>"

definition handshake_as :: "string \<Rightarrow> 8 word \<Rightarrow> sender \<Rightarrow> script \<Rightarrow> script" where
  "handshake_as u k i rest b =
    (let nonce = bench_nonce (bn_time b) in
     case handshake bench_app nonce (identify u k nonce) (bn_world b) of
       ((None, s), w) \<Rightarrow> False
     | ((Some me, s), w) \<Rightarrow>
        (case start_session bench_app (env_at (bn_time b)) me i w of (ss, w') \<Rightarrow>
           drain_rooms i rest (b\<lparr>bn_world := w', bn_sessions := (i, ss) # bn_sessions b, bn_time := bn_time b + 1\<rparr>)))"

definition client_sends :: "sender \<Rightarrow> room_client_frame \<Rightarrow> script \<Rightarrow> script" where
  "client_sends i f rest b =
    (case map_of (bn_sessions b) i of
       None \<Rightarrow> False
     | Some ss \<Rightarrow> (case handle_frame bench_app (env_at (bn_time b)) f (ss\<lparr>last_seen := ev_instant (env_at (bn_time b))\<rparr>)
         (bn_world b) of (ss', w) \<Rightarrow>
         rest (b\<lparr>bn_world := w, bn_sessions := (i, ss') # bn_sessions b, bn_time := bn_time b + 1\<rparr>)))"

definition disconnect :: "sender \<Rightarrow> script \<Rightarrow> script" where
  "disconnect i rest b =
    (case map_of (bn_sessions b) i of
       None \<Rightarrow> False
     | Some ss \<Rightarrow> rest (b\<lparr>bn_world := end_session bench_app ss (bn_world b)\<rparr>))"

definition finished :: script where
  "finished b \<longleftrightarrow> True"

definition check_db :: "(db \<Rightarrow> bool) \<Rightarrow> script \<Rightarrow> script" where
  "check_db P rest b \<longleftrightarrow> P (w_db (bn_world b)) \<and> rest b"

definition error_code :: "room_server_frame \<Rightarrow> string option" where
  "error_code f = (case f of Error code _ \<Rightarrow> Some code | _ \<Rightarrow> None)"

text \<open>The next frame is an error with this code, and the test is over.\<close>

definition ends_with_error :: "sender \<Rightarrow> string \<Rightarrow> script" where
  "ends_with_error i code = next_frame i (\<lambda>f b. error_code f = Some code)"

definition couple_accounts :: db where
  "couple_accounts = add_account ''kaitlyn'' 2 (add_account ''court'' 1 empty_db)"

definition paired_room :: db where
  "paired_room = snd (create_room_with_members the_room 1 (Some 2) '''' (snd (set_partner_link 1 2 couple_accounts)))"

text \<open>Both are connected: Court on channel 0, Kaitlyn on channel 1.\<close>

definition paired_pair :: "script \<Rightarrow> bool" where
  "paired_pair rest = handshake_as ''court'' 1 0 (handshake_as ''kaitlyn'' 2 1 rest) (spawn_server paired_room)"

section \<open>Running a script\<close>

text \<open>Keys, names and signatures stay symbolic; the continuation of a call waits for its world.\<close>

lemma db_call_weak_cong: "w = w' \<Longrightarrow> db_call q e k w = db_call q e k w'"
  by simp

lemma db_call_strict: "w_faults w = [] \<Longrightarrow> db_call (sql_read f) e k w = (let x = f (w_db w) in k x w)"
  by simp

lemma script_weak_congs:
  "b = b' \<Longrightarrow> next_frame i k b = next_frame i k b'"
  "b = b' \<Longrightarrow> client_sends i f r b = client_sends i f r b'"
  "b = b' \<Longrightarrow> handshake_as u x i r b = handshake_as u x i r b'"
  "b = b' \<Longrightarrow> drain_rooms i r b = drain_rooms i r b'"
  by simp_all

lemmas congs = db_call_weak_cong let_weak_cong script_weak_congs

lemma bench_app_simps [simp]:
  "lib bench_app = bench_crates" "uni bench_app = ascii_only" "has_store bench_app"
  "r2 bench_app = Some sample_presigner" "push bench_app = Some (\<lambda>n msg. Delivered)" "turn bench_app = None"
  "auth_text bench_app f = Some []"
  by (simp_all add: bench_app_def sample_app_def auth_text_def)

lemma bench_crates_simps [simp]:
  "b64_decode bench_crates (b64_encode bench_crates bs) = Some bs" "sha256_digest bench_crates = (\<lambda>bs. bs)"
  "ed_from_bytes_ok bench_crates k" "ed_verify_strict bench_crates k m s = (s = toy_sign k m)"
  "qr_encode bench_crates c = Some [0]" "png_render bench_crates m = Some [0]"
  by (simp_all add: bench_crates_def sample_crates_def sample_b64_def sample_b64_inv_def)

lemma lengths [simp]: "length (key_of k) = 32" "length (toy_sign ks m) = 64" "length (bench_nonce n) = 32"
  by (simp_all add: key_of_def toy_sign_def bench_nonce_def)

lemma x25519_b64_inj: "x25519_b64 ''court'' \<noteq> x25519_b64 ''kaitlyn''"
proof -
  have "x25519_for ''court'' \<noteq> x25519_for ''kaitlyn''"
    by code_simp
  then show ?thesis
    using bench_crates_simps(1) by (metis option.inject x25519_b64_def)
qed

lemma parse_test: "\<forall>c \<in> set u. c \<noteq> CHR '':'' \<Longrightarrow>
    parse_auth bench_app (u @ '':'' @ sig) = Some (Identify \<lparr>id_username = u, id_signature = sig\<rparr>)"
  by (simp add: parse_auth_def bench_app_def sample_json_read_def auth_client_of_def tagged_variant
      identify_of_def field_defs
     takeWhile_append dropWhile_append)

lemma handshake_test:
  assumes "w_faults w = []" and "account_by_name u (w_db w) = Some r" and "acc_ed25519_pub r = key_of k"
    and "\<forall>c \<in> set u. c \<noteq> CHR '':''"
  shows "\<exists>s. handshake bench_app nonce (identify u k nonce) w = ((Some (full_account_record r), s), w)"
  using assms
  by (simp add: handshake_def identify_def sock_send_def sock_next_def authenticate_def parse_test [simplified]
      lookup_ed25519_pub_def
     lookup_full_account_def decode_b64_def verify_signature_def verify_domain_separated_def Let_def)

lemma handshake_as_known:
  assumes "w_faults (bn_world b) = []" and "account_by_name u (w_db (bn_world b)) = Some r" and "acc_ed25519_pub
      r = key_of k"
    and "\<forall>c \<in> set u. c \<noteq> CHR '':''"
  shows "handshake_as u k i rest b =
    (case start_session bench_app (env_at (bn_time b)) (full_account_record r) i (bn_world b) of (ss, w') \<Rightarrow>
           drain_rooms i rest (b\<lparr>bn_world := w', bn_sessions := (i, ss) # bn_sessions b, bn_time := bn_time b + 1\<rparr>))"
  using handshake_test [OF assms, of "bench_nonce (bn_time b)"] unfolding handshake_as_def Let_def by auto

lemma couple_accounts_eq: "couple_accounts = empty_db\<lparr>accounts_id_seq := 3, accounts :=
    [\<lparr>acc_id = 1, acc_username = ''court'', acc_ed25519_pub = key_of 1, acc_x25519_pub = x25519_for ''court'',
      acc_created_at = 0, acc_partner_account_id = None, acc_last_seen_at = None\<rparr>,
     \<lparr>acc_id = 2, acc_username = ''kaitlyn'', acc_ed25519_pub = key_of 2, acc_x25519_pub = x25519_for ''kaitlyn'',
      acc_created_at = 0, acc_partner_account_id = None, acc_last_seen_at = None\<rparr>]\<rparr>"
  by (simp add: couple_accounts_def add_account_def insert_account_def Let_def empty_db_def account_ids_def)

lemmas statements = transaction_def sql_then_def set_partner_link_def locked_rows_def pick_column_def monogamy_ok_def
  link_partner_def update_where_def insert_room_def insert_member_def room_ids_def account_ids_def in_room_def
  create_room_with_members_def utf8_chars_def

lemma paired_room_eq: "paired_room = couple_accounts\<lparr>accounts :=
    [\<lparr>acc_id = 1, acc_username = ''court'', acc_ed25519_pub = key_of 1, acc_x25519_pub = x25519_for ''court'',
      acc_created_at = 0, acc_partner_account_id = Some 2, acc_last_seen_at = None\<rparr>,
     \<lparr>acc_id = 2, acc_username = ''kaitlyn'', acc_ed25519_pub = key_of 2, acc_x25519_pub = x25519_for ''kaitlyn'',
      acc_created_at = 0, acc_partner_account_id = Some 1, acc_last_seen_at = None\<rparr>],
    rooms := [\<lparr>rm_id = the_room, rm_name = [], rm_created_at = 0\<rparr>],
    room_members := [\<lparr>mb_room_id = the_room, mb_account_id = 1, mb_joined_at = 0\<rparr>,
      \<lparr>mb_room_id = the_room, mb_account_id = 2, mb_joined_at = 0\<rparr>]\<rparr>"
  by (simp add: paired_room_def couple_accounts_eq statements Let_def empty_db_def)

lemmas lookups = account_by_name_def account_by_id_def partner_username_def full_account_record_def


lemmas rooms_eval = list_rooms_for_account_def room_ids_for_account_def room_detail_def members_for_room_def
    roster_def room_by_id_def
  member_of_row_def List.map_filter_simps is_member_def

lemmas session_eval = start_session_def open_channel_def send_rooms_def announce_presence_on_connect_def
    exchange_presence_def
  partner_last_seen_def replay_profile_def deliver_pending_calls_def take_for_def new_pending_calls_def
      touch_last_seen_def
  partner_username_for_def partner_account_id_for_def profile_for_account_def profile_by_id_def
  register_def new_routing_def send_frame_def deliver_def deliver_to_def chan_send_def drain_rooms_def
      next_frame_def is_presence_def
  last_seen_for_def is_online_def room_detail_into_wire_def member_into_wire_def

lemma frame_branches:
  "handle_frame A E CreateInvite ss w = (ss, handle_create_invite A E (se_me ss) (se_tx ss) w)"
  "handle_frame A E (ConsumeInvite code signature) ss w =
    (ss, handle_consume_invite A E (se_me ss) code signature (se_tx ss) w)"
  "handle_frame A E (Subscribe rid since) ss w = (ss, handle_subscribe A (se_me ss) rid since (se_tx ss) w)"
  "handle_frame A E (Send rid bodies client) ss w = (ss, handle_send A E (se_me ss) rid bodies client (se_tx ss) w)"
  "handle_frame A E (CreateRoom nm invite) ss w = (ss, handle_create_room A E (se_me ss) nm invite (se_tx ss) w)"
  "handle_frame A E (MarkRead rid up_to) ss w = (ss, handle_mark_read A (se_me ss) rid up_to (se_tx ss) w)"
  "handle_frame A E (PublishProfile envelope avatar) ss w =
    (ss, handle_publish_profile A (se_me ss) envelope avatar (se_tx ss) w)"
  "handle_frame A E (RequestDownload key) ss w = (ss, handle_request_download A E (se_me ss) key (se_tx ss) w)"
  "handle_frame A E (Typing_req rid typing) ss w = (case allow (ev_instant E) (typing_rl ss) of (ok, rl) \<Rightarrow>
    (ss\<lparr>typing_rl := rl\<rparr>, limited ok (handle_typing A (se_me ss) rid typing) (\<lambda>w. w) w))"
  "handle_frame A E (RequestUpload request rid byte_size) ss w = (case allow (ev_instant E) (upload_rl ss) of (ok, rl) \<Rightarrow>
    (ss\<lparr>upload_rl := rl\<rparr>, limited ok (handle_request_upload A E (se_me ss) request rid byte_size (se_tx ss))
       (send_error (se_tx ss) RATE_LIMITED '''') w))"
  by (simp_all add: handle_frame_def Let_def)

lemmas handlers = frame_branches handle_send_def handle_subscribe_def handle_mark_read_def handle_typing_def
  handle_publish_profile_def handle_request_upload_def handle_request_download_def

lemmas handler_parts = fan_out_rows_def self_row_def deliver_message_def spawn_notify_def echo_self_def replay_row_def
  read_backfill_def read_marker_def group_by_sender_def relay_read_def deliver_others_def deliver_all_def body_keys_def
  allow_def new_limiter_def duration_since_def limited_def tell_offline_def announce_presence_on_disconnect_def
      end_session_def
  unregister_def send_error_def error_code_def

lemmas limits = MAX_SEND_RECIPIENTS_def MAX_BODY_BYTES_def MAX_ATTACHMENT_BYTES_def UPLOAD_RL_WINDOW_def
    UPLOAD_RL_MAX_def
  TYPING_RL_WINDOW_def TYPING_RL_MAX_def TURN_RL_WINDOW_def TURN_RL_MAX_def PRESIGN_TTL_def

lemmas message_statements = insert_many_def insert_message_def messages_for_recipient_def message_row_of_def
    read_by_other_def
  mark_read_def unread_upto_def read_sent_message_ids_def newest_read_incoming_ts_def

lemmas bench_defs = spawn_server_def paired_room_eq couple_accounts_eq empty_db_def sample_world_def
  client_sends_def handshake_as_known no_frame_def disconnect_def check_db_def finished_def ends_with_error_def
      env_at_def

lemmas replay = bench_defs lookups session_eval rooms_eval statements handlers handler_parts limits message_statements
  db_call_strict db_call_served Let_def lookup_full_account_by_id_def x25519_b64_def [symmetric] x25519_b64_inj
      x25519_b64_inj [symmetric]
  less_char_def doubleton_eq_iff

text \<open>The bench once both have signed in.\<close>

definition fresh_session :: "account_record \<Rightarrow> sender \<Rightarrow> int \<Rightarrow> session" where
  "fresh_session me tx now = \<lparr>se_me = me, se_tx = tx, upload_rl = new_limiter UPLOAD_RL_WINDOW UPLOAD_RL_MAX,
     typing_rl = new_limiter TYPING_RL_WINDOW TYPING_RL_MAX, turn_rl = new_limiter TURN_RL_WINDOW TURN_RL_MAX,
     call_rl = new_limiter TURN_RL_WINDOW TURN_RL_MAX, last_seen = now\<rparr>"

definition paired_bench :: bench where
  "paired_bench = \<lparr>bn_world = \<lparr>w_db = paired_room\<lparr>accounts :=
         map (\<lambda>a. a\<lparr>acc_last_seen_at := Some 0\<rparr>) (accounts paired_room)\<rparr>,
       w_routing = Map.empty(''court'' \<mapsto> [0], ''kaitlyn'' \<mapsto> [1]),
       w_chans = (\<lambda>c. \<lparr>ch_queue = [], ch_open = False\<rparr>)
         (0 := \<lparr>ch_queue = [Presence ''kaitlyn'' False None, Presence ''kaitlyn'' True None], ch_open = True\<rparr>,
          1 := \<lparr>ch_queue = [Presence ''court'' True None], ch_open = True\<rparr>),
       w_calls = new_pending_calls, w_faults = [], w_pushed = [], w_tasks = []\<rparr>,
     bn_sessions =
       [(1, fresh_session \<lparr>me_id = 2, me_username = ''kaitlyn'', me_ed25519_pub = key_of 2,
              me_x25519_pub = x25519_for ''kaitlyn'', me_partner_account_id = Some 1\<rparr> 1 2000000),
        (0, fresh_session \<lparr>me_id = 1, me_username = ''court'', me_ed25519_pub = key_of 1,
              me_x25519_pub = x25519_for ''court'', me_partner_account_id = Some 2\<rparr> 0 1000000)],
     bn_time = 3\<rparr>"

lemma paired_pair_eq: "paired_pair rest = rest paired_bench"
  by (simp add: paired_pair_def paired_bench_def fresh_session_def replay cong: congs del: db_call_read)

lemmas paired = paired_pair_eq paired_bench_def fresh_session_def replay

section \<open>\<open>rooms_routing.rs\<close>\<close>

text \<open>The next frame on the channel is a message for which \<open>P\<close> holds of its id, sender, body, flags and client id.\<close>

definition next_message ::
  "sender \<Rightarrow> (string \<Rightarrow> string \<Rightarrow> string \<Rightarrow> bool \<Rightarrow> bool \<Rightarrow> uuid option \<Rightarrow> bool) \<Rightarrow> (string \<Rightarrow> script) \<Rightarrow> script" where
  "next_message i P k = next_frame i (\<lambda>f. case f of
     Message mid rid sender ts body replayed read client \<Rightarrow>
       (\<lambda>b. rid = the_room \<and> P mid sender body replayed read client \<and> k mid b)
   | _ \<Rightarrow> (\<lambda>b. False))"

definition send_routes_to_room_members :: bool where
  "send_routes_to_room_members \<longleftrightarrow> paired_pair
     (client_sends 0 (Send the_room [(x25519_b64 ''kaitlyn'', ''ct_for_kait'')] 7)
     (next_message 1 (\<lambda>mid sender body replayed read client. sender = ''court'' \<and> body = ''ct_for_kait'') (\<lambda>mid.
      check_db (\<lambda>d. map ms_body (filter (\<lambda>m. ms_recipient_account_id m = 2) (messages d)) = [''ct_for_kait''])
          finished)))"

definition send_to_unknown_room_returns_unknown_room_error :: bool where
  "send_to_unknown_room_returns_unknown_room_error \<longleftrightarrow>
     handshake_as ''court'' 1 0
     (client_sends 0 (Send ''01ROOMTHATDOESNOTEXIST000'' [(x25519_b64 ''kaitlyn'', ''ct'')] 7)
     (ends_with_error 0 UNKNOWN_ROOM)) (spawn_server (add_account ''court'' 1 empty_db))"

definition subscribe_replays_message_history :: bool where
  "subscribe_replays_message_history \<longleftrightarrow> paired_pair
     (client_sends 1 (Send the_room [(x25519_b64 ''court'', ''ct_court_a'')] 1)
     (next_message 0 (\<lambda>mid sender body replayed read client. True) (\<lambda>_.
      client_sends 1 (Send the_room [(x25519_b64 ''court'', ''ct_court_b'')] 2)
     (next_message 0 (\<lambda>mid sender body replayed read client. True) (\<lambda>_.
      disconnect 0
     (handshake_as ''court'' 1 2
     (client_sends 2 (Subscribe the_room None)
     (next_message 2 (\<lambda>mid sender body replayed read client. body = ''ct_court_a'' \<and> replayed) (\<lambda>_.
      next_message 2 (\<lambda>mid sender body replayed read client. body = ''ct_court_b'' \<and> replayed) (\<lambda>_. finished))))))))))"

definition bodies_of_court :: bodies where
  "bodies_of_court = [(x25519_b64 ''kaitlyn'', ''ct_for_kait''), (x25519_b64 ''court'', ''ct_for_self'')]"

definition self_copy_is_echoed_with_client_msg_id_and_replays :: bool where
  "self_copy_is_echoed_with_client_msg_id_and_replays \<longleftrightarrow> paired_pair
     (client_sends 0 (Send the_room bodies_of_court 7)
     (next_message 1 (\<lambda>mid sender body replayed read client. body = ''ct_for_kait'' \<and> client = None) (\<lambda>_.
      next_message 0 (\<lambda>mid sender body replayed read client. sender = ''court'' \<and> body = ''ct_for_self'' \<and>
          client = Some 7) (\<lambda>_.
      disconnect 0
     (handshake_as ''court'' 1 2
     (client_sends 2 (Subscribe the_room None)
     (next_message 2 (\<lambda>mid sender body replayed read client. body = ''ct_for_self'' \<and> replayed \<and> client = None)
        (\<lambda>_. finished))))))))"

definition multi_session_fanout_reaches_every_open_socket :: bool where
  "multi_session_fanout_reaches_every_open_socket \<longleftrightarrow> paired_pair
     (handshake_as ''court'' 1 2
     (client_sends 1 (Send the_room [(x25519_b64 ''court'', ''ct_for_court'')] 7)
     (next_message 0 (\<lambda>mid sender body replayed read client. sender = ''kaitlyn'' \<and> body = ''ct_for_court'') (\<lambda>_.
      next_message 2 (\<lambda>mid sender body replayed read client. sender = ''kaitlyn'' \<and> body = ''ct_for_court'')
          (\<lambda>_. finished)))))"

lemmas test_scripts = next_message_def bodies_of_court_def add_account_def insert_account_def

theorem routing_tests_replay:
  "send_routes_to_room_members \<and> send_to_unknown_room_returns_unknown_room_error \<and> subscribe_replays_message_history \<and>
   self_copy_is_echoed_with_client_msg_id_and_replays \<and> multi_session_fanout_reaches_every_open_socket"
proof (intro conjI)
  show send_routes_to_room_members
    by (simp add: send_routes_to_room_members_def test_scripts paired cong: congs del: set_map set_filter db_call_read)
  show send_to_unknown_room_returns_unknown_room_error
    by (simp add: send_to_unknown_room_returns_unknown_room_error_def test_scripts paired cong: congs del:
        set_map set_filter db_call_read)
  show subscribe_replays_message_history
    by (simp add: subscribe_replays_message_history_def test_scripts paired cong: congs del: set_map set_filter
        db_call_read)
  show self_copy_is_echoed_with_client_msg_id_and_replays
    by (simp add: self_copy_is_echoed_with_client_msg_id_and_replays_def test_scripts paired cong: congs del:
        set_map set_filter db_call_read)
  show multi_session_fanout_reaches_every_open_socket
    by (simp add: multi_session_fanout_reaches_every_open_socket_def test_scripts paired cong: congs del:
        set_map set_filter db_call_read)
qed

section \<open>\<open>typing_ws.rs\<close>, \<open>profiles_ws.rs\<close>\<close>

definition next_is :: "sender \<Rightarrow> (room_server_frame \<Rightarrow> bool) \<Rightarrow> script \<Rightarrow> script" where
  "next_is i P rest = next_frame i (\<lambda>f b. P f \<and> rest b)"

definition typing_relays_to_partner_with_sender_username :: bool where
  "typing_relays_to_partner_with_sender_username \<longleftrightarrow> paired_pair
     (client_sends 0 (Typing_req the_room True)
     (next_is 1 (\<lambda>f. f = Typing the_room ''court'' True)
     (client_sends 0 (Typing_req the_room False)
     (next_is 1 (\<lambda>f. f = Typing the_room ''court'' False)
     (check_db (\<lambda>d. messages d = []) finished)))))"

definition typing_for_non_member_room_is_ignored :: bool where
  "typing_for_non_member_room_is_ignored \<longleftrightarrow> paired_pair
     (client_sends 0 (Typing_req ''01JNOTAROOM'' True)
     (client_sends 0 (Typing_req the_room True)
     (next_is 1 (\<lambda>f. f = Typing the_room ''court'' True)
     (no_frame 1 finished))))"

text \<open>Base64 of \<open>env\<close>, in the base64 of the bench.\<close>

definition env_b64 :: string where
  "env_b64 = b64_encode bench_crates (text_bytes ''env'')"

definition publish_profile_relays_to_partner_and_persists :: bool where
  "publish_profile_relays_to_partner_and_persists \<longleftrightarrow> paired_pair
     (client_sends 0 (PublishProfile env_b64 None)
     (next_is 1 (\<lambda>f. f = Profile ''court'' env_b64 None)
     (handshake_as ''kaitlyn'' 2 2
     (next_is 2 (\<lambda>f. f = Profile ''court'' env_b64 None) finished))))"

section \<open>\<open>last_seen_ws.rs\<close>\<close>

text \<open>The frames queued on channel \<open>i\<close>; a test that looks for presences looks through all of them.\<close>

definition presences :: "sender \<Rightarrow> string \<Rightarrow> bench \<Rightarrow> (bool \<times> timestamp option) list" where
  "presences i u b = List.map_filter (\<lambda>f. case f of Presence v online seen \<Rightarrow> if v = u then Some (online, seen)
      else None | _ \<Rightarrow> None)
     (ch_queue (w_chans (bn_world b) i))"

text \<open>Signing in without reading a frame, because \<open>next_frame\<close> drops the presences in between.\<close>

definition sign_in_as :: "string \<Rightarrow> 8 word \<Rightarrow> sender \<Rightarrow> script \<Rightarrow> script" where
  "sign_in_as u k i rest b =
    (let nonce = bench_nonce (bn_time b) in
     case handshake bench_app nonce (identify u k nonce) (bn_world b) of
       ((None, s), w) \<Rightarrow> False
     | ((Some me, s), w) \<Rightarrow>
        (case start_session bench_app (env_at (bn_time b)) me i w of (ss, w') \<Rightarrow>
           rest (b\<lparr>bn_world := w', bn_sessions := (i, ss) # bn_sessions b, bn_time := bn_time b + 1\<rparr>)))"

lemma sign_in_as_known:
  assumes "w_faults (bn_world b) = []" and "account_by_name u (w_db (bn_world b)) = Some r" and "acc_ed25519_pub
      r = key_of k"
    and "\<forall>c \<in> set u. c \<noteq> CHR '':''"
  shows "sign_in_as u k i rest b =
    (case start_session bench_app (env_at (bn_time b)) (full_account_record r) i (bn_world b) of (ss, w') \<Rightarrow>
           rest (b\<lparr>bn_world := w', bn_sessions := (i, ss) # bn_sessions b, bn_time := bn_time b + 1\<rparr>))"
  using handshake_test [OF assms, of "bench_nonce (bn_time b)"] unfolding sign_in_as_def Let_def by auto

lemma sign_in_as_weak_cong: "b = b' \<Longrightarrow> sign_in_as u x i r b = sign_in_as u x i r b'"
  by simp

definition offline_partner_presence_includes_last_seen :: bool where
  "offline_partner_presence_includes_last_seen \<longleftrightarrow>
     sign_in_as ''kaitlyn'' 2 1 (\<lambda>b. presences 1 ''court'' b = [(False, Some 0)])
       (spawn_server (snd (touch_last_seen 1 paired_room)))"

definition online_partner_presence_has_no_last_seen :: bool where
  "online_partner_presence_has_no_last_seen \<longleftrightarrow>
     sign_in_as ''court'' 1 0 (sign_in_as ''kaitlyn'' 2 1 (\<lambda>b. presences 1 ''court'' b = [(True, None)]))
       (spawn_server paired_room)"

definition disconnect_broadcasts_last_seen_to_partner :: bool where
  "disconnect_broadcasts_last_seen_to_partner \<longleftrightarrow>
     sign_in_as ''court'' 1 0 (sign_in_as ''kaitlyn'' 2 1
       (disconnect 0 (\<lambda>b. presences 1 ''court'' b = [(True, None), (False, Some 0)])))
       (spawn_server paired_room)"

lemma other_room: "the_room \<noteq> ''01JNOTAROOM''"
  by (simp add: the_room_def)

theorem presence_tests_replay:
  "typing_relays_to_partner_with_sender_username \<and> typing_for_non_member_room_is_ignored \<and>
   publish_profile_relays_to_partner_and_persists \<and> offline_partner_presence_includes_last_seen \<and>
   online_partner_presence_has_no_last_seen \<and> disconnect_broadcasts_last_seen_to_partner"
proof (intro conjI)
  show typing_relays_to_partner_with_sender_username
    by (simp add: typing_relays_to_partner_with_sender_username_def next_is_def paired cong: congs del: set_map
        set_filter db_call_read)
  show typing_for_non_member_room_is_ignored
    by (simp add: typing_for_non_member_room_is_ignored_def next_is_def other_room paired cong: congs del:
        set_map set_filter db_call_read)
  show publish_profile_relays_to_partner_and_persists
    by (simp add: publish_profile_relays_to_partner_and_persists_def env_b64_def next_is_def upsert_profile_def paired
        cong: congs del: set_map set_filter db_call_read)
  note presence = presences_def sign_in_as_known List.map_filter_simps replay
  show offline_partner_presence_includes_last_seen
    by (simp add: offline_partner_presence_includes_last_seen_def presence cong: congs sign_in_as_weak_cong del:
        db_call_read)
  show online_partner_presence_has_no_last_seen
    by (simp add: online_partner_presence_has_no_last_seen_def presence cong: congs sign_in_as_weak_cong del:
        db_call_read)
  show disconnect_broadcasts_last_seen_to_partner
    by (simp add: disconnect_broadcasts_last_seen_to_partner_def presence cong: congs sign_in_as_weak_cong del:
        db_call_read)
qed

section \<open>\<open>read_receipts_ws.rs\<close>\<close>

text \<open>Court sends a message with his own copy; both read theirs.\<close>

definition court_sends :: "(string \<Rightarrow> script) \<Rightarrow> script" where
  "court_sends k =
     client_sends 0 (Send the_room bodies_of_court 7)
     (next_message 1 (\<lambda>mid sender body replayed read client. body = ''ct_for_kait'') (\<lambda>mid.
      next_message 0 (\<lambda>_ sender body replayed read client. True) (\<lambda>_. k mid)))"

text \<open>After the first message: both rows are stored, everything is read, a push for Kaitlyn is under way.\<close>

definition message_of_court :: "string \<Rightarrow> account_id \<Rightarrow> string \<Rightarrow> timestamp \<Rightarrow> message_row_db" where
  "message_of_court mid rcpt body ts = \<lparr>ms_id = mid, ms_room_id = the_room, ms_from_account_id = 1,
     ms_recipient_account_id = rcpt, ms_body = body, ms_ts = ts, ms_read_at = None\<rparr>"

definition sent_bench :: bench where
  "sent_bench = (let w = bn_world paired_bench in paired_bench\<lparr>bn_world := w\<lparr>
       w_db := (w_db w)\<lparr>messages := [message_of_court ''01JD'' 2 ''ct_for_kait'' 3000, message_of_court ''01JD''
           1 ''ct_for_self'' 3000]\<rparr>,
       w_chans := (\<lambda>c. \<lparr>ch_queue = [], ch_open = False\<rparr>)
         (1 := \<lparr>ch_queue = [], ch_open = True\<rparr>, 0 := \<lparr>ch_queue = [], ch_open = True\<rparr>), w_tasks := [(2, the_room)]\<rparr>,
     bn_sessions := (0, the (map_of (bn_sessions paired_bench) 0)\<lparr>last_seen := 3000000\<rparr>) # bn_sessions paired_bench,
     bn_time := 4\<rparr>)"

lemma court_sends_paired: "court_sends k paired_bench = k ''01JD'' sent_bench"
  by (simp add: sent_bench_def court_sends_def message_of_court_def next_is_def test_scripts paired cong: congs
      del: set_map set_filter db_call_read)

definition mark_read_relays_read_frame_to_sender :: bool where
  "mark_read_relays_read_frame_to_sender \<longleftrightarrow> paired_pair
     (court_sends (\<lambda>mid.
      client_sends 1 (MarkRead the_room mid)
     (next_is 0 (\<lambda>f. f = Read the_room [mid] ''kaitlyn'') finished)))"

definition subscribe_replays_read_flag_after_partner_reads :: bool where
  "subscribe_replays_read_flag_after_partner_reads \<longleftrightarrow> paired_pair
     (court_sends (\<lambda>mid.
      client_sends 1 (MarkRead the_room mid)
     (next_is 0 (\<lambda>f. True)
     (disconnect 0
     (handshake_as ''court'' 1 2
     (client_sends 2 (Subscribe the_room None)
     (next_message 2 (\<lambda>_ sender body replayed read client. body = ''ct_for_self'' \<and> replayed \<and> read) (\<lambda>_.
         finished))))))))"

definition subscribe_backfills_read_state_past_the_watermark :: bool where
  "subscribe_backfills_read_state_past_the_watermark \<longleftrightarrow> paired_pair
     (court_sends (\<lambda>mid.
      client_sends 1 (MarkRead the_room mid)
     (next_is 0 (\<lambda>f. f = Read the_room [mid] ''kaitlyn'')
     (disconnect 0
     (handshake_as ''court'' 1 2
     (client_sends 2 (Subscribe the_room (Some mid))
     (next_is 2 (\<lambda>f. f = Read the_room [mid] ''kaitlyn'') finished)))))))"

definition resubscribe :: "string \<Rightarrow> 8 word \<Rightarrow> sender \<Rightarrow> string \<Rightarrow> script \<Rightarrow> script" where
  "resubscribe u k i since rest = handshake_as u k i (client_sends i (Subscribe the_room (Some since)) rest)"

definition subscribe_restores_my_read_marker_past_the_watermark :: bool where
  "subscribe_restores_my_read_marker_past_the_watermark \<longleftrightarrow> paired_pair
     (court_sends (\<lambda>read_id. court_sends (\<lambda>unread_id.
      client_sends 1 (MarkRead the_room read_id)
     (next_is 0 (\<lambda>f. True)
     (disconnect 1
     (resubscribe ''kaitlyn'' 2 2 unread_id
     (\<lambda>b. next_is 2 (\<lambda>f. map_option Some (map_of (map (\<lambda>m. ((ms_id m, ms_body m), ms_ts m)) (messages (w_db
         (bn_world b))))
           (read_id, ''ct_for_kait'')) = Some (case f of ReadMarker rid ts \<Rightarrow> if rid = the_room then Some ts else
               None | _ \<Rightarrow> None))
        finished b)))))))"

definition subscribe_sends_no_read_marker_when_nothing_was_read :: bool where
  "subscribe_sends_no_read_marker_when_nothing_was_read \<longleftrightarrow> paired_pair
     (court_sends (\<lambda>mid.
      disconnect 1
     (resubscribe ''kaitlyn'' 2 2 mid
     (no_frame 2 finished))))"

theorem receipt_tests_replay:
  "mark_read_relays_read_frame_to_sender \<and> subscribe_replays_read_flag_after_partner_reads \<and>
   subscribe_backfills_read_state_past_the_watermark \<and> subscribe_restores_my_read_marker_past_the_watermark \<and>
   subscribe_sends_no_read_marker_when_nothing_was_read"
proof (intro conjI)
  note receipts = sent_bench_def message_of_court_def court_sends_def resubscribe_def next_is_def test_scripts paired
  show mark_read_relays_read_frame_to_sender
    unfolding mark_read_relays_read_frame_to_sender_def paired_pair_eq court_sends_paired
    by (simp add: receipts cong: congs del: set_map set_filter db_call_read)
  show subscribe_replays_read_flag_after_partner_reads
    unfolding subscribe_replays_read_flag_after_partner_reads_def paired_pair_eq court_sends_paired
    by (simp add: receipts cong: congs del: set_map set_filter db_call_read)
  show subscribe_backfills_read_state_past_the_watermark
    unfolding subscribe_backfills_read_state_past_the_watermark_def paired_pair_eq court_sends_paired
    by (simp add: receipts cong: congs del: set_map set_filter db_call_read)
  show subscribe_restores_my_read_marker_past_the_watermark
    unfolding subscribe_restores_my_read_marker_past_the_watermark_def paired_pair_eq court_sends_paired
    by (simp add: receipts cong: congs del: set_map set_filter db_call_read)
  show subscribe_sends_no_read_marker_when_nothing_was_read
    unfolding subscribe_sends_no_read_marker_when_nothing_was_read_def paired_pair_eq court_sends_paired
    by (simp add: receipts cong: congs del: set_map set_filter db_call_read)
qed

end
