(* ===== verification/PairingTests.thy ===== *)
theory PairingTests
  imports WsTests
begin

text \<open>
  The rest of the integration tests: invites and pairing, attachments, pushes, the handshake and the REST routes.
  The random bytes of an invite are the number of the frame that makes it.
\<close>

section \<open>Invites\<close>

text \<open>\<open>sign_invite_consume_b64\<close> of \<open>common/mod.rs\<close>, over the token that the code stands for.\<close>

definition sign_invite_consume_b64 :: "8 word \<Rightarrow> bytes \<Rightarrow> string" where
  "sign_invite_consume_b64 k token = b64_encode bench_crates (toy_sign (key_of k) (invite_consume_signing_input token))"

definition consume_with :: "sender \<Rightarrow> 8 word \<Rightarrow> string \<Rightarrow> script \<Rightarrow> script" where
  "consume_with i k code rest = (case decode_code ascii_only code of
     Inl e \<Rightarrow> (\<lambda>b. False)
   | Inr canonical \<Rightarrow> client_sends i (ConsumeInvite code (sign_invite_consume_b64 k canonical)) rest)"

definition create_invite :: "sender \<Rightarrow> (string \<Rightarrow> script) \<Rightarrow> script" where
  "create_invite i k = client_sends i CreateInvite (next_frame i (\<lambda>f. case f of InviteCreated code qr expires \<Rightarrow>
      k code | _ \<Rightarrow> (\<lambda>b. False)))"

text \<open>The invite made of random bytes \<open>b\<close>.\<close>

definition token :: "8 word \<Rightarrow> bytes" where
  "token b = fst (generate_invite bench_crates (replicate 8 b))"

definition code_of :: "8 word \<Rightarrow> string" where
  "code_of b = fst (snd (generate_invite bench_crates (replicate 8 b)))"

lemma generate_bench: "generate_invite bench_crates (replicate 8 b) = (token b, code_of b, token b)"
  by (simp add: token_def code_of_def generate_invite_def Let_def sha256_def)

lemma decode_bench: "decode_code ascii_only (code_of b) = Inr (token b)"
proof -
  have "decode_code ascii_only (code_of b) = Inr (canonical_token_from_n44 (drop_bit 4 (be_fold ([0, 0] @ take 6
      (replicate 8 b))) AND mask 44))"
    using decode_encode [OF unicode_ascii_ascii_only] n44_of_canonical_token
    by (simp add: code_of_def generate_invite_def Let_def)
  also have "\<dots> = Inr (token b)"
    using iffD2 [OF bound_44_iff n44_of_be_fold [of "replicate 8 b"]] by (simp only: token_def
        generate_invite_def Let_def fst_conv)
  finally show ?thesis .
qed

definition full_pairing_flow_succeeds :: bool where
  "full_pairing_flow_succeeds \<longleftrightarrow>
     handshake_as ''court'' 1 0
     (create_invite 0 (\<lambda>code b.
        fst (fst (preview_invite bench_app 0 code (bn_world b))) = 404 \<and>
        handshake_as ''kaitlyn'' 2 1
        (consume_with 1 2 code
        (next_frame 1 (\<lambda>f. case f of
           InviteConsumed rid nm members \<Rightarrow> (\<lambda>b. rid \<noteq> [] \<and> {''court'', ''kaitlyn''} \<subseteq> set (map wm_username members) \<and>
             next_frame 0 (\<lambda>g b. case g of RoomCreated rid' nm' members' pend \<Rightarrow> rid' = rid \<and> length members' = 2
                 | _ \<Rightarrow> False) b)
         | _ \<Rightarrow> (\<lambda>b. False)))) b)) (spawn_server couple_accounts)"

definition consume_with_invalid_signature_returns_invalid_signature_error :: bool where
  "consume_with_invalid_signature_returns_invalid_signature_error \<longleftrightarrow>
     handshake_as ''court'' 1 0 (create_invite 0 (\<lambda>code.
     handshake_as ''kaitlyn'' 2 1 (consume_with 1 42 code
     (ends_with_error 1 INVALID_SIGNATURE)))) (spawn_server couple_accounts)"

text \<open>The code of the zero token, \<open>abandon-abandon-abandon-abandon\<close> (theory CryptoTests).\<close>

definition consume_unknown_code_returns_invite_not_found :: bool where
  "consume_unknown_code_returns_invite_not_found \<longleftrightarrow>
     handshake_as ''kaitlyn'' 2 1 (consume_with 1 2 (code_of 0)
     (ends_with_error 1 INVITE_NOT_FOUND)) (spawn_server (add_account ''kaitlyn'' 2 empty_db))"

definition consuming_own_invite_returns_already_paired :: bool where
  "consuming_own_invite_returns_already_paired \<longleftrightarrow>
     handshake_as ''court'' 1 0 (create_invite 0 (\<lambda>code. consume_with 0 1 code
     (ends_with_error 0 ALREADY_PAIRED))) (spawn_server (add_account ''court'' 1 empty_db))"

definition create_invite_rejects_already_paired_caller :: bool where
  "create_invite_rejects_already_paired_caller \<longleftrightarrow>
     handshake_as ''court'' 1 0 (client_sends 0 CreateInvite (ends_with_error 0 ALREADY_PAIRED)) (spawn_server
         paired_room)"

definition second_create_invite_invalidates_the_first :: bool where
  "second_create_invite_invalidates_the_first \<longleftrightarrow>
     handshake_as ''court'' 1 0 (create_invite 0 (\<lambda>first_code. create_invite 0 (\<lambda>second_code b. first_code \<noteq>
         second_code \<and>
       check_db (\<lambda>d. length (filter (\<lambda>i. iv_consumed_at i = None) (invites d)) = 1) finished b)))
     (spawn_server (add_account ''court'' 1 empty_db))"

lemmas invite_handlers = handle_create_invite_def handle_consume_invite_def after_link_def join_invited_room_def
    announce_joined_def
  create_invite_record_def delete_open_invites_def insert_invite_def lookup_invite_def invite_by_hash_def
      invite_row_of_def
  state_def default_expiry_def INVITE_TTL_SECONDS_def qr_or_empty_def qr_png_base64_def sha256_def decode_b64_def
  verify_invite_consume_signature_def verify_domain_separated_def lookup_full_account_by_id_def room_for_invite_def
  mark_consumed_def

lemmas invite_scripts = consume_with_def create_invite_def sign_invite_consume_b64_def generate_bench decode_bench
  test_scripts


lemma toy_sign_key: "toy_sign (key_of k) m = toy_sign (key_of k') m' \<Longrightarrow> k = k'"
proof -
  have "hd (toy_sign (key_of j) x) = j" for j x
    by (simp add: toy_sign_def key_of_def)
  then show "toy_sign (key_of k) m = toy_sign (key_of k') m' \<Longrightarrow> k = k'"
    by metis
qed

lemma other_key: "k \<noteq> k' \<Longrightarrow> toy_sign (key_of k) m \<noteq> toy_sign (key_of k') m'"
  using toy_sign_key by blast

lemma other_tokens: "token 2 \<noteq> token 3" "token 6 \<noteq> token 2" "token 2 \<noteq> token 6"
  by code_simp+

lemma other_codes: "code_of 2 \<noteq> code_of 3"
  using decode_bench [of 2] decode_bench [of 3] other_tokens by auto

text \<open>A couple pairs, then a third person makes an invite and Kaitlyn tries it.\<close>

definition third_persons_invite :: "(string \<Rightarrow> script) \<Rightarrow> bool" where
  "third_persons_invite k \<longleftrightarrow>
     handshake_as ''court'' 1 0 (create_invite 0 (\<lambda>code.
     handshake_as ''kaitlyn'' 2 1 (consume_with 1 2 code
     (next_is 1 (\<lambda>f. case f of InviteConsumed rid nm members \<Rightarrow> True | _ \<Rightarrow> False)
     (next_is 0 (\<lambda>f. True)
     (handshake_as ''third'' 3 2 (create_invite 2 (\<lambda>code2.
      consume_with 1 2 code2
     (next_is 1 (\<lambda>f. error_code f = Some MONOGAMY_VIOLATION) (k code2)))))))))) (spawn_server (add_account
         ''third'' 3 couple_accounts))"

definition consume_invite_from_already_paired_consumer_returns_already_paired :: bool where
  "consume_invite_from_already_paired_consumer_returns_already_paired \<longleftrightarrow> third_persons_invite (\<lambda>_. finished)"

definition consume_invite_failing_monogamy_does_not_consume_the_invite :: bool where
  "consume_invite_failing_monogamy_does_not_consume_the_invite \<longleftrightarrow> third_persons_invite (\<lambda>code2.
     case decode_code ascii_only code2 of Inl e \<Rightarrow> (\<lambda>b. False)
     | Inr canonical2 \<Rightarrow> check_db (\<lambda>d. map_option iv_consumed_at (invite_by_hash (sha256 bench_crates canonical2)
         d) = Some None) finished)"

section \<open>\<open>create_room_reinvite.rs\<close>\<close>

text \<open>The names on the roster and the pending invite of the room that the frame announces.\<close>

definition room_created :: "string \<Rightarrow> string set \<Rightarrow> (pending_invite option \<Rightarrow> bool) \<Rightarrow> room_server_frame \<Rightarrow> bool" where
  "room_created nm names P f = (case f of
     RoomCreated rid nm' members pend \<Rightarrow> nm' = nm \<and> names \<subseteq> set (map wm_username members) \<and> P pend
   | _ \<Rightarrow> False)"

definition create_room_auto_adds_paired_partner_without_invite :: bool where
  "create_room_auto_adds_paired_partner_without_invite \<longleftrightarrow>
     handshake_as ''court'' 1 0 (create_invite 0 (\<lambda>code.
     handshake_as ''kaitlyn'' 2 1 (consume_with 1 2 code
     (next_is 1 (\<lambda>f. True)
     (next_is 0 (\<lambda>f. True)
     (client_sends 0 (CreateRoom (Some ''travel'') True)
     (next_is 0 (room_created ''travel'' {''court'', ''kaitlyn''} (\<lambda>pend. pend = None))
     (next_is 1 (room_created ''travel'' {''court'', ''kaitlyn''} (\<lambda>pend. pend = None)) finished))))))))
         (spawn_server couple_accounts)"

definition create_room_mints_invite_when_partner_not_paired :: bool where
  "create_room_mints_invite_when_partner_not_paired \<longleftrightarrow>
     handshake_as ''court'' 1 0
     (client_sends 0 (CreateRoom (Some ''first room'') True)
     (next_is 0 (room_created ''first room'' {} (\<lambda>pend. pend \<noteq> None)) finished)) (spawn_server (add_account
         ''court'' 1 empty_db))"

lemmas room_handlers = handle_create_room_def create_room_for_def announce_room_def MAX_ROOM_NAME_CHARS_def
  utf8_continuation_def

lemmas invite_eval = other_key other_codes other_tokens preview_invite_def third_persons_invite_def
    room_created_def room_handlers
  next_is_def invite_scripts invite_handlers paired

theorem invite_tests_replay:
  "full_pairing_flow_succeeds \<and>
   consume_with_invalid_signature_returns_invalid_signature_error \<and>
   consume_unknown_code_returns_invite_not_found \<and>
   consuming_own_invite_returns_already_paired \<and>
   create_invite_rejects_already_paired_caller \<and>
   second_create_invite_invalidates_the_first"
proof (intro conjI)
  show full_pairing_flow_succeeds
    by (simp add: full_pairing_flow_succeeds_def invite_eval cong: congs
        del: set_map set_filter db_call_read)
  show consume_with_invalid_signature_returns_invalid_signature_error
    by (simp add: consume_with_invalid_signature_returns_invalid_signature_error_def invite_eval cong: congs
        del: set_map set_filter db_call_read)
  show consume_unknown_code_returns_invite_not_found
    by (simp add: consume_unknown_code_returns_invite_not_found_def invite_eval cong: congs
        del: set_map set_filter db_call_read)
  show consuming_own_invite_returns_already_paired
    by (simp add: consuming_own_invite_returns_already_paired_def invite_eval cong: congs
        del: set_map set_filter db_call_read)
  show create_invite_rejects_already_paired_caller
    by (simp add: create_invite_rejects_already_paired_caller_def invite_eval cong: congs
        del: set_map set_filter db_call_read)
  show second_create_invite_invalidates_the_first
    by (simp add: second_create_invite_invalidates_the_first_def invite_eval cong: congs
        del: set_map set_filter db_call_read)
qed

theorem pairing_tests_replay:
  "consume_invite_from_already_paired_consumer_returns_already_paired \<and>
   consume_invite_failing_monogamy_does_not_consume_the_invite \<and>
   create_room_auto_adds_paired_partner_without_invite \<and>
   create_room_mints_invite_when_partner_not_paired"
proof (intro conjI)
  show consume_invite_from_already_paired_consumer_returns_already_paired
    by (simp add: consume_invite_from_already_paired_consumer_returns_already_paired_def invite_eval cong: congs
        del: set_map set_filter db_call_read)
  show consume_invite_failing_monogamy_does_not_consume_the_invite
    by (simp add: consume_invite_failing_monogamy_does_not_consume_the_invite_def invite_eval cong: congs
        del: set_map set_filter db_call_read)
  show create_room_auto_adds_paired_partner_without_invite
    by (simp add: create_room_auto_adds_paired_partner_without_invite_def invite_eval cong: congs
        del: set_map set_filter db_call_read)
  show create_room_mints_invite_when_partner_not_paired
    by (simp add: create_room_mints_invite_when_partner_not_paired_def invite_eval cong: congs
        del: set_map set_filter db_call_read)
qed

section \<open>\<open>invite_preview_members.rs\<close> and the previews of \<open>invites_consume.rs\<close>\<close>

definition invite_preview_returns_room_roster :: bool where
  "invite_preview_returns_room_roster \<longleftrightarrow>
     (let d1 = snd (create_room_with_members the_room 1 None ''Travel'' (add_account ''court'' 1 empty_db));
          d2 = snd (create_invite_record 1 (token 2) (default_expiry 0) (Some the_room) d1)
      in case preview_invite bench_app 0 (code_of 2) (sample_world d2) of
           ((status, Preview p), w) \<Rightarrow> pr_room_id p = the_room \<and> pr_name p = ''Travel'' \<and>
             map wm_username (pr_members p) = [''court'']
         | _ \<Rightarrow> False)"

definition preview_unknown_code_returns_404 :: bool where
  "preview_unknown_code_returns_404 \<longleftrightarrow> fst (fst (preview_invite bench_app 0 (code_of 0) (sample_world empty_db))) = 404"

section \<open>\<open>attachments_presign.rs\<close>\<close>

text \<open>The couple with its room, and Mallory.\<close>

definition couple_with_outsider :: db where
  "couple_with_outsider = snd (create_room_with_members the_room 1 (Some 2) ''''
     (snd (set_partner_link 1 2 (add_account ''mallory'' 9 couple_accounts))))"

definition member_gets_upload_granted_and_row_inserted :: bool where
  "member_gets_upload_granted_and_row_inserted \<longleftrightarrow>
     handshake_as ''court'' 1 0
     (client_sends 0 (RequestUpload 7 the_room 1048576)
     (next_frame 0 (\<lambda>f. case f of
        UploadGranted request key url expires \<Rightarrow> check_db (\<lambda>d. room_of_blob key d = Some the_room) finished
      | _ \<Rightarrow> (\<lambda>b. False)))) (spawn_server couple_with_outsider)"

definition oversize_upload_rejected :: bool where
  "oversize_upload_rejected \<longleftrightarrow>
     handshake_as ''court'' 1 0 (client_sends 0 (RequestUpload 7 the_room (600 * 1024 * 1024))
     (ends_with_error 0 BLOB_TOO_LARGE)) (spawn_server couple_with_outsider)"

definition non_member_upload_rejected :: bool where
  "non_member_upload_rejected \<longleftrightarrow>
     handshake_as ''mallory'' 9 2 (client_sends 2 (RequestUpload 7 the_room 1024)
     (ends_with_error 2 UNKNOWN_ROOM)) (spawn_server couple_with_outsider)"

definition cross_room_download_denied_member_allowed :: bool where
  "cross_room_download_denied_member_allowed \<longleftrightarrow>
     handshake_as ''mallory'' 9 2 (client_sends 2 (RequestDownload ''01JBLOB'')
     (next_is 2 (\<lambda>f. error_code f = Some UNKNOWN_BLOB)
     (handshake_as ''court'' 1 0 (client_sends 0 (RequestDownload ''01JBLOB'')
     (next_is 0 (\<lambda>f. case f of DownloadGranted key url expires \<Rightarrow> True | _ \<Rightarrow> False) finished)))))
       (spawn_server (snd (insert_attachment ''01JBLOB'' the_room 1 1024 couple_with_outsider)))"

lemma couple_with_outsider_eq: "couple_with_outsider = empty_db\<lparr>accounts_id_seq := 4, accounts :=
    [\<lparr>acc_id = 1, acc_username = ''court'', acc_ed25519_pub = key_of 1, acc_x25519_pub = x25519_for ''court'',
      acc_created_at = 0, acc_partner_account_id = Some 2, acc_last_seen_at = None\<rparr>,
     \<lparr>acc_id = 2, acc_username = ''kaitlyn'', acc_ed25519_pub = key_of 2, acc_x25519_pub = x25519_for ''kaitlyn'',
      acc_created_at = 0, acc_partner_account_id = Some 1, acc_last_seen_at = None\<rparr>,
     \<lparr>acc_id = 3, acc_username = ''mallory'', acc_ed25519_pub = key_of 9, acc_x25519_pub = x25519_for ''mallory'',
      acc_created_at = 0, acc_partner_account_id = None, acc_last_seen_at = None\<rparr>],
    rooms := [\<lparr>rm_id = the_room, rm_name = [], rm_created_at = 0\<rparr>],
    room_members := [\<lparr>mb_room_id = the_room, mb_account_id = 1, mb_joined_at = 0\<rparr>,
      \<lparr>mb_room_id = the_room, mb_account_id = 2, mb_joined_at = 0\<rparr>]\<rparr>"
  by (simp add: couple_with_outsider_def add_account_def insert_account_def couple_accounts_eq statements
      Let_def empty_db_def)

lemmas attachment_eval = couple_with_outsider_eq insert_attachment_def attachment_room_def room_of_blob_def other_codes
  invite_eval

theorem attachment_tests_replay:
  "invite_preview_returns_room_roster \<and>
   preview_unknown_code_returns_404 \<and>
   member_gets_upload_granted_and_row_inserted \<and>
   oversize_upload_rejected \<and>
   non_member_upload_rejected \<and>
   cross_room_download_denied_member_allowed"
proof (intro conjI)
  show invite_preview_returns_room_roster
    by (simp add: invite_preview_returns_room_roster_def attachment_eval cong: congs
        del: set_map set_filter db_call_read)
  show preview_unknown_code_returns_404
    by (simp add: preview_unknown_code_returns_404_def attachment_eval cong: congs
        del: set_map set_filter db_call_read)
  show member_gets_upload_granted_and_row_inserted
    by (simp add: member_gets_upload_granted_and_row_inserted_def attachment_eval cong: congs
        del: set_map set_filter db_call_read)
  show oversize_upload_rejected
    by (simp add: oversize_upload_rejected_def attachment_eval cong: congs
        del: set_map set_filter db_call_read)
  show non_member_upload_rejected
    by (simp add: non_member_upload_rejected_def attachment_eval cong: congs
        del: set_map set_filter db_call_read)
  show cross_room_download_denied_member_allowed
    by (simp add: cross_room_download_denied_member_allowed_def attachment_eval cong: congs
        del: set_map set_filter db_call_read)
qed

section \<open>\<open>push_send_ws.rs\<close>\<close>

text \<open>The spawned pushes run, each with a sender that always delivers.\<close>

definition run_tasks :: "script \<Rightarrow> script" where
  "run_tasks rest b =
    (let w = bn_world b in rest (b\<lparr>bn_world :=
       fold (\<lambda>(i, rid). notify_recipient (\<lambda>n msg. Delivered) i rid) (w_tasks w) (w\<lparr>w_tasks := []\<rparr>)\<rparr>))"

definition last_push :: "(push_message \<Rightarrow> bool) \<Rightarrow> script \<Rightarrow> script" where
  "last_push P rest b = (let ms = w_pushed (bn_world b) in ms \<noteq> [] \<and> P (last ms) \<and> rest b)"

definition push_fires_whether_or_not_recipient_online :: bool where
  "push_fires_whether_or_not_recipient_online \<longleftrightarrow>
     handshake_as ''court'' 1 0
     (client_sends 0 (Send the_room bodies_of_court 1)
     (next_is 0 (\<lambda>f. True)
     (run_tasks
     (last_push (\<lambda>m. pm_token m = ''kaitTOKEN'' \<and> pm_room_id m = the_room \<and> pm_environment m = ''sandbox'' \<and>
         pm_badge m = 1)
     (handshake_as ''kaitlyn'' 2 1
     (client_sends 0 (Send the_room bodies_of_court 2)
     (next_is 0 (\<lambda>f. True)
     (next_message 1 (\<lambda>mid sender body replayed read client. body = ''ct_for_kait'') (\<lambda>_.
      run_tasks
     (last_push (\<lambda>m. pm_token m = ''kaitTOKEN'' \<and> pm_room_id m = the_room \<and> pm_badge m = 2) finished))))))))))
       (spawn_server (snd (upsert_token 2 ''kait-dev'' ''kaitTOKEN'' ''sandbox'' KIND_ALERT paired_room)))"

theorem push_test_replays: push_fires_whether_or_not_recipient_online
  by (simp add: push_fires_whether_or_not_recipient_online_def run_tasks_def last_push_def notify_recipient_def
      send_push_def
      tokens_for_account_def tokens_of_kind_def unread_count_def upsert_token_def token_key_def next_is_def
          test_scripts paired
      cong: congs del: set_map set_filter db_call_read)

section \<open>\<open>auth_handshake.rs\<close>\<close>

definition sign_in_socket :: "string \<Rightarrow> bytes \<Rightarrow> socket" where
  "sign_in_socket u sig = \<lparr>sk_inbox = [Text (u @ '':'' @ b64_encode bench_crates sig)], sk_sent = [], sk_ok =
      (\<lambda>_. True)\<rparr>"

definition refused_with_4001 :: "(account_record option \<times> socket) \<times> world \<Rightarrow> bool" where
  "refused_with_4001 r = (case r of ((me, s), w) \<Rightarrow> me = None \<and> last (sk_sent s) = Close (Some (4001, ''auth failed'')))"

definition handshake_fails_with_wrong_signature :: "bytes \<Rightarrow> bool" where
  "handshake_fails_with_wrong_signature nonce \<longleftrightarrow> refused_with_4001
     (handshake bench_app nonce (sign_in_socket ''court'' (toy_sign (key_of 8) (challenge_signing_input nonce)))
        (sample_world (add_account ''court'' 7 empty_db)))"

definition handshake_fails_for_unknown_username :: "bytes \<Rightarrow> bool" where
  "handshake_fails_for_unknown_username nonce \<longleftrightarrow> refused_with_4001
     (handshake bench_app nonce (sign_in_socket ''ghost'' (toy_sign (key_of 9) (challenge_signing_input nonce)))
        (sample_world empty_db))"

text \<open>A signature over the challenge of connection A is sent on connection B.\<close>

definition handshake_nonce_is_single_use_per_connection :: "bytes \<Rightarrow> bytes \<Rightarrow> bool" where
  "handshake_nonce_is_single_use_per_connection nonce_a nonce_b \<longleftrightarrow> refused_with_4001
     (handshake bench_app nonce_b (sign_in_socket ''court'' (toy_sign (key_of 11) (challenge_signing_input nonce_a)))
        (sample_world (add_account ''court'' 11 empty_db)))"

lemma toy_sign_separates:
  assumes "length a = 32" and "length b = 32" and "a \<noteq> b"
  shows "toy_sign (key_of k) (challenge_signing_input a) \<noteq> toy_sign (key_of k) (challenge_signing_input b)"
proof -
  have "take 33 (toy_sign (key_of k) (challenge_signing_input n)) = k # rev n" if "length n = 32" for n
    using that by (simp add: toy_sign_def challenge_signing_input_def signing_input_def key_of_def)
  then show ?thesis
    using assms by (metis list.inject rev_is_rev_conv)
qed

theorem handshake_tests_replay:
  assumes "length nonce_a = 32" and "length nonce_b = 32" and "nonce_a \<noteq> nonce_b"
  shows "handshake_fails_with_wrong_signature nonce_a \<and> handshake_fails_for_unknown_username nonce_a \<and>
    handshake_nonce_is_single_use_per_connection nonce_a nonce_b"
proof (intro conjI)
  note shake = refused_with_4001_def sign_in_socket_def handshake_def authenticate_def sock_send_def
      sock_next_def parse_test [of "''court''", simplified]
    parse_test [of "''ghost''", simplified] close_auth_failed_def lookup_ed25519_pub_def decode_b64_def
        verify_signature_def
    verify_domain_separated_def account_by_name_def add_account_def insert_account_def sample_world_def empty_db_def
    account_ids_def CLOSE_AUTH_FAILED_def lookup_full_account_def Let_def
  show "handshake_fails_with_wrong_signature nonce_a"
    by (simp add: handshake_fails_with_wrong_signature_def shake other_key db_call_served cong: congs)
  show "handshake_fails_for_unknown_username nonce_a"
    by (simp add: handshake_fails_for_unknown_username_def shake db_call_served cong: congs)
  show "handshake_nonce_is_single_use_per_connection nonce_a nonce_b"
    using toy_sign_separates [OF assms, of 11]
    by (simp add: handshake_nonce_is_single_use_per_connection_def shake db_call_served cong: congs)
qed

section \<open>\<open>accounts_create.rs\<close>, \<open>accounts_lookup.rs\<close>\<close>

text \<open>A key of 32 zero bytes, and one of three.\<close>

definition post_account :: "string \<Rightarrow> nat \<Rightarrow> world \<Rightarrow> response \<times> world" where
  "post_account u n = create_account bench_app \<lparr>ca_username = u, ca_ed25519_pub = b64_encode bench_crates
      (replicate n 0),
     ca_x25519_pub = b64_encode bench_crates (replicate 32 0)\<rparr>"

definition post_accounts_creates_an_account :: bool where
  "post_accounts_creates_an_account \<longleftrightarrow>
     (case post_account ''court'' 32 (sample_world empty_db) of
        ((status, Summary s), w) \<Rightarrow> status = 201 \<and> su_username s = ''court'' | _ \<Rightarrow> False)"

definition post_accounts_returns_409_on_duplicate_username :: bool where
  "post_accounts_returns_409_on_duplicate_username \<longleftrightarrow>
     fst (fst (post_account ''court'' 32 (snd (post_account ''court'' 32 (sample_world empty_db))))) = 409"

definition post_accounts_returns_400_on_bad_username :: bool where
  "post_accounts_returns_400_on_bad_username \<longleftrightarrow>
     list_all (\<lambda>bad. fst (fst (post_account bad 32 (sample_world empty_db))) = 400)
       [''ab'', ''Court'', ''co-urt'', ''court!'', replicate 21 CHR ''a'']"

definition post_accounts_returns_400_on_bad_pubkey_length :: bool where
  "post_accounts_returns_400_on_bad_pubkey_length \<longleftrightarrow> fst (fst (post_account ''court'' 3 (sample_world empty_db))) = 400"

definition get_unknown_account_returns_404 :: bool where
  "get_unknown_account_returns_404 \<longleftrightarrow> fst (fst (get_account_by_username bench_app ''court'' (sample_world
      empty_db))) = 404"

definition get_known_account_returns_publics :: bool where
  "get_known_account_returns_publics \<longleftrightarrow>
     (case get_account_by_username bench_app ''court'' (snd (post_account ''court'' 32 (sample_world empty_db))) of
        ((status, Full f), w) \<Rightarrow> status = 200 \<and> af_username f = ''court'' \<and>
          af_ed25519_pub f = b64_encode bench_crates (replicate 32 0) \<and> af_x25519_pub f = b64_encode
              bench_crates (replicate 32 0)
      | _ \<Rightarrow> False)"

theorem rest_tests_replay:
  "post_accounts_creates_an_account \<and> post_accounts_returns_409_on_duplicate_username \<and>
   post_accounts_returns_400_on_bad_username \<and> post_accounts_returns_400_on_bad_pubkey_length \<and>
   get_unknown_account_returns_404 \<and> get_known_account_returns_publics"
proof (intro conjI)
  note rest = post_account_def create_account_def get_account_by_username_def decode_pubkey_def username_ok_def
    is_ascii_lowercase_def is_ascii_digit_def insert_account_def select_account_def account_by_name_def account_ids_def
    sample_world_def empty_db_def db_call_served less_eq_char_def Let_def
  show post_accounts_creates_an_account
    by (simp add: post_accounts_creates_an_account_def rest del: replicate_Suc)
  show post_accounts_returns_409_on_duplicate_username
    by (simp add: post_accounts_returns_409_on_duplicate_username_def rest)
  show post_accounts_returns_400_on_bad_username
    by (simp add: post_accounts_returns_400_on_bad_username_def rest)
  show post_accounts_returns_400_on_bad_pubkey_length
    by (simp add: post_accounts_returns_400_on_bad_pubkey_length_def rest)
  show get_unknown_account_returns_404
    by (simp add: get_unknown_account_returns_404_def rest)
  show get_known_account_returns_publics
    by (simp add: get_known_account_returns_publics_def rest)
qed

end
