(* ===== verification/Authority.thy ===== *)
theory Authority
  imports Guarantees Guards
begin

text \<open>
  What a connection may write. The relation \<open>own_step\<close> lists, with their conditions, the transactions that a
  session of one account is entitled to: in its own rooms, under its own name, and towards an inviter only
  with a pending invite and a signature. Every handler is shown to execute nothing else.
\<close>

section \<open>Entitlement\<close>

text \<open>What the account has shown of the invite with this hash: the token, in time, signed with its own key.\<close>

definition may_consume :: "app \<Rightarrow> env \<Rightarrow> account_record \<Rightarrow> bytes \<Rightarrow> invite_row_db \<Rightarrow> db \<Rightarrow> bool" where
  "may_consume A E me hash invite d \<longleftrightarrow>
     invite_by_hash hash d = Some invite \<and> iv_consumed_at invite = None \<and> ev_now E 0 \<le> iv_expires_at invite \<and>
     iv_inviter_id invite \<noteq> me_id me \<and>
     (\<exists>canonical sig_bytes. hash = sha256 (lib A) canonical \<and>
        verify_invite_consume_signature (lib A) (me_ed25519_pub me) canonical sig_bytes = Inr ())"

text \<open>The room such an invite leads to: its own, or the one made for it.\<close>

definition invited_room :: "env \<Rightarrow> invite_row_db \<Rightarrow> string \<Rightarrow> db \<Rightarrow> bool" where
  "invited_room E invite rid d \<longleftrightarrow>
     (case iv_room_id invite of Some r \<Rightarrow> rid = r | None \<Rightarrow> rid = ev_ulid E \<and> in_room rid (iv_inviter_id invite) d)"

inductive own_step :: "app \<Rightarrow> env \<Rightarrow> account_record \<Rightarrow> db \<Rightarrow> db \<Rightarrow> bool"
  for A :: app and E :: env and me :: account_record where
  own_seen: "own_step A E me d (snd (touch_last_seen (me_id me) d))"
| own_profile: "own_step A E me d (snd (upsert_profile (me_id me) envelope avatar d))"
| own_device: "own_step A E me d (snd (upsert_token (me_id me) device token environment kind d))"
| own_forget: "own_step A E me d (snd (delete_token (me_id me) device d))"
| own_send: "in_room rid (me_id me) d \<Longrightarrow>
    \<forall>row \<in> set rows. mr_room_id row = rid \<and> mr_from_account_id row = me_id me \<and>
      in_room rid (mr_recipient_account_id row) d \<and> length (mr_body row) \<le> MAX_BODY_BYTES \<Longrightarrow>
    own_step A E me d (snd (insert_many rows d))"
| own_read: "in_room rid (me_id me) d \<Longrightarrow> own_step A E me d (snd (mark_read rid (me_id me) up_to d))"
| own_upload: "in_room rid (me_id me) d \<Longrightarrow> 0 < bsize \<Longrightarrow> bsize \<le> MAX_ATTACHMENT_BYTES \<Longrightarrow>
    own_step A E me d (snd (insert_attachment (ev_ulid E) rid (me_id me) bsize d))"
| own_rename: "in_room rid (me_id me) d \<Longrightarrow> utf8_chars nm \<le> MAX_ROOM_NAME_CHARS \<Longrightarrow>
    own_step A E me d (snd (rename_room rid nm d))"
| own_leave: "in_room rid (me_id me) d \<Longrightarrow> own_step A E me d (snd (leave_room rid (me_id me) d))"
| own_room: "utf8_chars nm \<le> MAX_ROOM_NAME_CHARS \<Longrightarrow> partner \<in> {None, partner_of d (me_id me)} \<Longrightarrow>
    own_step A E me d (snd (create_room_with_members (ev_ulid E) (me_id me) partner nm d))"
| own_invite: "partner_of d (me_id me) = None \<Longrightarrow> generate_invite (lib A) (ev_random E) = (canonical, code, hash) \<Longrightarrow>
    (case rid of None \<Rightarrow> True | Some r \<Rightarrow> in_room r (me_id me) d) \<Longrightarrow>
    own_step A E me d (snd (create_invite_record (me_id me) hash (default_expiry (ev_now E 0)) rid d))"
| own_link: "may_consume A E me hash invite d \<Longrightarrow>
    own_step A E me d (snd (set_partner_link (me_id me) (iv_inviter_id invite) d))"
| own_invited_room: "may_consume A E me hash invite d \<Longrightarrow> iv_room_id invite = None \<Longrightarrow>
    partner_of d (me_id me) = Some (iv_inviter_id invite) \<Longrightarrow>
    own_step A E me d (snd (create_room_with_members (ev_ulid E) (iv_inviter_id invite) None [] d))"
| own_join: "may_consume A E me hash invite d \<Longrightarrow> invited_room E invite rid d \<Longrightarrow>
    partner_of d (me_id me) = Some (iv_inviter_id invite) \<Longrightarrow>
    own_step A E me d (snd (insert_member rid (me_id me) d))"
| own_consume: "may_consume A E me hash invite d \<Longrightarrow> invited_room E invite rid d \<Longrightarrow>
    partner_of d (me_id me) = Some (iv_inviter_id invite) \<Longrightarrow> in_room rid (me_id me) d \<Longrightarrow>
    own_step A E me d (snd (mark_consumed hash (ev_now E 1) d))"
| own_dead_token: "partner_of d (me_id me) = Some callee \<Longrightarrow> push A = Some sender \<Longrightarrow>
    sender k msg = DropToken \<Longrightarrow> pm_token msg = token \<Longrightarrow>
    own_step A E me d (snd (delete_token_value callee token d))"

abbreviation own_reach :: "app \<Rightarrow> env \<Rightarrow> account_record \<Rightarrow> db \<Rightarrow> db \<Rightarrow> bool" where
  "own_reach A E me \<equiv> (own_step A E me)\<^sup>*\<^sup>*"

section \<open>Programs that stay within it\<close>

definition entitled :: "app \<Rightarrow> env \<Rightarrow> account_record \<Rightarrow> (world \<Rightarrow> world) \<Rightarrow> world \<Rightarrow> bool" where
  "entitled A E me h w \<longleftrightarrow> own_reach A E me (w_db w) (w_db (h w))"

named_theorems entitled_rules

lemma entitled_same: "w_db (h w) = w_db w \<Longrightarrow> entitled A E me h w"
  by (simp add: entitled_def)

lemma entitled_frames [entitled_rules]:
  "entitled A E me (\<lambda>w. w) w" "entitled A E me (send_frame tx f) w" "entitled A E me (send_error tx c m) w"
  "entitled A E me (deliver u f) w" "entitled A E me (spawn_notify A' i rid) w"
  "entitled A E me (hold_call now callee p) w" "entitled A E me (drop_held_call callee call) w"
  by (simp_all add: entitled_def spawn_notify_def hold_call_def drop_held_call_def)

lemma entitled_comp: "entitled A E me h w \<Longrightarrow> entitled A E me k (h w) \<Longrightarrow> entitled A E me (\<lambda>w. k (h w)) w"
  by (simp add: entitled_def)

lemma entitled_if [entitled_rules]:
  "(b \<Longrightarrow> entitled A E me h w) \<Longrightarrow> (\<not> b \<Longrightarrow> entitled A E me k w) \<Longrightarrow> entitled A E me (if b then h else k) w"
  by simp

lemma entitled_option [entitled_rules]:
  "(z = None \<Longrightarrow> entitled A E me h w) \<Longrightarrow> (\<And>x. z = Some x \<Longrightarrow> entitled A E me (k x) w) \<Longrightarrow>
     entitled A E me (case z of None \<Rightarrow> h | Some x \<Rightarrow> k x) w"
  by (cases z) auto

lemma entitled_sum [entitled_rules]:
  "(\<And>e. z = Inl e \<Longrightarrow> entitled A E me (h e) w) \<Longrightarrow> (\<And>x. z = Inr x \<Longrightarrow> entitled A E me (k x) w) \<Longrightarrow>
     entitled A E me (case z of Inl e \<Rightarrow> h e | Inr x \<Rightarrow> k x) w"
  by (cases z) auto

lemma entitled_state [entitled_rules]:
  "(z = Pending \<Longrightarrow> entitled A E me h w) \<Longrightarrow> entitled A E me k w \<Longrightarrow> entitled A E me l w \<Longrightarrow>
     entitled A E me (case z of Pending \<Rightarrow> h | Expired \<Rightarrow> k | Consumed \<Rightarrow> l) w"
  by (cases z) auto

lemma entitled_fold:
  assumes "\<And>x v. x \<in> set xs \<Longrightarrow> entitled A E me (h x) v"
  shows "entitled A E me (fold h xs) w"
  using assms
proof (induction xs arbitrary: w)
  case (Cons y ys w)
  then show ?case
    using entitled_comp [of A E me "h y" w "fold h ys"] by (simp add: o_def)
qed (simp add: entitled_def)

text \<open>A statement, known to be allowed, and what follows its answer.\<close>

lemma entitled_call:
  assumes "own_reach A E me (w_db w) (snd (q (w_db w)))"
    and "\<And>e v. w_db v = w_db w \<or> w_db v = snd (q (w_db w)) \<Longrightarrow> entitled A E me (on_err e) v"
    and "\<And>x v. q (w_db w) = (Inr x, w_db v) \<Longrightarrow> entitled A E me (on_ok x) v"
  shows "entitled A E me (db_call q on_err on_ok) w"
proof -
  obtain r v where e: "db_exec q w = (r, v)" by fastforce
  then have v: "w_db v = w_db w \<or> w_db v = snd (q (w_db w))"
    and val: "\<And>x. r = Inr x \<Longrightarrow> q (w_db w) = (Inr x, w_db v)"
    by (auto simp: db_exec_def split: list.splits fault.splits prod.splits)
  have "own_reach A E me (w_db w) (w_db v)"
    using v assms(1) by auto
  moreover have "own_reach A E me (w_db v) (w_db (case r of Inl e \<Rightarrow> on_err e v | Inr x \<Rightarrow> on_ok x v))"
    using assms(2) [OF v] assms(3) [OF val] by (cases r) (simp_all add: entitled_def)
  ultimately show ?thesis
    by (simp add: entitled_def db_call_def e)
qed

lemma entitled_write:
  assumes "own_step A E me (w_db w) (snd (q (w_db w)))" and "\<And>e v. entitled A E me (on_err e) v"
    and "\<And>x v. q (w_db w) = (Inr x, w_db v) \<Longrightarrow> entitled A E me (on_ok x) v"
  shows "entitled A E me (db_call q on_err on_ok) w"
  using assms by (intro entitled_call) auto

lemma entitled_read:
  assumes "\<And>e v. w_db v = w_db w \<Longrightarrow> entitled A E me (on_err e) v"
    and "\<And>v. w_db v = w_db w \<Longrightarrow> entitled A E me (on_ok (f (w_db w))) v"
  shows "entitled A E me (db_call (sql_read f) on_err on_ok) w"
  using assms by (intro entitled_call) auto

lemma entitled_reads:
  assumes "\<And>d. snd (q d) = d" and "\<And>e v. entitled A E me (on_err e) v" and "\<And>x v. entitled A E me (on_ok x) v"
  shows "entitled A E me (db_call q on_err on_ok) w"
  using assms by (intro entitled_call) simp_all

text \<open>The reads that the conditions rest on.\<close>

lemma entitled_member:
  assumes "\<And>e v. w_db v = w_db w \<Longrightarrow> entitled A E me (on_err e) v"
    and "\<And>v. w_db v = w_db w \<Longrightarrow> entitled A E me (on_ok (in_room rid i (w_db w))) v"
  shows "entitled A E me (db_call (is_member rid i) on_err on_ok) w"
  unfolding is_member_def using assms by (rule entitled_read)

lemma entitled_roster:
  assumes "\<And>e v. w_db v = w_db w \<Longrightarrow> entitled A E me (on_err e) v"
    and "\<And>v. w_db v = w_db w \<Longrightarrow> entitled A E me (on_ok (roster rid (w_db w))) v"
  shows "entitled A E me (db_call (members_for_room rid) on_err on_ok) w"
  unfolding members_for_room_def using assms by (rule entitled_read)

lemma entitled_partner:
  assumes "\<And>e v. w_db v = w_db w \<Longrightarrow> entitled A E me (on_err e) v"
    and "\<And>v. w_db v = w_db w \<Longrightarrow> entitled A E me (on_ok (partner_of (w_db w) i)) v"
  shows "entitled A E me (db_call (partner_account_id_for i) on_err on_ok) w"
  unfolding partner_account_id_for_def partner_of_by_id [symmetric] using assms by (rule entitled_read)

lemma reads_only:
  "snd (members_for_room rid d) = d" "snd (partner_account_id_for i d) = d" "snd (partner_username_for i d) = d"
  "snd (is_member rid i d) = d" "snd (lookup_full_account_by_id i d) = d" "snd (last_seen_for i d) = d"
  "snd (messages_for_recipient rid i since d) = d" "snd (read_sent_message_ids rid i d) = d"
  "snd (newest_read_incoming_ts rid i d) = d" "snd (voip_tokens_for i d) = d" "snd (profile_for_account i d) = d"
  "snd (attachment_room key d) = d" "snd (room_for_invite h d) = d"
  by (simp_all add: read_defs)

lemmas entitled_lookups = entitled_reads [OF reads_only(1)] entitled_reads [OF reads_only(2)]
  entitled_reads [OF reads_only(3)] entitled_reads [OF reads_only(4)] entitled_reads [OF reads_only(5)]
  entitled_reads [OF reads_only(6)] entitled_reads [OF reads_only(7)] entitled_reads [OF reads_only(8)]
  entitled_reads [OF reads_only(9)] entitled_reads [OF reads_only(10)] entitled_reads [OF reads_only(11)]
  entitled_reads [OF reads_only(12)] entitled_reads [OF room_detail_reads] entitled_reads [OF list_rooms_reads]

section \<open>Handlers that only read\<close>

lemma entitled_others:
  "entitled A E me (deliver_others me' f ms) w" "entitled A E me (deliver_all f ms) w"
  unfolding deliver_others_def deliver_all_def by (intro entitled_fold entitled_rules)+

lemma entitled_forward: "entitled A E me (forward_call_to_partner A' me' f) w"
  unfolding forward_call_to_partner_def forward_to_partner_def
  by (intro entitled_rules entitled_lookups)

lemma entitled_subscribe: "entitled A E me (handle_subscribe A' me' rid since tx) w"
proof -
  have rows: "entitled A E me (fold (replay_row tx) rows) v" for rows v
    unfolding replay_row_def by (intro entitled_fold entitled_rules entitled_lookups)
  have tail: "entitled A E me (read_backfill me' rid tx) v" "entitled A E me (read_marker me' rid tx) v" for v
    unfolding read_backfill_def read_marker_def by (intro entitled_rules entitled_lookups)+
  have all: "entitled A E me (\<lambda>w. read_marker me' rid tx (read_backfill me' rid tx (fold (replay_row tx) rows w))) v"
    for rows v
    using entitled_comp [OF entitled_comp [OF rows tail(1)] tail(2)] .
  show ?thesis
    unfolding handle_subscribe_def by (intro entitled_rules entitled_lookups all)
qed

lemma entitled_typing: "entitled A E me (handle_typing A' me' rid typing) w"
  unfolding handle_typing_def Let_def by (intro entitled_rules entitled_lookups entitled_others)

lemma entitled_turn: "entitled A E me (handle_call_turn_request A' me' call tx) w"
  unfolding handle_call_turn_request_def Let_def by (intro entitled_rules entitled_lookups)

lemma entitled_hangup: "entitled A E me (handle_call_hangup A' me' rid call reason) w"
proof -
  have "entitled A E me (db_call (partner_account_id_for i) (\<lambda>e w. w)
      (\<lambda>p. case p of Some partner \<Rightarrow> drop_held_call partner call | None \<Rightarrow> (\<lambda>w. w))) w" for i
    by (intro entitled_rules entitled_lookups)
  from entitled_comp [OF this entitled_forward] show ?thesis
    unfolding handle_call_hangup_def by (intro entitled_if entitled_frames(1)) blast
qed

lemma entitled_download: "entitled A E me (handle_request_download A' E' me' key tx) w"
  unfolding handle_request_download_def
  by (cases "has_store A'"; cases "r2 A'") (auto intro!: entitled_rules entitled_lookups)

lemma entitled_announce: "entitled A E me (announce_room A' rid pend tx) w"
  unfolding announce_room_def by (intro entitled_rules entitled_lookups entitled_others)

section \<open>Handlers that write\<close>

lemma entitled_create_invite: "entitled A E me (handle_create_invite A E me tx) w"
proof -
  obtain canonical code hash where g: "generate_invite (lib A) (ev_random E) = (canonical, code, hash)"
    by (metis prod_cases3)
  show ?thesis
    unfolding handle_create_invite_def Let_def g prod.case
    by (intro entitled_if entitled_partner entitled_rules entitled_write)
      (auto intro: own_invite [OF _ g])
qed

lemma entitled_mark_read: "entitled A E me (handle_mark_read A me rid up_to tx) w"
proof -
  have relay: "entitled A E me (fold (relay_read me rid) gs) v" for gs v
    unfolding relay_read_def by (intro entitled_fold entitled_rules entitled_lookups)
  show ?thesis
    unfolding handle_mark_read_def
    by (intro entitled_if entitled_member entitled_rules entitled_write relay) (auto intro: own_read)
qed

lemma entitled_profile: "entitled A E me (handle_publish_profile A me envelope avatar tx) w"
  unfolding handle_publish_profile_def
  by (intro entitled_rules entitled_write entitled_lookups own_profile)

lemma entitled_upload: "entitled A E me (handle_request_upload A E me request rid bsize tx) w"
proof (cases "has_store A \<and> r2 A \<noteq> None")
  case True
  then obtain presigner where p: "has_store A" "r2 A = Some presigner" by auto
  have "handle_request_upload A E me request rid bsize tx =
    (if bsize \<le> 0 \<or> bsize > MAX_ATTACHMENT_BYTES then send_error tx BLOB_TOO_LARGE ''''
     else db_call (is_member rid (me_id me)) (\<lambda>e. send_error tx ''Internal'' '''') (\<lambda>m.
       if \<not> m then send_error tx UNKNOWN_ROOM ''''
       else db_call (insert_attachment (ev_ulid E) rid (me_id me) bsize) (\<lambda>e. send_error tx ''Internal'' '''')
         (\<lambda>_. send_frame tx (UploadGranted request (ev_ulid E) (presign_put presigner (ev_ulid E) PRESIGN_TTL)
            (ev_now E 0 + PRESIGN_TTL)))))"
    by (simp add: handle_request_upload_def p)
  then show ?thesis
    by (simp only:) (intro entitled_if entitled_member entitled_rules entitled_write, auto intro: own_upload)
qed (auto simp: handle_request_upload_def entitled_rules split: bool.split option.split)

lemma entitled_rename: "entitled A E me (handle_rename_room A me rid nm tx) w"
  unfolding handle_rename_room_def
  by (intro entitled_if entitled_member entitled_rules entitled_write entitled_lookups entitled_others)
    (auto intro: own_rename)

lemma entitled_leave: "entitled A E me (handle_leave_room A me rid tx) w"
  unfolding handle_leave_room_def Let_def
  by (intro entitled_if entitled_member entitled_rules entitled_roster entitled_write entitled_others)
    (auto intro: own_leave)

lemma entitled_tokens:
  "entitled A E me (register_push A me device token environment kind) w" "entitled A E me (unregister_push A me device) w"
  unfolding register_push_def unregister_push_def
  by (intro entitled_rules entitled_write own_device own_forget)+

text \<open>A message: one copy per member, from the sender, into the sender's room.\<close>

lemma own_rows:
  assumes "in_room rid (me_id me) d" and "\<not> list_ex (\<lambda>b. length (snd b) > MAX_BODY_BYTES) bodies"
  shows "\<forall>row \<in> set (fan_out_rows C me rid mid ts bodies (roster rid d) @ (if own then self_row C me rid mid ts bodies else [])).
    mr_room_id row = rid \<and> mr_from_account_id row = me_id me \<and> in_room rid (mr_recipient_account_id row) d \<and>
    length (mr_body row) \<le> MAX_BODY_BYTES"
proof -
  have "length body \<le> MAX_BODY_BYTES" if "map_of bodies k = Some body" for k body
    using assms(2) map_of_SomeD [OF that] by (auto simp: list_ex_iff)
  then show ?thesis
    using assms(1) roster_in_room [of _ rid d]
    by (auto simp: fan_out_rows_def self_row_def in_map_filter split: if_splits option.splits)
qed

lemma entitled_send: "entitled A E me (handle_send A E me rid bodies c tx) w"
proof -
  have copy: "entitled A E me (deliver_message A me rid mid ts bodies m) v" for mid ts m v
  proof -
    have "entitled A E me (\<lambda>w. spawn_notify A i rid (deliver u f w)) v" for i u f
      by (rule entitled_comp [OF entitled_frames(4,5)])
    then show ?thesis
      unfolding deliver_message_def by (intro entitled_rules)
  qed
  have echo: "entitled A E me (echo_self A me rid mid ts bodies c) v" for mid ts v
    unfolding echo_self_def by (intro entitled_rules)
  have after: "entitled A E me (\<lambda>w. let w1 = fold (deliver_message A me rid mid ts bodies) ms w
      in if b then echo_self A me rid mid ts bodies c w1 else w1) v" for mid ts ms b v
    unfolding Let_def
    by (cases b) (simp_all add: entitled_comp [OF entitled_fold [OF copy] echo] entitled_fold [OF copy])
  have store: "own_step A E me (w_db u) (snd (insert_many (fan_out_rows (lib A) me rid mid ts bodies (roster rid (w_db v)) @
      (if own then self_row (lib A) me rid mid ts bodies else [])) (w_db u)))"
    if "w_db v = w_db w" "w_db u = w_db v" "in_room rid (me_id me) (w_db w)"
      "\<not> list_ex (\<lambda>b. length (snd b) > MAX_BODY_BYTES) bodies" for u v mid ts own
    unfolding that(1,2) using own_rows [OF that(3,4)] by (rule own_send [OF that(3)])
  show ?thesis
    unfolding handle_send_def Let_def
    by (intro entitled_if entitled_member entitled_roster entitled_frames entitled_write after [unfolded Let_def])
      (rule store, simp_all)
qed

lemma create_room_result:
  assumes "create_room_with_members rid host partner nm d = (Inr r, d')"
  shows "r = rid \<and> in_room rid host d' \<and> partner_of d' = partner_of d \<and> invites d' = invites d"
proof -
  have "keeps (\<lambda>d'. invites d' = invites d) (create_room_with_members rid host partner nm)"
    by (rule keeps_create_room) (auto intro!: keepsI simp: insert_room_def insert_member_def)
  then have "invites (snd (create_room_with_members rid host partner nm d)) = invites d"
    by (simp add: keeps_def)
  then have "invites d' = invites d"
    using assms by simp
  moreover have "partner_of d' = partner_of d"
    using assms links_frameD [OF links_frame_create_room, of rid host partner nm d] by simp
  moreover have "r = rid \<and> in_room rid host d'"
    using assms by (auto simp: create_room_with_members_def transaction_def sql_then_def insert_room_def
        insert_member_def in_room_def list_ex_iff split: if_splits option.splits)
  ultimately show ?thesis by simp
qed

lemma entitled_create_room: "entitled A E me (handle_create_room A E me nm_opt invite_partner tx) w"
proof -
  obtain canonical code hash where g: "generate_invite (lib A) (ev_random E) = (canonical, code, hash)"
    by (metis prod_cases3)
  have room: "entitled A E me (create_room_for A E me nm invite_partner partner tx) v"
    if "utf8_chars nm \<le> MAX_ROOM_NAME_CHARS" and "partner = None \<or> partner = partner_of (w_db v) (me_id me)"
      and "invite_partner \<Longrightarrow> partner = partner_of (w_db v) (me_id me)" for nm partner v
  proof -
    have "own_step A E me (w_db u) (snd (create_invite_record (me_id me) hash (default_expiry (ev_now E 0)) (Some r) (w_db u)))"
      if "create_room_with_members (ev_ulid E) (me_id me) partner nm (w_db v) = (Inr r, w_db u)"
        "invite_partner \<and> partner = None" for r u
      using create_room_result [OF that(1)] that(2) \<open>invite_partner \<Longrightarrow> partner = _\<close>
      by (intro own_invite [OF _ g]) auto
    moreover have "own_step A E me (w_db v) (snd (create_room_with_members (ev_ulid E) (me_id me) partner nm (w_db v)))"
      using that by (intro own_room) auto
    ultimately show ?thesis
      unfolding create_room_for_def Let_def g prod.case
      by (intro entitled_write entitled_if entitled_frames entitled_announce)
  qed
  show ?thesis
    unfolding handle_create_room_def Let_def
    by (intro entitled_if entitled_partner entitled_frames room) auto
qed

text \<open>A call wakes the partner's phones; a token the push service calls dead goes.\<close>

lemma entitled_send_push:
  assumes "push A = Some sender" and "partner_of (w_db v) (me_id me) = Some callee" and "pm_token msg = token"
  shows "entitled A E me (send_push sender callee msg token) v"
    and "partner_of (w_db (send_push sender callee msg token v)) (me_id me) = Some callee"
proof -
  let ?v = "v\<lparr>w_pushed := w_pushed v @ [msg]\<rparr>" and ?drop = "delete_token_value callee token"
  have "entitled A E me (db_call ?drop (\<lambda>e w. w) (\<lambda>_ w. w)) ?v" if "sender (length (w_pushed v)) msg = DropToken"
    using that assms by (intro entitled_write entitled_frames) (auto intro: own_dead_token)
  then show "entitled A E me (send_push sender callee msg token) v"
    by (auto simp: send_push_def Let_def entitled_def)
  obtain r u where e: "db_exec ?drop ?v = (r, u)" by fastforce
  have "partner_of (w_db u) = partner_of (w_db v)"
    using db_exec_outcome [OF e] links_frameD [OF links_frame_stmts(5)] by auto
  then show "partner_of (w_db (send_push sender callee msg token v)) (me_id me) = Some callee"
    using assms(2) by (simp add: send_push_def Let_def db_call_def e split: sum.split)
qed

lemma entitled_notify:
  assumes "push A = Some sender" and "partner_of (w_db v) (me_id me) = Some callee"
  shows "entitled A E me (notify_call sender callee rid call video) v"
proof -
  have "entitled A E me (fold (\<lambda>t. send_push sender callee (g t) (pm_token (g t))) ts) u"
    if "partner_of (w_db u) (me_id me) = Some callee" for g u and ts :: "device_token list"
    using that
  proof (induction ts arbitrary: u)
    case (Cons t ts)
    have "entitled A E me (\<lambda>w. fold (\<lambda>t. send_push sender callee (g t) (pm_token (g t))) ts
        (send_push sender callee (g t) (pm_token (g t)) w)) u"
      by (rule entitled_comp) (use Cons entitled_send_push [OF assms(1)] in auto)
    then show ?case by (simp add: o_def)
  qed (simp add: entitled_def)
  from this [of _ "\<lambda>t. \<lparr>pm_token = dt_apns_token t, pm_environment = dt_environment t, pm_room_id = rid, pm_badge = 0,
      pm_push_type = Voip, pm_call_id = Some call, pm_video = video\<rparr>"]
  show ?thesis
    using assms(2) unfolding notify_call_def voip_tokens_for_def tokens_of_kind_def
    by (intro entitled_read) (simp_all add: entitled_frames)
qed

lemma entitled_call_invite: "entitled A E me (handle_call_invite A E me rid call offer video) w"
proof -
  have "entitled A E me (\<lambda>w. let w1 = hold_call (ev_instant E) partner p w; w2 = deliver u f w1
      in case push A of None \<Rightarrow> w2 | Some sender \<Rightarrow> notify_call sender partner rid call video w2) v"
    if "partner_of (w_db v) (me_id me) = Some partner" for partner p u f v
    using that entitled_notify [of A _ "deliver u f (hold_call (ev_instant E) partner p v)" me partner]
    by (auto simp: Let_def entitled_def hold_call_def split: option.split)
  note ring = this
  show ?thesis
    unfolding handle_call_invite_def partner_username_for_def
    by (intro entitled_if entitled_member entitled_partner entitled_option entitled_read entitled_frames ring) simp_all
qed


text \<open>Consuming an invite: the link first, then the room of the invite, then the mark.\<close>

lemma set_partner_link_result:
  assumes "pairing_ok d" and "set_partner_link a b d = (Inr (Inr ()), d')"
  shows "partner_of d' a = Some b \<and> invites d' = invites d"
proof -
  have "accounts_ok d" "links_symmetric d"
    using assms(1) by (simp_all add: pairing_ok_def schema_ok_def)
  then show ?thesis
    using assms(2) by (auto simp: set_partner_link_eq partner_of_link_both split: if_splits)
qed

lemma insert_member_result:
  assumes "insert_member rid i d = (Inr (), d')"
  shows "in_room rid i d'" and "in_room rid j d \<Longrightarrow> in_room rid j d'" and "partner_of d' = partner_of d"
    and "invites d' = invites d"
  using assms links_frameD [OF links_frame_rooms(2), of rid i d]
  by (auto simp: insert_member_def in_room_def split: if_splits)

lemma may_consume_cong: "invites d' = invites d \<Longrightarrow> may_consume A E me hash invite d' = may_consume A E me hash invite d"
  by (simp add: may_consume_def invite_by_hash_def)

lemma entitled_joined: "entitled A E me (announce_joined A' me' rid tx) w"
proof -
  have "entitled A E me (\<lambda>w. fold (\<lambda>m. if m_account_id m = i then (\<lambda>w. w) else deliver (m_username m) f) ms
      (send_frame tx g w)) v" for i f g v and ms :: "member list"
    by (intro entitled_comp [OF entitled_frames(2)] entitled_fold entitled_rules)
  then show ?thesis
    unfolding announce_joined_def Let_def by (intro entitled_rules entitled_lookups)
qed

lemma entitled_join:
  assumes "may_consume A E me hash invite (w_db w)" and "invited_room E invite rid (w_db w)"
    and "partner_of (w_db w) (me_id me) = Some (iv_inviter_id invite)"
  shows "entitled A E me (join_invited_room A E me hash rid tx) w"
proof -
  have mark: "own_step A E me (w_db v) (snd (mark_consumed hash (ev_now E 1) (w_db v)))"
    if "insert_member rid (me_id me) (w_db w) = (Inr (), w_db v)" for v
    using assms insert_member_result [OF that]
    by (intro own_consume [of A E me hash invite _ rid])
      (auto simp: may_consume_cong [of "w_db v" "w_db w"] invited_room_def split: option.splits)
  show ?thesis
    unfolding join_invited_room_def
    by (intro entitled_write entitled_frames entitled_joined own_join [OF assms]) (rule mark, simp)
qed

lemma entitled_after_link:
  assumes "may_consume A E me hash invite (w_db w)"
    and "partner_of (w_db w) (me_id me) = Some (iv_inviter_id invite)"
  shows "entitled A E me (after_link A E me (iv_inviter_id invite) hash tx) w"
proof -
  have row: "invite_by_hash hash (w_db w) = Some invite"
    using assms(1) by (simp add: may_consume_def)
  have own: "entitled A E me (join_invited_room A E me hash rid tx) v"
    if "iv_room_id invite = Some rid" "w_db v = w_db w" for rid v
    using that assms by (intro entitled_join [of A E me hash invite]) (simp_all add: invited_room_def)
  have made: "entitled A E me (join_invited_room A E me hash rid tx) v"
    if "iv_room_id invite = None" "w_db u = w_db w"
      "create_room_with_members (ev_ulid E) (iv_inviter_id invite) None [] (w_db u) = (Inr rid, w_db v)" for rid u v
    using that(1,2) assms create_room_result [OF that(3)]
    by (intro entitled_join [of A E me hash invite])
      (simp_all add: invited_room_def may_consume_cong [of "w_db v" "w_db w"])
  have room: "own_step A E me (w_db v) (snd (create_room_with_members (ev_ulid E) (iv_inviter_id invite) None [] (w_db v)))"
    if "iv_room_id invite = None" "w_db v = w_db w" for v
    using that assms by (intro own_invited_room [of A E me hash]) simp_all
  show ?thesis
    unfolding after_link_def room_for_invite_def
    by (intro entitled_read entitled_option entitled_write entitled_frames) (simp_all add: row own made room)
qed

lemma entitled_link:
  assumes "pairing_ok (w_db w)" and "may_consume A E me hash invite (w_db w)" and "i = iv_inviter_id invite"
  shows "entitled A E me (db_call (set_partner_link (me_id me) i)
      (\<lambda>e. if e = UniqueViolation then send_error tx MONOGAMY_VIOLATION ''you already have a partner''
           else send_error tx ''Internal'' '''')
      (\<lambda>r. case r of Inl WrongPartner \<Rightarrow> send_error tx MONOGAMY_VIOLATION ''you already have a partner''
         | Inr _ \<Rightarrow> after_link A E me i hash tx)) w"
proof -
  have linked: "entitled A E me (after_link A E me i hash tx) v"
    if "set_partner_link (me_id me) i (w_db w) = (Inr (Inr ()), w_db v)" for v
    using set_partner_link_result [OF assms(1) that] assms(2,3)
    by (auto intro!: entitled_after_link simp: may_consume_cong [of "w_db v" "w_db w"])
  show ?thesis
    using own_link [OF assms(2)] linked assms(3)
    by (intro entitled_write entitled_if entitled_frames)
      (auto simp: entitled_frames split: sum.split monogamy_error.split)
qed

lemma entitled_consume_invite:
  assumes "pairing_ok (w_db w)"
  shows "entitled A E me (handle_consume_invite A E me code signature tx) w"
proof -
  have shown: "may_consume A E me (sha256 (lib A) canonical) invite (w_db w) \<and> acc_id inviter = iv_inviter_id invite"
    if "invite_by_hash (sha256 (lib A) canonical) (w_db w) = Some invite" "state (invite_row_of invite) (ev_now E 0) = Pending"
      "verify_invite_consume_signature (lib A) (me_ed25519_pub me) canonical sig_bytes = Inr ()"
      "account_by_id (iv_inviter_id invite) (w_db w) = Some inviter" "acc_id inviter \<noteq> me_id me"
    for canonical invite sig_bytes inviter
    using that account_by_id_SomeD [OF that(4)]
    by (auto simp: may_consume_def state_def invite_row_of_def split: if_splits)
  have act: "entitled A E me (if me_id a = me_id me then send_error tx ALREADY_PAIRED ''self-invite''
      else db_call (set_partner_link (me_id me) (me_id a))
      (\<lambda>e. if e = UniqueViolation then send_error tx MONOGAMY_VIOLATION ''you already have a partner''
           else send_error tx ''Internal'' '''')
      (\<lambda>r. case r of Inl WrongPartner \<Rightarrow> send_error tx MONOGAMY_VIOLATION ''you already have a partner''
         | Inr _ \<Rightarrow> after_link A E me (me_id a) (sha256 (lib A) canonical) tx)) u"
    if "map_option invite_row_of (invite_by_hash (sha256 (lib A) canonical) (w_db w)) = Some row"
      "state row (ev_now E 0) = Pending"
      "verify_invite_consume_signature (lib A) (me_ed25519_pub me) canonical sig_bytes = Inr x"
      "map_option full_account_record (account_by_id (ir_inviter_id row) (w_db w)) = Some a" "w_db u = w_db w"
    for canonical row sig_bytes x a u
  proof -
    note found = that
    obtain invite inviter where i: "invite_by_hash (sha256 (lib A) canonical) (w_db w) = Some invite"
      "row = invite_row_of invite" "account_by_id (iv_inviter_id invite) (w_db w) = Some inviter"
      "a = full_account_record inviter"
      using found(1,4) by (auto simp: invite_row_of_def)
    then show ?thesis
      using shown [OF i(1) _ _ i(3)] found(2,3,5) assms
      by (intro entitled_if entitled_frames entitled_link [of u A E me _ invite]) (auto simp: full_account_record_def)
  qed
  show ?thesis
    unfolding handle_consume_invite_def Let_def lookup_invite_def lookup_full_account_by_id_def
    by (intro entitled_if entitled_sum entitled_read entitled_option entitled_state entitled_frames act) simp_all
qed


section \<open>Frames, the start and the end\<close>

lemma entitled_limited:
  "entitled A E me h w \<Longrightarrow> entitled A E me k w \<Longrightarrow> entitled A E me (limited ok h k) w"
  by (simp add: limited_def)

lemma entitled_frame:
  assumes "pairing_ok (w_db w)"
  shows "own_reach A E (se_me ss) (w_db w) (w_db (snd (handle_frame A E f ss w)))"
proof -
  have D: "entitled A E me h w \<Longrightarrow> own_reach A E me (w_db w) (w_db (h w))" for me h
    by (simp add: entitled_def)
  note limits = entitled_limited [OF entitled_typing entitled_frames(1)]
    entitled_limited [OF entitled_upload entitled_frames(3)] entitled_limited [OF entitled_turn entitled_frames(3)]
    entitled_limited [OF entitled_call_invite entitled_frames(3)]
  note handlers = entitled_create_invite entitled_consume_invite [OF assms] entitled_subscribe entitled_send
    entitled_create_room entitled_rename entitled_leave entitled_mark_read entitled_profile entitled_download
    entitled_tokens entitled_forward entitled_hangup
  show ?thesis
    by (cases f) (auto simp: handle_frame_def Let_def split: prod.splits intro!: D limits handlers)
qed

lemma entitled_exchange: "entitled A E me (exchange_presence A' me' tx) w"
proof -
  have profile: "entitled A E me (replay_profile A' me' partner tx) v" for partner v
    unfolding replay_profile_def by (intro entitled_rules entitled_lookups)
  have seen: "entitled A E me (partner_last_seen me' online k) v" if "\<And>s v. entitled A E me (k s) v" for online k v
    unfolding partner_last_seen_def by (intro entitled_rules entitled_lookups that)
  have told: "entitled A E me (partner_last_seen me' online
      (\<lambda>s w2. replay_profile A' me' partner tx (send_frame tx (g s) w2))) v" for online partner g v
    by (intro seen entitled_comp [OF entitled_frames(2) profile])
  have "entitled A E me (\<lambda>w. let w1 = deliver partner f w; online = is_online partner (w_routing w1) in
      partner_last_seen me' online (\<lambda>s w2. replay_profile A' me' partner tx (send_frame tx (g online s) w2)) w1) v"
    for partner f g v
    using told [of "is_online partner (w_routing (deliver partner f v))" partner
        "g (is_online partner (w_routing (deliver partner f v)))" "deliver partner f v"]
    by (simp add: entitled_def Let_def)
  then show ?thesis
    unfolding exchange_presence_def by (intro entitled_rules entitled_lookups)
qed

lemma entitled_presence:
  "entitled A E me (announce_presence_on_connect A' me tx) w" "entitled A E me (announce_presence_on_disconnect A' me) w"
proof -
  show "entitled A E me (announce_presence_on_connect A' me tx) w"
    unfolding announce_presence_on_connect_def
    by (intro entitled_if entitled_frames entitled_write own_seen entitled_exchange)
  have "entitled A E me (tell_offline me) v" for v
    unfolding tell_offline_def Let_def by (intro entitled_rules entitled_lookups)
  then have "entitled A E me (db_call (touch_last_seen (me_id me)) (\<lambda>e. tell_offline me) (\<lambda>_. tell_offline me)) w"
    by (intro entitled_write own_seen)
  then show "entitled A E me (announce_presence_on_disconnect A' me) w"
    by (simp add: entitled_def announce_presence_on_disconnect_def)
qed

lemma entitled_start: "own_reach A E me (w_db w) (w_db (snd (start_session A E' me tx w)))"
proof -
  have rooms: "entitled A E me (send_rooms A me tx) v" for v
    unfolding send_rooms_def by (intro entitled_rules entitled_lookups)
  have calls: "w_db (deliver_pending_calls E' me tx v) = w_db v" for v
    by (simp add: deliver_pending_calls_def fold_send_stays split: prod.split)
  have "own_reach A E me (w_db v) (w_db (announce_presence_on_connect A me tx (send_rooms A me tx v)))" for v
    using entitled_comp [OF rooms entitled_presence(1)] by (simp add: entitled_def)
  from this [of "open_channel tx w\<lparr>w_routing := register (me_username me) tx (w_routing (open_channel tx w))\<rparr>"]
  show ?thesis
    by (simp add: start_session_def Let_def calls) (simp add: open_channel_def)
qed

lemma entitled_end: "own_reach A E (se_me ss) (w_db w) (w_db (end_session A ss w))"
  using entitled_presence(2) [of A E "se_me ss" A
      "w\<lparr>w_routing := unregister (me_username (se_me ss)) (se_tx ss) (w_routing w)\<rparr>"]
  by (simp add: end_session_def Let_def entitled_def)

section \<open>Property\<close>

text \<open>
  C9. A session writes only what its account is entitled to, whatever its client sends and however the database
  fails: in every reachable state, the start of a session, the handling of a frame, with no other event in
  between, and the end of the session move the database only by transactions of \<open>own_step\<close>, each of which meets
  its condition in the state it starts from. So rows for messages, attachments and read marks go into rooms the
  account is in, message rows come from it and go to members of the room, rooms are renamed and left by members
  only, invites are made by unpaired accounts, a link, a membership by invite and a consumption need the
  pending invite and a signature over its token, in this order, and tokens, profiles and time stamps are the
  account's own, except that a call drops tokens of the partner that the push service has declared dead.
\<close>

theorem writes_entitled:
  assumes "server_reach A sv"
  shows "own_reach A E (se_me ss) (w_db (sv_world sv)) (w_db (snd (handle_frame A E f ss (sv_world sv)))) \<and>
    own_reach A E me (w_db (sv_world sv)) (w_db (snd (start_session A E me tx (sv_world sv)))) \<and>
    own_reach A E (se_me ss) (w_db (sv_world sv)) (w_db (end_session A ss (sv_world sv)))"
  using server_reach_ok [OF assms] by (simp add: server_ok_def entitled_frame entitled_start entitled_end)


text \<open>Court renames the room of the couple.\<close>

theorem writes_entitled_witness:
  "\<exists>d'. own_reach evening_app sample_env court evening d' \<and> map rm_name (rooms d') = [''home'']"
proof -
  let ?w = "sv_world (start_server evening [])"
  define ss where "ss = \<lparr>se_me = court, se_tx = 0, upload_rl = new_limiter 1 1, typing_rl = new_limiter 1 1,
    turn_rl = new_limiter 1 1, call_rl = new_limiter 1 1, last_seen = 0\<rparr>"
  have ss: "se_me ss = court" "me_id court = 1"
    by (simp_all add: ss_def court_def)
  have w: "w_db ?w = evening" "w_faults ?w = []"
    by (simp_all add: start_server_def)
  have told: "w_db (deliver_all f ms v) = w_db v" for f ms v
    unfolding deliver_all_def by (induction ms arbitrary: v) simp_all
  have "w_db (snd (handle_frame evening_app sample_env (RenameRoom ''R'' ''home'') ss ?w)) = snd (rename_room ''R'' ''home'' evening)"
    using evening_in_room
    by (simp add: handle_frame_def Let_def handle_rename_room_def is_member_def members_for_room_def ss w told db_call_served
        rename_room_def utf8_chars_def utf8_continuation_def MAX_ROOM_NAME_CHARS_def split: prod.split)
  moreover have "map rm_name (rooms (snd (rename_room ''R'' ''home'' evening))) = [''home'']"
    by (simp add: rename_room_def utf8_chars_def utf8_continuation_def room_ids_def evening_eq evening_home_eq update_where_def)
  moreover have "server_reach evening_app (start_server evening [])"
    using run_reach [OF run_start [OF evening_reached]] by simp
  ultimately show ?thesis
    using writes_entitled [of evening_app "start_server evening []" sample_env ss "RenameRoom ''R'' ''home''" court 0] ss(1) w(1)
    by auto
qed

text \<open>One consequence: no step of an account touches the messages of a room the account is not in.\<close>

definition room_messages :: "string \<Rightarrow> db \<Rightarrow> message_row_db list" where
  "room_messages rid d = filter (\<lambda>m. ms_room_id m = rid) (messages d)"

lemma filter_update_other:
  "(\<And>x. Q x \<Longrightarrow> \<not> P x \<and> \<not> P (g x)) \<Longrightarrow> filter P (update_where Q g xs) = filter P xs"
  by (induction xs) (auto simp: update_where_def)

lemma keeps_messages:
  "keeps (\<lambda>d. room_messages rid d = ms) (insert_room r nm)" "keeps (\<lambda>d. room_messages rid d = ms) (insert_member r i)"
  "keeps (\<lambda>d. room_messages rid d = ms) (delete_member r i)" "keeps (\<lambda>d. room_messages rid d = ms) (delete_room r)"
  "keeps (\<lambda>d. room_messages rid d = ms) (delete_open_invites i)" "keeps (\<lambda>d. room_messages rid d = ms) (insert_invite h i t x)"
  "keeps (\<lambda>d. room_messages rid d = ms) (link_partner i j)"
  by (auto intro!: keepsI simp: op_defs room_messages_def Let_def)

lemma keeps_messages_rooms:
  "keeps (\<lambda>d. room_messages rid d = ms) (create_room_with_members r host partner nm)"
  "keeps (\<lambda>d. room_messages rid d = ms) (leave_room r i)"
  "keeps (\<lambda>d. room_messages rid d = ms) (create_invite_record i h t x)"
  by (rule keeps_create_room keeps_leave_room keeps_create_invite; rule keeps_messages)+

lemma keeps_messages_link: "keeps (\<lambda>d. room_messages rid d = ms) (set_partner_link a b)"
  unfolding set_partner_link_def
  by (intro keeps_transaction keeps_then keeps_read)
    (auto intro!: keeps_then keeps_read keeps_messages split: option.split)

lemma keeps_messages_insert_many:
  assumes "\<forall>row \<in> set rows. mr_room_id row \<noteq> rid"
  shows "keeps (\<lambda>d. room_messages rid d = ms) (insert_many rows)"
proof -
  have "keeps (\<lambda>d. room_messages rid d = ms) (insert_message row)" if "mr_room_id row \<noteq> rid" for row
    using that by (intro keepsI) (auto simp: insert_message_def room_messages_def)
  then have "keeps (\<lambda>d. room_messages rid d = ms) (insert_each rows)"
    using assms by (induction rows) (auto intro!: keeps_then keeps_read)
  then show ?thesis
    unfolding insert_many_def by (rule keeps_transaction)
qed

lemma keeps_value:
  "keeps (\<lambda>d. room_messages rid d = room_messages rid d0) q \<Longrightarrow> room_messages rid (snd (q d0)) = room_messages rid d0"
  by (simp add: keeps_def)

lemmas room_messages_kept = keeps_messages [THEN keeps_value] keeps_messages_rooms [THEN keeps_value]
  keeps_messages_link [THEN keeps_value]

lemma room_messages_stmts:
  "room_messages rid (snd (touch_last_seen i d)) = room_messages rid d"
  "room_messages rid (snd (upsert_profile i envelope avatar d)) = room_messages rid d"
  "room_messages rid (snd (upsert_token i device token environment kind d)) = room_messages rid d"
  "room_messages rid (snd (delete_token i device d)) = room_messages rid d"
  "room_messages rid (snd (delete_token_value i token d)) = room_messages rid d"
  "room_messages rid (snd (insert_attachment key r i bsize d)) = room_messages rid d"
  "room_messages rid (snd (rename_room r nm d)) = room_messages rid d"
  "room_messages rid (snd (mark_consumed h at d)) = room_messages rid d"
  by (auto simp: op_defs room_messages_def)

lemma own_step_foreign_room:
  "own_step A E me d d' \<Longrightarrow> \<not> in_room rid (me_id me) d \<Longrightarrow> room_messages rid d' = room_messages rid d"
proof (induction rule: own_step.induct)
  case (own_send rid' d rows)
  then have "\<forall>row \<in> set rows. mr_room_id row \<noteq> rid" by auto
  then show ?case by (intro keeps_value keeps_messages_insert_many)
next
  case (own_read rid' d up_to)
  then have "rid' \<noteq> rid" by auto
  then show ?case
    by (auto simp: room_messages_def mark_read_def unread_upto_def intro!: filter_update_other)
qed (simp_all add: room_messages_kept room_messages_stmts)

end
