(* ===== verification/Spec2Isabelle.thy ===== *)
theory Spec2Isabelle
  imports Identity Guards Joining Scrub Startup Seed Ringing Liveness Announcing Delivery Stored CryptoTests WireTests ServerTests
    PairingTests Authority
begin

text \<open>
  Little Love: an end-to-end encrypted messenger for couples. This development covers its two Rust
  crates, \<open>crypto/\<close> (identities, invite codes, signatures, message sealing) and \<open>server/\<close> (the relay: accounts,
  pairing, rooms, messages, calls, push), whose trust boundary is the WebSocket protocol of \<open>ws.rs\<close> over
  a Postgres database.

  \<^bold>\<open>How the program fits together\<close>

  A client opens a WebSocket, proves who it is by signing a challenge, and then sends frames. A frame is read
  from JSON and handled by one function of \<open>ws.rs\<close>, which calls the statements of the database modules and queues
  frames on the channels of the sessions that the routing table names. A session ends when its client leaves or
  falls silent. Push notifications run as tasks of their own, calls to a sleeping client are held in a registry.
  \<open>main.rs\<close> builds the shared state from the environment.

  \<^bold>\<open>Parts and theories\<close>

  \<^item> Prelude: strings as UTF-8 bytes, words, the string functions of the Rust library, the locale
    \<open>keyed_table\<close> of an upserted table. Crates: the third-party crates as a record of functions, their
    documented laws as named predicates, one concrete instance that satisfies all of them.
  \<^item> Wordlist, InviteCode, Identity (\<open>crypto/src/wordlist.rs\<close>, \<open>invite.rs\<close>, \<open>identity.rs\<close>): the 2048 words, codes
    and recovery phrases bit by bit on words of the source's width. Sig (\<open>sig.rs\<close>): domain-separated
    signatures. Aead (\<open>aead.rs\<close>, \<open>ecdh.rs\<close>): room keys and the sealed wire string.
  \<^item> Wire (\<open>server/src/wire.rs\<close>): the frames of the protocol. Frames: the JSON that \<open>serde\<close> derives for them.
    Legacy: the v0.1 frames.
  \<^item> Tables (\<open>server/migrations\<close>): a database is one list of rows for each table, a statement is a function
    to a result or a constraint error and the new database, a transaction rolls back on an error;
    \<open>schema_ok\<close> is the conjunction of the schema's constraints. Accounts, Rooms, Invites, Store, Registry:
    the statements of \<open>accounts.rs\<close>, \<open>rooms.rs\<close>, \<open>invites.rs\<close>, \<open>store.rs\<close>, and of \<open>push_tokens.rs\<close>, \<open>profiles.rs\<close>,
    \<open>attachments.rs\<close>. Pairing: the monogamy rule over them.
  \<^item> Routing, Calls, RateLimit, Push: \<open>routing.rs\<close> (locale \<open>session_registry\<close>), \<open>calls.rs\<close>, the sliding-window
    limiter of \<open>ws.rs\<close>, \<open>push.rs\<close>. Config, Scrub: \<open>config.rs\<close> and \<open>scrub.rs\<close>.
  \<^item> World: what a handler sees and changes: the database, the routing table, the channels with the
    frames queued on them, held calls, spawned tasks, sent pushes, and a script of database faults. A fault may
    refuse a statement or lose the answer to one that was executed. \<open>db_call\<close> is the
    \<open>match query.await\<close> of the source; \<open>emits\<close> says which frames a step may queue on which channels.
  \<^item> Ws (\<open>ws.rs\<close>): one definition for each frame handler, in the source's order. Session: handshake, one
    turn of the select loop, start and end of a connection. Rest: the REST handlers and \<open>diag.rs\<close>.
  \<^item> Server: the running server as a step relation \<open>server_step\<close>: connections, each one event at a time, push
    tasks, the sweeper, REST requests, the clock, a database that fails and recovers. Startup: \<open>main.rs\<close>,
    \<open>r2.rs\<close>, \<open>well_known.rs\<close>. Seed: the seed tool.
  \<^item> CryptoTests, WireTests, ServerTests: the unit tests of the sources, one definition for each, and that the model
    passes them. StoreTests, WsTests, PairingTests: the integration tests of \<open>server/tests\<close>, on the tables and with
    clients that sign in, pair, write, read, type and disconnect. They tie the definitions above to what the authors of
    the code expect of it.

  \<^bold>\<open>The interfaces\<close>

  What the statements and the elementary effects keep is kept by everything built from them. The locales say so
  once, and each interpretation is a fact about the whole server: \<open>handler_frame\<close> (every handler that moves no
  message body), \<open>message_frame\<close> (the two others), \<open>loop_frame\<close> (the select loop), \<open>connection_frame\<close> (start and
  end), \<open>server_frame\<close> (every step of the server). They are interpreted with the transition relation
  \<open>db_step\<close> of the transactions, with the frames a step may queue, with an unchanged routing table, and in Stored with
  the well-formedness of the stored values, where the assumptions carry the checks of the handlers.
  \<open>session_registry\<close>, \<open>keyed_table\<close>, \<open>separated_tags\<close> and \<open>eleven_bit_words\<close> are contracts of single modules.

  \<^bold>\<open>What the lemmas show\<close>

  \<^item> Crypto: round trips and the exact error behaviour of codes, phrases, signatures and sealed messages.
  \<^item> Tables and statements: every statement keeps the schema; exact results; pairing is symmetric and
    permanent under any interleaving of the transactions (Pairing, Effects, Safety).
  \<^item> Handlers: who may do what (Guards, Messaging), that a session writes nothing its account is not entitled to
    (Authority), exact effects (Joining, Messaging, Handling, Announcing).
  \<^item> The server in every reachable state: the routing table is the list of running sessions, sessions act for
    existing accounts, bodies are only for those they were stored for (Server, Guarantees); a message, a receipt, a
    change to a room and a call reach the running sessions they should (Guarantees, Handling, Announcing, Ringing);
    frames are written to the socket in the order they were queued, and what one application seals the other
    opens (Delivery).
  \<^item> The values the handlers let into the tables are well-formed (Stored).
  \<^item> The life of a session: it ends exactly when the client leaves or is silent, and a silent one ends by the fourth
    tick of the heartbeat (Liveness).
  \<^item> Sample and the scenarios of Guarantees: reachable states at which the theorems are applied.

  \<^bold>\<open>Modelling decisions\<close>

  Transactions and single statements are atomic steps. Postgres runs them at READ COMMITTED, where the revocation
  in \<open>create_invite_record\<close> and the member count in \<open>leave_room\<close> can race with another transaction; such
  races are outside the model, while the rows that \<open>set_partner_link\<close> locks make its transaction atomic.
  A handler runs without interruption: a step of \<open>server_step\<close> is one whole event of one connection. In the
  program the handlers of two connections can interleave at every \<open>await\<close>, so that what a handler has read may have
  changed when it writes. Only the theorems about reachability along \<open>db_step\<close> (the schema, monogamy, permanence)
  speak of such interleavings. Theorems about a handler, under faults or without, and about the states and runs of
  the server are about events that are handled one after the other.
  The identifiers of \<open>Ulid\<close> do not repeat (\<open>event_fresh\<close>), a new channel is nobody else's.
  The iteration order of a Rust hash map is the order of insertion here. Loops over collections are folds, so
  nothing needs fuel: the select loop runs over the list of events it is offered. Randomness, clocks and ULIDs are
  arguments. The sequence of account ids is unbounded.

  \<^bold>\<open>Not modelled\<close>

  The text of JSON (\<open>serde_json\<close>, a parameter, as is the array form in which \<open>serde\<close> also accepts a frame), the
  logging and the client of Sentry beyond the parse of its DSN, the table of routes, the internals of the third-party crates
  (cryptography, S3, APNs, HTTP, the regular expression of the scrubber), and the Dart client, a program of its own.
\<close>

end
